(* ===== verification/Prelude.thy ===== *)
theory Prelude
  imports Complex_Main "HOL-Library.Multiset" "HOL-Library.Code_Target_Nat"
begin

text \<open>
  Shared vocabulary of the development: the named collections that the component
  theories fill and consult, and generic facts on lists and options that have no
  JavaScript content. \<open>take_slice\<close> is \<open>Array.prototype.slice(0, end)\<close>, with the
  standard's reading of a negative end.
\<close>

named_theorems js_defs \<open>definitions of the JavaScript library that witnesses unfold\<close>
named_theorems hook_defs \<open>definitions of the hooks' event handlers\<close>
named_theorems hook_frame \<open>what a hook's operation leaves unchanged\<close>

section \<open>Slices and searches\<close>

definition take_slice :: "int \<Rightarrow> 'a list \<Rightarrow> 'a list" where
  "take_slice end xs =
     (let n = int (length xs); e = (if end < 0 then max (n + end) 0 else end)
      in take (nat e) xs)"

lemma take_slice_nonneg: "0 \<le> e \<Longrightarrow> take_slice e xs = take (nat e) xs"
  by (simp add: take_slice_def)

lemma length_take_slice_le: "length (take_slice e xs) \<le> length xs"
  by (simp add: take_slice_def Let_def)

lemma set_take_slice_subset: "set (take_slice e xs) \<subseteq> set xs"
  by (auto simp: take_slice_def Let_def dest: in_set_takeD)

lemma find_Some_D: "find P xs = Some x \<Longrightarrow> x \<in> set xs \<and> P x"
  by (auto simp: find_Some_iff)

lemma find_None_iff_all: "find P xs = None \<longleftrightarrow> (\<forall>x\<in>set xs. \<not> P x)"
  by (auto simp: find_None_iff)

lemma find_append_first:
  "find P xs = Some x \<Longrightarrow> find P (xs @ ys) = Some x"
  by (induction xs) auto

text \<open>The list without its element at an index: a request that was answered.\<close>

definition drop_nth :: "nat \<Rightarrow> 'a list \<Rightarrow> 'a list" where
  "drop_nth i xs = take i xs @ drop (Suc i) xs"

lemma set_drop_nth_subset: "set (drop_nth i xs) \<subseteq> set xs"
  by (auto simp: drop_nth_def dest: in_set_takeD in_set_dropD)

lemma set_drop_nth_other:
  "j < length xs \<Longrightarrow> j \<noteq> i \<Longrightarrow> xs ! j \<in> set (drop_nth i xs)"
  by (cases "j < i") (auto simp: drop_nth_def in_set_conv_nth intro: exI [of _ j] exI [of _ "j - Suc i"])

lemma drop_nth_0 [simp]: "drop_nth 0 (x # xs) = xs"
  by (simp add: drop_nth_def)

lemma drop_nth_Suc [simp]: "drop_nth (Suc i) (x # xs) = x # drop_nth i xs"
  by (simp add: drop_nth_def)

section \<open>Sorted lists\<close>

lemma sorted_wrt_filter_keep: "sorted_wrt P xs \<Longrightarrow> sorted_wrt P (filter Q xs)"
  by (induction xs) auto

lemma sorted_wrt_map_iff:
  "sorted_wrt P (map f xs) = sorted_wrt (\<lambda>x y. P (f x) (f y)) xs"
  by (induction xs) auto

text \<open>A concatenation of blocks whose elements carry the label of their block.\<close>

lemma distinct_concat_labelled:
  assumes "distinct (map fst ds)"
    and "\<And>k c. (k, c) \<in> set ds \<Longrightarrow> distinct (g k c) \<and> (\<forall>x\<in>set (g k c). h x = k)"
  shows "distinct (concat (map (\<lambda>(k, c). g k c) ds))"
  using assms
proof (induction ds)
  case (Cons e ds)
  obtain k c where e: "e = (k, c)" by (cases e)
  have "h x \<in> fst ` set ds" if "x \<in> set (concat (map (\<lambda>(k, c). g k c) ds))" for x
    using that Cons.prems(2) by (fastforce intro: rev_image_eqI)
  moreover have "h x = k" if "x \<in> set (g k c)" for x using that Cons.prems(2) [of k c] by (simp add: e)
  ultimately have "set (g k c) \<inter> set (concat (map (\<lambda>(k, c). g k c) ds)) = {}"
    using Cons.prems(1) by (auto simp: e)
  moreover have "distinct (concat (map (\<lambda>(k, c). g k c) ds))"
  proof (rule Cons.IH)
    show "distinct (map fst ds)" using Cons.prems(1) by simp
  qed (use Cons.prems(2) in \<open>meson list.set_intros(2)\<close>)
  ultimately show ?case using Cons.prems(2) [of k c] by (simp add: e)
qed simp

lemma distinct_mset_subset:
  assumes "mset xs \<subseteq># mset ys" and "distinct ys"
  shows "distinct xs"
proof -
  have "count (mset xs) a = (if a \<in> set xs then 1 else 0)" for a
  proof -
    have "count (mset xs) a \<le> count (mset ys) a" using assms(1) by (rule mset_subset_eq_count)
    moreover have "count (mset ys) a \<le> 1" using assms(2) by (simp add: distinct_count_atmost_1)
    moreover have "a \<in> set xs \<longleftrightarrow> 0 < count (mset xs) a" by simp
    ultimately show ?thesis by (metis One_nat_def Suc_leI le_antisym le_trans not_gr_zero)
  qed
  then show ?thesis by (simp add: distinct_count_atmost_1)
qed

lemma length_filter_full: "length (filter P xs) = length xs \<longleftrightarrow> (\<forall>x\<in>set xs. P x)"
proof (cases "\<forall>x\<in>set xs. P x")
  case False
  then obtain x where "x \<in> set xs" "\<not> P x" by blast
  then have "length (filter P xs) < length xs" by (rule length_filter_less)
  with False show ?thesis by simp
qed simp

end
