(* ===== verification/JsString.thy ===== *)
theory JsString
  imports Prelude
begin

text \<open>
  The operations on JavaScript strings that the frontend uses. A string is a list of
  code units; the characters of the model are the code units below 256, on which
  every operation here is the one of the language standard: \<open>toLowerCase\<close> maps
  the ASCII and the Latin-1 capitals, and white space is the part of the standard's
  \<open>WhiteSpace\<close> and \<open>LineTerminator\<close> in that range (tab, line feed, vertical tab,
  form feed, carriage return, space, no-break space). The lemmas give the
  logical reading of the executable searches and the shape of \<open>split\<close>'s result.
\<close>

section \<open>Case, white space, searching\<close>

definition char_code :: "char \<Rightarrow> nat" where
  "char_code c = of_char c"

definition to_lower_char :: "char \<Rightarrow> char" where
  "to_lower_char c =
     (let n = char_code c in
      if (65 \<le> n \<and> n \<le> 90) \<or> (192 \<le> n \<and> n \<le> 222 \<and> n \<noteq> 215)
      then char_of (n + 32) else c)"

definition to_lower :: "string \<Rightarrow> string" where
  "to_lower s = map to_lower_char s"

definition is_space :: "char \<Rightarrow> bool" where
  "is_space c = (let n = char_code c in (9 \<le> n \<and> n \<le> 13) \<or> n = 32 \<or> n = 160)"

definition trim :: "string \<Rightarrow> string" where
  "trim s = rev (dropWhile is_space (rev (dropWhile is_space s)))"

fun starts_with :: "string \<Rightarrow> string \<Rightarrow> bool" where
  "starts_with s [] = True"
| "starts_with [] (p # ps) = False"
| "starts_with (c # cs) (p # ps) = (c = p \<and> starts_with cs ps)"

fun contains :: "string \<Rightarrow> string \<Rightarrow> bool" where
  "contains [] n = (n = [])"
| "contains (c # h) n = (starts_with (c # h) n \<or> contains h n)"

definition ends_with :: "string \<Rightarrow> string \<Rightarrow> bool" where
  "ends_with s p = starts_with (rev s) (rev p)"

text \<open>Relational comparison of strings (\<open><\<close>, \<open>></\<close>) is by code unit.\<close>

fun code_less :: "string \<Rightarrow> string \<Rightarrow> bool" where
  "code_less s [] = False"
| "code_less [] (d # ds) = True"
| "code_less (c # cs) (d # ds) =
     (char_code c < char_code d \<or> (c = d \<and> code_less cs ds))"

section \<open>Splitting and joining\<close>

fun split_on :: "(char \<Rightarrow> bool) \<Rightarrow> string \<Rightarrow> string list" where
  "split_on p [] = [[]]"
| "split_on p (c # cs) =
     (if p c then [] # split_on p cs
      else (case split_on p cs of [] \<Rightarrow> [[c]] | w # ws \<Rightarrow> (c # w) # ws))"

fun join :: "string \<Rightarrow> string list \<Rightarrow> string" where
  "join sep [] = []"
| "join sep [w] = w"
| "join sep (w # v # ws) = w @ sep @ join sep (v # ws)"

text \<open>\<open>filter(Boolean)\<close> on strings keeps the non-empty ones.\<close>

definition non_empty :: "string list \<Rightarrow> string list" where
  "non_empty ws = filter (\<lambda>w. w \<noteq> []) ws"

lemmas [js_defs] = char_code_def to_lower_char_def to_lower_def is_space_def trim_def
  ends_with_def non_empty_def

section \<open>Facts\<close>

lemma char_code_less_256 [simp]: "char_code c < 256"
  using nat_of_char_less_256 [of c] by (simp add: char_code_def)

lemma char_code_char_of [simp]: "n < 256 \<Longrightarrow> char_code (char_of n) = n"
  by (simp add: char_code_def take_bit_eq_mod)

lemma char_code_inject [simp]: "char_code c = char_code d \<longleftrightarrow> c = d"
  by (simp add: char_code_def)

lemma to_lower_char_idem [simp]: "to_lower_char (to_lower_char c) = to_lower_char c"
  by (auto simp: to_lower_char_def Let_def)

lemma to_lower_idem [simp]: "to_lower (to_lower s) = to_lower s"
  by (simp add: to_lower_def)

lemma to_lower_append [simp]: "to_lower (s @ r) = to_lower s @ to_lower r"
  by (simp add: to_lower_def)

lemma to_lower_eq_Nil [simp]: "to_lower s = [] \<longleftrightarrow> s = []"
  by (simp add: to_lower_def)

lemma starts_with_iff: "starts_with s p \<longleftrightarrow> (\<exists>q. s = p @ q)"
  by (induction s p rule: starts_with.induct) auto

lemma starts_with_refl [simp]: "starts_with s s"
  by (auto simp: starts_with_iff)

lemma starts_with_append [simp]: "starts_with (p @ q) p"
  by (auto simp: starts_with_iff)

lemma contains_iff: "contains h n \<longleftrightarrow> (\<exists>p q. h = p @ n @ q)"
proof (induction h)
  case Nil
  then show ?case by auto
next
  case (Cons c h)
  have "(\<exists>p q. c # h = p @ n @ q) \<longleftrightarrow>
      (\<exists>q. c # h = n @ q) \<or> (\<exists>p q. h = p @ n @ q)"
    by (metis Cons_eq_append_conv append_Cons append_Nil)
  with Cons.IH show ?case by (auto simp: starts_with_iff)
qed

lemma contains_Nil [simp]: "contains h []"
  by (cases h) auto

lemma contains_refl [simp]: "contains h h"
  by (metis append_Nil append_Nil2 contains_iff)

lemma contains_trans: "contains a b \<Longrightarrow> contains b c \<Longrightarrow> contains a c"
  by (metis append_assoc contains_iff)

lemma code_less_irrefl [simp]: "\<not> code_less s s"
  by (induction s) auto

lemma code_less_trans: "code_less a b \<Longrightarrow> code_less b c \<Longrightarrow> code_less a c"
proof (induction a b arbitrary: c rule: code_less.induct)
  case (3 x xs y ys)
  then show ?case by (cases c) auto
qed (auto elim: code_less.elims)

lemma code_less_total: "a \<noteq> b \<Longrightarrow> code_less a b \<or> code_less b a"
  by (induction a b rule: code_less.induct)
     (auto simp: neq_Nil_conv dest: linorder_neqE_nat [OF contrapos_nn [OF _ char_code_inject [THEN iffD1]]])

lemma split_on_not_Nil [simp]: "split_on p s \<noteq> []"
  by (induction s) (auto split: list.splits)

lemma split_on_pieces: "w \<in> set (split_on p s) \<Longrightarrow> c \<in> set w \<Longrightarrow> \<not> p c"
  by (induction s arbitrary: w) (force split: list.splits if_splits)+

lemma split_on_no_sep: "\<forall>c\<in>set s. \<not> p c \<Longrightarrow> split_on p s = [s]"
  by (induction s) auto

lemma split_on_append_sep:
  "p c \<Longrightarrow> split_on p (s @ c # r) = split_on p s @ split_on p r"
  by (induction s) (auto split: list.splits)

lemma join_split_on: "join [c] (split_on (\<lambda>d. d = c) s) = s"
proof (induction s)
  case Nil
  then show ?case by simp
next
  case (Cons d s)
  obtain w ws where s: "split_on (\<lambda>d. d = c) s = w # ws"
    by (meson list.exhaust split_on_not_Nil)
  with Cons.IH show ?case by (cases ws) auto
qed

lemma set_non_empty [simp]: "set (non_empty ws) = set ws - {[]}"
  by (auto simp: non_empty_def)

end
