(* ===== verification/JsNumber.thy ===== *)
theory JsNumber
  imports JsString
begin

text \<open>
  JavaScript numbers as the frontend prints them. A metric is an exact rational (every
  finite double is one; the rounding of a double operation is not modelled), a byte
  count or an identifier an integer. \<open>show_int\<close> is \<open>Number.prototype.toString\<close> on
  integers below \<open>10 ^ 21\<close>; \<open>to_fixed\<close> is \<open>toFixed\<close> below \<open>10 ^ 21\<close>: the integer
  \<open>n\<close> with \<open>n / 10 ^ f\<close> nearest to the value, the larger one on a tie, the sign
  written first. The lemmas read the printed digits back.
\<close>

section \<open>Decimal digits\<close>

definition digit :: "nat \<Rightarrow> char" where
  "digit n = ''0123456789'' ! n"

fun show_nat :: "nat \<Rightarrow> string" where
  "show_nat n = (if n < 10 then [digit n] else show_nat (n div 10) @ [digit (n mod 10)])"

declare show_nat.simps [simp del]

definition show_int :: "int \<Rightarrow> string" where
  "show_int i = (if i < 0 then CHR ''-'' # show_nat (nat (- i)) else show_nat (nat i))"

definition read_nat :: "string \<Rightarrow> nat" where
  "read_nat s = foldl (\<lambda>n c. 10 * n + (char_code c - 48)) 0 s"

section \<open>toFixed\<close>

definition scaled :: "nat \<Rightarrow> rat \<Rightarrow> nat" where
  "scaled f x = nat \<lfloor>\<bar>x\<bar> * 10 ^ f + 1 / 2\<rfloor>"

definition fixed_digits :: "nat \<Rightarrow> nat \<Rightarrow> string" where
  "fixed_digits f n =
     (let ds = show_nat n; ps = replicate (Suc f - length ds) (CHR ''0'') @ ds;
          k = length ps - f
      in if f = 0 then ds else take k ps @ CHR ''.'' # drop k ps)"

definition to_fixed :: "nat \<Rightarrow> rat \<Rightarrow> string" where
  "to_fixed f x = (if x < 0 then ''-'' else []) @ fixed_digits f (scaled f x)"

text \<open>\<open>Math.max(a, ...xs)\<close> with at least one argument.\<close>

definition max_of :: "rat \<Rightarrow> rat list \<Rightarrow> rat" where
  "max_of a xs = foldr max xs a"

text \<open>\<open>Math.round\<close>: the nearest integer, ties upwards.\<close>

definition js_round :: "rat \<Rightarrow> int" where
  "js_round x = \<lfloor>x + 1 / 2\<rfloor>"

section \<open>Facts\<close>

lemma char_code_digit [simp]: "n < 10 \<Longrightarrow> char_code (digit n) = 48 + n"
proof -
  assume "n < 10"
  then have "n \<in> {0, 1, 2, 3, 4, 5, 6, 7, 8, 9}" by auto
  then show ?thesis by (auto simp: digit_def char_code_def)
qed

lemma show_nat_not_Nil [simp]: "show_nat n \<noteq> []"
  by (subst show_nat.simps) simp

lemma show_nat_digits: "c \<in> set (show_nat n) \<Longrightarrow> 48 \<le> char_code c \<and> char_code c \<le> 57"
proof (induction n rule: show_nat.induct)
  case (1 n)
  then show ?case
    by (subst (asm) (2) show_nat.simps) (auto split: if_splits)
qed

lemma read_nat_append: "read_nat (s @ r) = read_nat s * 10 ^ length r + read_nat r"
proof (induction r rule: rev_induct)
  case (snoc c r)
  then show ?case by (simp add: read_nat_def algebra_simps)
qed (simp add: read_nat_def)

lemma read_show_nat [simp]: "read_nat (show_nat n) = n"
proof (induction n rule: show_nat.induct)
  case (1 n)
  show ?case
  proof (cases "n < 10")
    case True
    then show ?thesis by (subst show_nat.simps) (simp add: read_nat_def)
  next
    case False
    then show ?thesis
      using 1 by (subst show_nat.simps) (simp add: read_nat_append, simp add: read_nat_def)
  qed
qed

lemma show_nat_inject [simp]: "show_nat m = show_nat n \<longleftrightarrow> m = n"
  by (metis read_show_nat)

definition read_int :: "string \<Rightarrow> int" where
  "read_int s = (if starts_with s ''-'' then - int (read_nat (tl s)) else int (read_nat s))"

lemma read_show_int [simp]: "read_int (show_int i) = i"
proof -
  have "\<not> starts_with (show_nat n) ''-''" for n
  proof
    assume "starts_with (show_nat n) ''-''"
    then have "CHR ''-'' \<in> set (show_nat n)" by (auto simp: starts_with_iff)
    from show_nat_digits [OF this] show False by (simp add: char_code_def)
  qed
  then show ?thesis by (simp add: read_int_def show_int_def)
qed

lemma show_int_not_Nil [simp]: "show_int i \<noteq> []"
  by (simp add: show_int_def)

lemma read_nat_zeros: "read_nat (replicate k (CHR ''0'')) = 0"
  by (induction k rule: nat_induct)
     (simp_all add: read_nat_def char_code_def replicate_append_same [symmetric])

lemma filter_out_mark:
  assumes "\<forall>c\<in>set qs. c \<noteq> d"
  shows "filter (\<lambda>c. c \<noteq> d) (take k qs @ d # drop k qs) = qs"
proof -
  have "filter (\<lambda>c. c \<noteq> d) (take k qs) = take k qs"
    and "filter (\<lambda>c. c \<noteq> d) (drop k qs) = drop k qs"
    using assms by (auto intro!: filter_True dest: in_set_takeD in_set_dropD)
  then show ?thesis by simp
qed

lemma read_fixed_digits: "read_nat (filter (\<lambda>c. c \<noteq> CHR ''.'') (fixed_digits f n)) = n"
proof -
  let ?ds = "show_nat n"
  define ps where "ps = replicate (Suc f - length ?ds) (CHR ''0'') @ ?ds"
  have "\<not> 48 \<le> char_code (CHR ''.'')" by (simp add: char_code_def)
  then have ds: "\<forall>c\<in>set ?ds. c \<noteq> CHR ''.''" using show_nat_digits by blast
  have "CHR ''0'' \<noteq> CHR ''.''" by simp
  with ds have "\<forall>c\<in>set ps. c \<noteq> CHR ''.''"
    unfolding ps_def set_append by (metis Un_iff in_set_replicate)
  moreover have "read_nat ps = n"
    by (simp add: ps_def read_nat_append read_nat_zeros)
  moreover have "fixed_digits f n =
      (if f = 0 then ?ds else take (length ps - f) ps @ CHR ''.'' # drop (length ps - f) ps)"
    by (simp only: fixed_digits_def Let_def ps_def)
  ultimately show ?thesis
    using ds by (simp only: filter_out_mark filter_True read_show_nat simp_thms split: if_split)
qed

lemma floor_half_nearest: "\<bar>of_int \<lfloor>y + 1 / 2\<rfloor> - (y :: rat)\<bar> \<le> 1 / 2"
  unfolding abs_le_iff by linarith

lemma scaled_nearest: "\<bar>of_nat (scaled f x) - \<bar>x\<bar> * 10 ^ f\<bar> \<le> 1 / 2"
proof -
  have "0 \<le> \<bar>x\<bar> * 10 ^ f" by simp
  then have "0 \<le> \<lfloor>\<bar>x\<bar> * 10 ^ f + 1 / 2\<rfloor>" by linarith
  then have "of_nat (scaled f x) = (of_int \<lfloor>\<bar>x\<bar> * 10 ^ f + 1 / 2\<rfloor> :: rat)"
    by (simp add: scaled_def)
  then show ?thesis by (simp only: floor_half_nearest)
qed

lemma max_of_ge: "a \<le> max_of a xs" "x \<in> set xs \<Longrightarrow> x \<le> max_of a xs"
  by (induction xs) (auto simp: max_of_def le_max_iff_disj)

lemma max_of_in: "max_of a xs \<in> insert a (set xs)"
  by (induction xs) (auto simp: max_of_def max_def)

end
