(* ===== verification/ApiTypes.thy ===== *)
theory ApiTypes
  imports JsNumber
begin

text \<open>
  The wire types of \<open>src/api/types.ts\<close>. Measured quantities are exact rationals, byte
  counts and counters integers, instants the strings the server sends. A field that
  clashes with a HOL name or with another record carries a prefix. Optional fields
  are options; the unions of string literals that the code compares with strings it
  does not control stay strings.
\<close>

datatype app_mode = Agent_Mode | Hub_Mode

record meta_response =
  mode :: app_mode
  version :: string

record process_info =
  p_user :: string
  pid :: int
  cpuUsage :: rat
  memoryUsage :: rat
  command :: string

record service_info =
  serviceName :: string
  s_status :: string
  description :: string

record container_info =
  c_id :: string
  c_name :: string
  c_image :: string
  c_status :: string
  health :: string
  restartCount :: int
  composeProject :: string
  composeService :: string
  ports :: "string list"

record disk_usage_info =
  mount :: string
  filesystem :: string
  totalBytes :: int
  usedBytes :: int
  usePercent :: rat

record network_usage_info =
  n_name :: string
  bytesReceived :: int
  bytesSent :: int

record metrics_payload =
  cpuLoad :: rat
  usedMemory :: int
  totalMemory :: int
  processInfos :: "process_info list"
  serviceInfos :: "service_info list"
  containers :: "container_info list"
  diskUsage :: "disk_usage_info list"
  networkUsage :: "network_usage_info list"
  availableProcessors :: int
  systemLoadAverage :: rat

record metrics_snapshot =
  collectedAt :: string
  payload :: metrics_payload

record agent_summary =
  agentId :: string
  hostname :: string
  firstSeen :: "string option"
  lastSeen :: string
  a_status :: "string option"
  a_cpuLoad :: rat
  a_usedMemory :: int
  a_totalMemory :: int
  containerCount :: int

text \<open>
  Instants are parsed by \<open>new Date(s).getTime()\<close>, whose result on strings outside
  the standard's date format is up to the implementation: the definitions that use it
  take the parser as an argument, \<open>None\<close> being \<open>NaN\<close>.
\<close>

type_synonym date_parser = "string \<Rightarrow> int option"

text \<open>A small payload and snapshot for the closed instances of the theorems.\<close>

definition idle_payload :: metrics_payload where
  "idle_payload = \<lparr> cpuLoad = 0, usedMemory = 0, totalMemory = 0, processInfos = [],
     serviceInfos = [], containers = [], diskUsage = [], networkUsage = [],
     availableProcessors = 0, systemLoadAverage = 0 \<rparr>"

definition snapshot_at :: "string \<Rightarrow> metrics_snapshot" where
  "snapshot_at t = \<lparr> collectedAt = t, payload = idle_payload \<rparr>"

lemma collectedAt_snapshot_at [simp]: "collectedAt (snapshot_at t) = t"
  by (simp add: snapshot_at_def)

lemma payload_snapshot_at [simp]: "payload (snapshot_at t) = idle_payload"
  by (simp add: snapshot_at_def)

end
