(* ===== verification/AgentStatus.thy ===== *)
theory AgentStatus
  imports ApiTypes
begin

text \<open>
  \<open>src/lib/agentStatus.ts\<close>: how the connection status of an agent is labelled, coloured
  and filtered. The status is whatever string the server sent, or none; the
  translation function \<open>t\<close> is an argument.
\<close>

datatype tone = Success | Warning | Error_Tone | Neutral

datatype agent_list_filter = All_Agents | Live_Agents | Offline_Agents

definition agentStatusLabel :: "string option \<Rightarrow> (string \<Rightarrow> 'l) \<Rightarrow> 'l" where
  "agentStatusLabel status t =
     (if status = Some ''live'' then t ''hub.status.live''
      else if status = Some ''stale'' then t ''hub.status.stale''
      else if status = Some ''offline'' then t ''hub.status.offline''
      else t ''hub.status.live'')"

definition agentStatusTone :: "string option \<Rightarrow> tone" where
  "agentStatusTone status =
     (if status = Some ''live'' then Success
      else if status = Some ''stale'' then Warning
      else Neutral)"

definition isAgentOffline :: "string option \<Rightarrow> bool" where
  "isAgentOffline status = (status = Some ''offline'' \<or> status = Some ''stale'')"

fun matchesAgentFilter :: "string option \<Rightarrow> agent_list_filter \<Rightarrow> bool" where
  "matchesAgentFilter status All_Agents = True"
| "matchesAgentFilter status Live_Agents = (status = Some ''live'')"
| "matchesAgentFilter status Offline_Agents =
     (status = Some ''stale'' \<or> status = Some ''offline'')"

lemma offline_filter_iff [simp]: "matchesAgentFilter status Offline_Agents = isAgentOffline status"
  by (auto simp: isAgentOffline_def)

lemma live_not_offline: "matchesAgentFilter status Live_Agents \<Longrightarrow> \<not> isAgentOffline status"
  by (auto simp: isAgentOffline_def)

text \<open>An agent whose status is missing or unknown is labelled live although no filter
  but the one for all agents lists it: those are exactly the agents that carry the
  live label and are hidden by the live filter.\<close>

lemma live_label_filter_mismatch:
  "agentStatusLabel status (\<lambda>key. key) = ''hub.status.live'' \<and> \<not> matchesAgentFilter status Live_Agents
     \<longleftrightarrow> status \<notin> {Some ''live'', Some ''stale'', Some ''offline''}"
  by (auto simp: agentStatusLabel_def)

text \<open>For the statuses the server computes, label, tone and filters agree: every agent
  is listed by exactly one of the live and the offline filter, the green tone marks the
  live ones, and the offline filter lists those the sidebar dims.\<close>

lemma server_status_views_agree:
  assumes "status \<in> {Some ''live'', Some ''stale'', Some ''offline''}"
  shows "matchesAgentFilter status Live_Agents \<noteq> matchesAgentFilter status Offline_Agents \<and>
    (agentStatusTone status = Success \<longleftrightarrow> matchesAgentFilter status Live_Agents) \<and>
    (isAgentOffline status \<longleftrightarrow> matchesAgentFilter status Offline_Agents) \<and>
    agentStatusLabel status (\<lambda>key. key) = ''hub.status.'' @ the status"
  using assms by (auto simp: agentStatusTone_def isAgentOffline_def agentStatusLabel_def)

lemma server_status_views_agree_witness:
  "matchesAgentFilter (Some ''stale'') Live_Agents \<noteq> matchesAgentFilter (Some ''stale'') Offline_Agents"
  using server_status_views_agree [of "Some ''stale''"] by simp

end
