(* ===== verification/JsSort.thy ===== *)
theory JsSort
  imports Prelude
begin

text \<open>
  \<open>Array.prototype.sort(cmp)\<close>. For a comparator that is consistent on the elements
  (the standard's term) the standard fixes the result: the permutation that is sorted
  and keeps the order of elements that compare equal. \<open>js_sort\<close> computes it. The
  locale \<open>comparator_on\<close> is the interface a comparator offers on a carrier set; its
  lemmas are proved once here, and the component theories interpret it on the
  comparators of the code. \<open>stable_sort_unique\<close> shows that any conforming
  implementation of \<open>sort\<close> returns what \<open>js_sort\<close> returns.
\<close>

section \<open>The sort\<close>

fun js_insert :: "('a \<Rightarrow> 'a \<Rightarrow> rat) \<Rightarrow> 'a \<Rightarrow> 'a list \<Rightarrow> 'a list" where
  "js_insert cmp x [] = [x]"
| "js_insert cmp x (y # ys) =
     (if cmp x y \<le> 0 then x # y # ys else y # js_insert cmp x ys)"

fun js_sort :: "('a \<Rightarrow> 'a \<Rightarrow> rat) \<Rightarrow> 'a list \<Rightarrow> 'a list" where
  "js_sort cmp [] = []"
| "js_sort cmp (x # xs) = js_insert cmp x (js_sort cmp xs)"

definition sorted_by :: "('a \<Rightarrow> 'a \<Rightarrow> rat) \<Rightarrow> 'a list \<Rightarrow> bool" where
  "sorted_by cmp xs = sorted_wrt (\<lambda>x y. cmp x y \<le> 0) xs"

text \<open>The elements that compare equal to \<open>x\<close>, in their order.\<close>

definition peers :: "('a \<Rightarrow> 'a \<Rightarrow> rat) \<Rightarrow> 'a \<Rightarrow> 'a list \<Rightarrow> 'a list" where
  "peers cmp x xs = filter (\<lambda>y. cmp x y = 0) xs"

lemma mset_js_insert [simp]: "mset (js_insert cmp x xs) = add_mset x (mset xs)"
  by (induction xs) auto

lemma mset_js_sort [simp]: "mset (js_sort cmp xs) = mset xs"
  by (induction xs) auto

lemma set_js_sort [simp]: "set (js_sort cmp xs) = set xs"
  by (metis mset_js_sort set_mset_mset)

lemma set_js_insert [simp]: "set (js_insert cmp x xs) = insert x (set xs)"
  by (induction xs) auto

lemma length_js_sort [simp]: "length (js_sort cmp xs) = length xs"
  by (metis mset_js_sort size_mset)

lemma js_sort_Nil_iff [simp]: "js_sort cmp xs = [] \<longleftrightarrow> xs = []"
  by (metis length_js_sort length_0_conv)

lemma distinct_js_sort [simp]: "distinct (js_sort cmp xs) = distinct xs"
  by (metis mset_eq_imp_distinct_iff mset_js_sort)

section \<open>Comparators\<close>

locale comparator_on =
  fixes A :: "'a set" and cmp :: "'a \<Rightarrow> 'a \<Rightarrow> rat"
  assumes skew: "x \<in> A \<Longrightarrow> y \<in> A \<Longrightarrow> cmp x y < 0 \<longleftrightarrow> 0 < cmp y x"
    and transitive: "x \<in> A \<Longrightarrow> y \<in> A \<Longrightarrow> z \<in> A \<Longrightarrow>
      cmp x y \<le> 0 \<Longrightarrow> cmp y z \<le> 0 \<Longrightarrow> cmp x z \<le> 0"
begin

lemma reflexive: "x \<in> A \<Longrightarrow> cmp x x = 0"
  using skew [of x x] by (cases "cmp x x" "0 :: rat" rule: linorder_cases) auto

lemma flip_zero: "x \<in> A \<Longrightarrow> y \<in> A \<Longrightarrow> cmp x y = 0 \<longleftrightarrow> cmp y x = 0"
  using skew [of x y] skew [of y x] by (metis linorder_less_linear order_less_irrefl)

lemma flip_gt: "x \<in> A \<Longrightarrow> y \<in> A \<Longrightarrow> \<not> cmp x y \<le> 0 \<Longrightarrow> cmp y x \<le> 0"
  using skew [of y x] by linarith

lemma both_le: "x \<in> A \<Longrightarrow> y \<in> A \<Longrightarrow> cmp x y \<le> 0 \<Longrightarrow> cmp y x \<le> 0 \<Longrightarrow> cmp x y = 0"
  using skew [of x y] by linarith

lemma equal_le: "x \<in> A \<Longrightarrow> y \<in> A \<Longrightarrow> z \<in> A \<Longrightarrow> cmp x y = 0 \<Longrightarrow> cmp y z \<le> 0 \<Longrightarrow> cmp x z \<le> 0"
  by (rule transitive [of x y z]) auto

lemma equal_equal:
  "x \<in> A \<Longrightarrow> y \<in> A \<Longrightarrow> z \<in> A \<Longrightarrow> cmp x y = 0 \<Longrightarrow> cmp x z = 0 \<longleftrightarrow> cmp y z = 0"
  by (metis both_le equal_le flip_zero order_refl)

lemma sorted_js_insert:
  assumes "sorted_by cmp xs" and "x \<in> A" and "set xs \<subseteq> A"
  shows "sorted_by cmp (js_insert cmp x xs)"
  using assms
proof (induction xs)
  case Nil
  then show ?case by (simp add: sorted_by_def)
next
  case (Cons y ys)
  then have y: "y \<in> A" and ys: "set ys \<subseteq> A" by auto
  show ?case
  proof (cases "cmp x y \<le> 0")
    case True
    have "\<forall>z\<in>set ys. cmp x z \<le> 0"
      using Cons.prems True y ys by (auto simp: sorted_by_def intro: transitive [of x y])
    with Cons.prems True show ?thesis by (simp add: sorted_by_def)
  next
    case False
    with Cons y ys show ?thesis by (auto simp: sorted_by_def intro: flip_gt)
  qed
qed

lemma sorted_js_sort: "set xs \<subseteq> A \<Longrightarrow> sorted_by cmp (js_sort cmp xs)"
proof (induction xs)
  case Nil
  then show ?case by (simp add: sorted_by_def)
next
  case (Cons x xs)
  then show ?case using sorted_js_insert [of "js_sort cmp xs" x] by simp
qed

lemma peers_js_insert:
  assumes "sorted_by cmp xs" and "x \<in> A" and "set xs \<subseteq> A" and "a \<in> A"
  shows "peers cmp a (js_insert cmp x xs) = peers cmp a (x # xs)"
  using assms
proof (induction xs)
  case Nil
  then show ?case by (simp add: peers_def)
next
  case (Cons y ys)
  then have y: "y \<in> A" by simp
  show ?case
  proof (cases "cmp x y \<le> 0")
    case True
    then show ?thesis by (simp add: peers_def)
  next
    case False
    have "\<not> (cmp a x = 0 \<and> cmp a y = 0)"
      using False equal_equal [of a x y] Cons.prems y by auto
    with False Cons show ?thesis by (auto simp: peers_def sorted_by_def)
  qed
qed

lemma stable_js_sort: "set xs \<subseteq> A \<Longrightarrow> a \<in> A \<Longrightarrow> peers cmp a (js_sort cmp xs) = peers cmp a xs"
proof (induction xs)
  case Nil
  then show ?case by simp
next
  case (Cons x xs)
  then have "peers cmp a (js_sort cmp (x # xs)) = peers cmp a (x # js_sort cmp xs)"
    by (simp add: peers_js_insert sorted_js_sort)
  with Cons show ?case by (simp add: peers_def)
qed

lemma stable_sort_unique:
  assumes "sorted_by cmp ys" and "sorted_by cmp zs"
    and "set ys \<subseteq> A" and "set zs \<subseteq> A"
    and "\<And>a. a \<in> A \<Longrightarrow> peers cmp a ys = peers cmp a zs"
  shows "ys = zs"
  using assms
proof (induction ys arbitrary: zs)
  case Nil
  have "z \<notin> set zs" for z
  proof
    assume z: "z \<in> set zs"
    with Nil.prems(4) have "z \<in> A" by blast
    with z Nil.prems(5) [of z] reflexive [of z] show False
      by (auto simp: peers_def dest!: sym [of "[]"] simp: filter_empty_conv)
  qed
  then show ?case by (cases zs) auto
next
  case (Cons y ys)
  have mem: "a \<in> set (y # ys) \<longleftrightarrow> a \<in> set zs" if "a \<in> A" for a
  proof -
    have "a \<in> set us \<longleftrightarrow> a \<in> set (peers cmp a us)" for us
      using that reflexive by (auto simp: peers_def)
    then show ?thesis using Cons.prems(5) [OF that] by metis
  qed
  have y: "y \<in> A" and ys: "set ys \<subseteq> A" using Cons.prems(3) by auto
  with mem have "y \<in> set zs" by auto
  then obtain z us where zs: "zs = z # us" by (cases zs) auto
  with Cons.prems(4) have z: "z \<in> A" and us: "set us \<subseteq> A" by auto
  have "cmp z y \<le> 0"
    using \<open>y \<in> set zs\<close> zs Cons.prems(2) reflexive [OF y] by (auto simp: sorted_by_def)
  moreover have "z \<in> set (y # ys)" using mem [OF z] zs by simp
  then have "cmp y z \<le> 0"
    using Cons.prems(1) reflexive [OF y] by (auto simp: sorted_by_def)
  ultimately have "cmp y z = 0" using both_le y z by blast
  then have yz: "y = z"
    using Cons.prems(5) [OF y] reflexive [OF y] by (simp add: zs peers_def)
  have "peers cmp a ys = peers cmp a us" if "a \<in> A" for a
    using Cons.prems(5) [OF that] by (simp add: zs yz peers_def split: if_splits)
  with Cons.IH [of us] Cons.prems(1,2) ys us zs have "ys = us"
    by (simp add: sorted_by_def)
  with yz zs show ?case by simp
qed

lemma js_sort_sorted_id: "sorted_by cmp xs \<Longrightarrow> set xs \<subseteq> A \<Longrightarrow> js_sort cmp xs = xs"
  by (rule stable_sort_unique) (auto simp: sorted_js_sort stable_js_sort)

lemma negated: "comparator_on A (\<lambda>x y. - cmp x y)"
proof unfold_locales
  fix x y z
  assume "x \<in> A" and "y \<in> A"
  then show "- cmp x y < 0 \<longleftrightarrow> 0 < - cmp y x" using skew [of y x] by simp
  assume "z \<in> A" and "- cmp x y \<le> 0" and "- cmp y z \<le> 0"
  with \<open>x \<in> A\<close> \<open>y \<in> A\<close> have "cmp y x \<le> 0" and "cmp z y \<le> 0"
    using skew [of x y] skew [of y z] by linarith+
  with \<open>x \<in> A\<close> \<open>y \<in> A\<close> \<open>z \<in> A\<close> have "cmp z x \<le> 0" using transitive [of z y x] by blast
  with \<open>x \<in> A\<close> \<open>z \<in> A\<close> show "- cmp x z \<le> 0" using skew [of x z] by linarith
qed

lemma pulled_back: "f ` B \<subseteq> A \<Longrightarrow> comparator_on B (\<lambda>x y. cmp (f x) (f y))"
  by unfold_locales (auto simp: image_subset_iff intro: skew [THEN iffD1] skew [THEN iffD2] transitive)

end

section \<open>Comparators from keys, and their lexicographic composition\<close>

interpretation difference: comparator_on UNIV "\<lambda>x y :: rat. x - y"
  by unfold_locales auto

text \<open>\<open>c1(a, b) || c2(a, b)\<close>: the second comparator decides where the first is zero.\<close>

definition or_else :: "('a \<Rightarrow> 'a \<Rightarrow> rat) \<Rightarrow> ('a \<Rightarrow> 'a \<Rightarrow> rat) \<Rightarrow> 'a \<Rightarrow> 'a \<Rightarrow> rat" where
  "or_else c1 c2 x y = (if c1 x y \<noteq> 0 then c1 x y else c2 x y)"

lemma comparator_or_else:
  assumes "comparator_on A c1" and "comparator_on A c2"
  shows "comparator_on A (or_else c1 c2)"
proof -
  note c1 = comparator_on.skew [OF assms(1)] comparator_on.flip_zero [OF assms(1)]
    and c2 = comparator_on.skew [OF assms(2)]
  show ?thesis
  proof unfold_locales
    fix x y
    assume "x \<in> A" and "y \<in> A"
    then show "or_else c1 c2 x y < 0 \<longleftrightarrow> 0 < or_else c1 c2 y x"
      using c1 [of x y] c2 [of x y] by (auto simp: or_else_def)
  next
    fix x y z
    assume A: "x \<in> A" "y \<in> A" "z \<in> A"
      and xy: "or_else c1 c2 x y \<le> 0" and yz: "or_else c1 c2 y z \<le> 0"
    from xy yz have le: "c1 x y \<le> 0" "c1 y z \<le> 0" by (auto simp: or_else_def split: if_splits)
    then have xz: "c1 x z \<le> 0" by (rule comparator_on.transitive [OF assms(1) A])
    show "or_else c1 c2 x z \<le> 0"
    proof (cases "c1 x z = 0")
      case True
      have "c1 z x \<le> 0" using True A comparator_on.flip_zero [OF assms(1), of x z] by simp
      then have "c1 y x \<le> 0" "c1 z y \<le> 0"
        using A le comparator_on.transitive [OF assms(1)] by blast+
      then have "c1 x y = 0" "c1 y z = 0"
        using A le comparator_on.both_le [OF assms(1)] by blast+
      with True xy yz A show ?thesis
        by (auto simp: or_else_def intro: comparator_on.transitive [OF assms(2), of x y z])
    next
      case False
      with xz show ?thesis by (simp add: or_else_def)
    qed
  qed
qed

end
