(* ===== verification/ServiceProcessLink.thy ===== *)
theory ServiceProcessLink
  imports ApiTypes JsSort
begin

text \<open>
  \<open>src/lib/serviceProcessLink.ts\<close>: the score of a service against a process, and the
  ranked, truncated lists of matches shown on the detail panels. The regular
  expressions become character filters and a suffix test; \<open>score_comparator\<close> and
  its tie-breaking by CPU are interpreted as comparators, so that the rankings
  inherit the lemmas on \<open>sort\<close>.
\<close>

section \<open>Tokens\<close>

definition is_lower_alnum :: "char \<Rightarrow> bool" where
  "is_lower_alnum c =
     (let n = char_code c in (97 \<le> n \<and> n \<le> 122) \<or> (48 \<le> n \<and> n \<le> 57))"

definition normalizeToken :: "string \<Rightarrow> string" where
  "normalizeToken v = filter is_lower_alnum (to_lower v)"

text \<open>\<open>replace(/\.(e1|...|en)$/i, '')\<close>: the suffixes are given with their dot.\<close>

definition strip_suffix :: "string list \<Rightarrow> string \<Rightarrow> string" where
  "strip_suffix sufs s =
     (case find (\<lambda>e. ends_with (to_lower s) e) sufs of
        None \<Rightarrow> s
      | Some e \<Rightarrow> take (length s - length e) s)"

definition domain_sep :: "char \<Rightarrow> bool" where
  "domain_sep c = (c = CHR ''.'' \<or> c = CHR ''/'')"

definition serviceDomainPath :: "string \<Rightarrow> string list" where
  "serviceDomainPath name = non_empty (split_on domain_sep name)"

record service_tokens =
  st_full :: string
  st_parts :: "string list"
  st_leaf :: string
  st_leafNorm :: string

definition serviceTokens :: "string \<Rightarrow> service_tokens" where
  "serviceTokens name =
     (let full = to_lower name;
          parts = non_empty (split_on domain_sep full);
          leaf0 = (if parts = [] then full else last parts);
          leaf = strip_suffix [''.service''] leaf0
      in \<lparr> st_full = full, st_parts = parts, st_leaf = leaf, st_leafNorm = normalizeToken leaf \<rparr>)"

record process_tokens =
  pt_cmd :: string
  pt_base :: string
  pt_baseNorm :: string

text \<open>\<open>cmd.split(/\s+/)[0]\<close> is what precedes the first white space.\<close>

definition processTokens :: "process_info \<Rightarrow> process_tokens" where
  "processTokens proc =
     (let cmd = to_lower (command proc);
          base = last (split_on (\<lambda>c. c = CHR ''/'') (takeWhile (\<lambda>c. \<not> is_space c) cmd));
          baseClean = strip_suffix [''.exe'', ''.jar'', ''.app''] base
      in \<lparr> pt_cmd = cmd, pt_base = baseClean, pt_baseNorm = normalizeToken baseClean \<rparr>)"

section \<open>Scores\<close>

definition segment_matches :: "process_tokens \<Rightarrow> string \<Rightarrow> bool" where
  "segment_matches pt seg =
     (let segNorm = normalizeToken seg
      in 4 \<le> length segNorm \<and> (contains (pt_baseNorm pt) segNorm \<or> contains (pt_cmd pt) seg))"

definition scoreServiceProcess :: "service_info \<Rightarrow> process_info \<Rightarrow> int" where
  "scoreServiceProcess service proc =
     (if serviceName service = [] then 0 else
      let st = serviceTokens (serviceName service); pt = processTokens proc in
      if st_leafNorm st = [] \<or> pt_baseNorm pt = [] then 0
      else if pt_baseNorm pt = st_leafNorm st then 100
      else if contains (pt_cmd pt) (st_full st) then 90
      else if contains (pt_baseNorm pt) (st_leafNorm st) \<or> contains (st_leafNorm st) (pt_baseNorm pt)
      then 75
      else if list_ex (segment_matches pt) (st_parts st) then 65
      else 0)"

section \<open>Rankings\<close>

record process_match =
  m_proc :: process_info
  m_proc_score :: int
  m_proc_likely :: bool

record service_match =
  m_service :: service_info
  m_service_score :: int
  m_service_likely :: bool

definition score_comparator :: "'a \<times> int \<Rightarrow> 'a \<times> int \<Rightarrow> rat" where
  "score_comparator a b = of_int (snd b - snd a)"

definition cpu_comparator :: "process_info \<times> int \<Rightarrow> process_info \<times> int \<Rightarrow> rat" where
  "cpu_comparator a b = cpuUsage (fst b) - cpuUsage (fst a)"

definition findProcessesForService ::
  "service_info \<Rightarrow> process_info list \<Rightarrow> int \<Rightarrow> int \<Rightarrow> process_match list" where
  "findProcessesForService service processes limit minScore =
     map (\<lambda>(proc, score).
         \<lparr> m_proc = proc, m_proc_score = score, m_proc_likely = (score < 85) \<rparr>)
       (take_slice limit
         (js_sort (or_else score_comparator cpu_comparator)
           (filter (\<lambda>e. minScore \<le> snd e)
             (map (\<lambda>proc. (proc, scoreServiceProcess service proc)) processes))))"

definition findServicesForProcess ::
  "process_info \<Rightarrow> service_info list \<Rightarrow> int \<Rightarrow> int \<Rightarrow> service_match list" where
  "findServicesForProcess proc services limit minScore =
     map (\<lambda>(service, score).
         \<lparr> m_service = service, m_service_score = score, m_service_likely = (score < 85) \<rparr>)
       (take_slice limit
         (js_sort score_comparator
           (filter (\<lambda>e. minScore \<le> snd e)
             (map (\<lambda>service. (service, scoreServiceProcess service proc)) services))))"

text \<open>The default options: \<open>{ limit = 20, minScore = 55 }\<close> and \<open>{ limit = 15, ... }\<close>.\<close>

abbreviation related_processes :: "service_info \<Rightarrow> process_info list \<Rightarrow> process_match list" where
  "related_processes service processes \<equiv> findProcessesForService service processes 20 55"

abbreviation related_services :: "process_info \<Rightarrow> service_info list \<Rightarrow> service_match list" where
  "related_services proc services \<equiv> findServicesForProcess proc services 15 55"

section \<open>Facts\<close>

interpretation score_order: comparator_on UNIV score_comparator
  by unfold_locales (auto simp: score_comparator_def)

interpretation cpu_order: comparator_on UNIV cpu_comparator
  by unfold_locales (auto simp: cpu_comparator_def)

interpretation rank_order: comparator_on UNIV "or_else score_comparator cpu_comparator"
  by (rule comparator_or_else) (rule score_order.comparator_on_axioms cpu_order.comparator_on_axioms)+

lemma rank_le_iff:
  "or_else score_comparator cpu_comparator a b \<le> 0 \<longleftrightarrow>
     snd b < snd a \<or> (snd b = snd a \<and> cpuUsage (fst b) \<le> cpuUsage (fst a))"
  by (auto simp: or_else_def score_comparator_def cpu_comparator_def)

text \<open>The pairs a ranking starts from.\<close>

definition candidates :: "('a \<Rightarrow> int) \<Rightarrow> int \<Rightarrow> 'a list \<Rightarrow> ('a \<times> int) list" where
  "candidates score minScore xs = filter (\<lambda>e. minScore \<le> snd e) (map (\<lambda>x. (x, score x)) xs)"

lemma in_candidates: "e \<in> set (candidates score m xs) \<longleftrightarrow>
    fst e \<in> set xs \<and> snd e = score (fst e) \<and> m \<le> snd e"
  by (cases e) (auto simp: candidates_def)

lemma findProcesses_eq:
  "findProcessesForService service processes limit m =
     map (\<lambda>(proc, score). \<lparr> m_proc = proc, m_proc_score = score, m_proc_likely = (score < 85) \<rparr>)
       (take_slice limit (js_sort (or_else score_comparator cpu_comparator)
         (candidates (scoreServiceProcess service) m processes)))"
  by (simp add: findProcessesForService_def candidates_def)

lemma findServices_eq:
  "findServicesForProcess proc services limit m =
     map (\<lambda>(service, score).
         \<lparr> m_service = service, m_service_score = score, m_service_likely = (score < 85) \<rparr>)
       (take_slice limit (js_sort score_comparator
         (candidates (\<lambda>service. scoreServiceProcess service proc) m services)))"
  by (simp add: findServicesForProcess_def candidates_def)

lemma length_candidates_le: "length (candidates score m xs) \<le> length xs"
  unfolding candidates_def by (metis length_filter_le length_map)

lemma take_slice_candidates:
  "length xs \<le> nat n \<Longrightarrow> 0 \<le> n \<Longrightarrow>
     take_slice n (js_sort cmp (candidates f m xs)) = js_sort cmp (candidates f m xs)"
  using length_candidates_le [of f m xs] by (simp add: take_slice_nonneg)

lemma unit_file_tokens:
  "st_leafNorm (serviceTokens (x @ ''.service'')) = ''service''"
proof -
  have low: "to_lower ''.service'' = ''.service''" by code_simp
  have "split_on domain_sep (to_lower (x @ ''.service'')) =
      split_on domain_sep (to_lower x) @ split_on domain_sep ''service''"
    using split_on_append_sep [of domain_sep "CHR ''.''" "to_lower x" "''service''"]
    by (simp only: to_lower_append low domain_sep_def simp_thms append_Cons append_Nil)
  also have "split_on domain_sep ''service'' = [''service'']" by code_simp
  finally have "non_empty (split_on domain_sep (to_lower (x @ ''.service''))) =
      non_empty (split_on domain_sep (to_lower x)) @ [''service'']"
    by (simp add: non_empty_def)
  then have "st_leafNorm (serviceTokens (x @ ''.service'')) =
      normalizeToken (strip_suffix [''.service''] ''service'')"
    by (simp add: serviceTokens_def Let_def)
  also have "\<dots> = ''service''" by code_simp
  finally show ?thesis .
qed

section \<open>Properties\<close>

text \<open>C17: the related processes of a service are ranked by score, then by CPU use; each
  is a listed process with its score, which reaches the minimum, and is marked likely
  exactly below 85; the list is as long as the limit allows, and every candidate left
  out ranks after every process shown.\<close>

theorem findProcessesForService_ranked:
  assumes "0 \<le> limit"
  shows "let r = findProcessesForService service processes limit minScore;
             cs = candidates (scoreServiceProcess service) minScore processes in
    sorted_wrt (\<lambda>a b. m_proc_score b < m_proc_score a \<or>
      (m_proc_score b = m_proc_score a \<and> cpuUsage (m_proc b) \<le> cpuUsage (m_proc a))) r \<and>
    length r = min (nat limit) (length cs) \<and>
    (\<forall>e\<in>set r. m_proc e \<in> set processes \<and> m_proc_score e = scoreServiceProcess service (m_proc e) \<and>
      minScore \<le> m_proc_score e \<and> m_proc_likely e = (m_proc_score e < 85)) \<and>
    (\<exists>left. mset cs = mset (map (\<lambda>e. (m_proc e, m_proc_score e)) r) + mset left \<and>
      (\<forall>c\<in>set left. \<forall>e\<in>set r. snd c < m_proc_score e \<or>
        (snd c = m_proc_score e \<and> cpuUsage (fst c) \<le> cpuUsage (m_proc e))))"
proof -
  define cs where "cs = candidates (scoreServiceProcess service) minScore processes"
  define ss where "ss = js_sort (or_else score_comparator cpu_comparator) cs"
  let ?n = "nat limit"
  let ?f = "\<lambda>(proc, score). \<lparr> m_proc = proc, m_proc_score = score, m_proc_likely = (score < 85) \<rparr>"
  have r: "findProcessesForService service processes limit minScore = map ?f (take ?n ss)"
    using assms by (simp add: findProcesses_eq take_slice_nonneg cs_def ss_def)
  have sorted: "sorted_wrt (\<lambda>a b. or_else score_comparator cpu_comparator a b \<le> 0) (take ?n ss @ drop ?n ss)"
    using rank_order.sorted_js_sort [of cs] by (simp add: sorted_by_def ss_def)
  have mset: "mset cs = mset (take ?n ss) + mset (drop ?n ss)"
    by (metis append_take_drop_id mset_append mset_js_sort ss_def)
  have in_cs: "set (take ?n ss) \<subseteq> set cs"
    by (metis set_js_sort set_take_subset ss_def)
  have pairs: "map (\<lambda>e. (m_proc e, m_proc_score e)) (map ?f xs) = xs" for xs
    by (induction xs) auto
  have "sorted_wrt (\<lambda>a b. m_proc_score b < m_proc_score a \<or>
      (m_proc_score b = m_proc_score a \<and> cpuUsage (m_proc b) \<le> cpuUsage (m_proc a))) (map ?f (take ?n ss))"
    using sorted unfolding sorted_wrt_append rank_le_iff
    by (auto simp: sorted_wrt_map_iff case_prod_beta elim: sorted_wrt_mono_rel [rotated])
  moreover have "length (map ?f (take ?n ss)) = min ?n (length cs)"
    by (simp add: ss_def min.commute)
  moreover have "\<forall>e\<in>set (map ?f (take ?n ss)). m_proc e \<in> set processes \<and>
      m_proc_score e = scoreServiceProcess service (m_proc e) \<and>
      minScore \<le> m_proc_score e \<and> m_proc_likely e = (m_proc_score e < 85)"
    using in_cs by (auto simp: cs_def in_candidates)
  moreover have "mset cs = mset (map (\<lambda>e. (m_proc e, m_proc_score e)) (map ?f (take ?n ss))) + mset (drop ?n ss)"
    by (simp only: pairs mset)
  moreover have "\<forall>c\<in>set (drop ?n ss). \<forall>e\<in>set (map ?f (take ?n ss)). snd c < m_proc_score e \<or>
      (snd c = m_proc_score e \<and> cpuUsage (fst c) \<le> cpuUsage (m_proc e))"
    using sorted unfolding sorted_wrt_append rank_le_iff by fastforce
  ultimately show ?thesis unfolding r Let_def cs_def [symmetric] by blast
qed

text \<open>C39: the two panels agree: when neither list is cut off, the panel of the service has an
  entry for a process with a score and a mark exactly when the panel of the process has one
  for the service with the same score and the same mark; the score is that of the pair, at
  least the minimum, and the mark says whether it is below 85.\<close>

theorem related_symmetric:
  assumes "length processes \<le> 20" and "length services \<le> 15"
    and "proc \<in> set processes" and "service \<in> set services"
  shows "(\<lparr> m_proc = proc, m_proc_score = k, m_proc_likely = likely \<rparr>
      \<in> set (related_processes service processes) \<longleftrightarrow>
    \<lparr> m_service = service, m_service_score = k, m_service_likely = likely \<rparr>
      \<in> set (related_services proc services)) \<and>
    (\<lparr> m_service = service, m_service_score = k, m_service_likely = likely \<rparr>
      \<in> set (related_services proc services) \<longleftrightarrow>
    k = scoreServiceProcess service proc \<and> 55 \<le> k \<and> likely = (k < 85))"
proof -
  have "\<lparr> m_proc = proc, m_proc_score = k, m_proc_likely = likely \<rparr> \<in> set (related_processes service processes) \<longleftrightarrow>
      k = scoreServiceProcess service proc \<and> 55 \<le> k \<and> likely = (k < 85)"
    using assms(1,3) by (auto simp: findProcesses_eq take_slice_candidates in_candidates image_iff Bex_def split_beta)
  moreover have "\<lparr> m_service = service, m_service_score = k, m_service_likely = likely \<rparr> \<in> set (related_services proc services) \<longleftrightarrow>
      k = scoreServiceProcess service proc \<and> 55 \<le> k \<and> likely = (k < 85)"
    using assms(2,4) by (auto simp: findServices_eq take_slice_candidates in_candidates image_iff Bex_def split_beta)
  ultimately show ?thesis by blast
qed

text \<open>The \<open>.service\<close> suffix of a systemd unit is never stripped, because the name is
  split at its dots first: whatever the unit is called, its leaf is the word
  \<open>service\<close>, so the exact-match score 100 goes to the processes called \<open>service\<close>
  and to no other.\<close>

lemma unit_file_exact_match:
  assumes "serviceName u = x @ ''.service''"
  shows "scoreServiceProcess u proc = 100 \<longleftrightarrow> pt_baseNorm (processTokens proc) = ''service''"
  using unit_file_tokens [of x] assms
  by (auto simp: scoreServiceProcess_def Let_def)

definition sample_service :: "string \<Rightarrow> service_info" where
  "sample_service n = \<lparr> serviceName = n, s_status = ''RUNNING'', description = [] \<rparr>"

definition sample_process :: "int \<Rightarrow> rat \<Rightarrow> string \<Rightarrow> process_info" where
  "sample_process i cpu c =
     \<lparr> p_user = ''root'', pid = i, cpuUsage = cpu, memoryUsage = 0, command = c \<rparr>"

theorem findProcessesForService_ranked_witness:
  "length (findProcessesForService (sample_service ''com.acme.nginx'')
      [sample_process 1 2 ''/usr/bin/nginx'', sample_process 2 5 ''nginx -g''] 1 55) =
    min (nat 1) (length (candidates (scoreServiceProcess (sample_service ''com.acme.nginx'')) 55
      [sample_process 1 2 ''/usr/bin/nginx'', sample_process 2 5 ''nginx -g'']))"
  using findProcessesForService_ranked [OF zero_le_one, of "sample_service ''com.acme.nginx''"
      "[sample_process 1 2 ''/usr/bin/nginx'', sample_process 2 5 ''nginx -g'']" 55]
  unfolding Let_def by (elim conjE)

theorem related_symmetric_witness:
  "\<lparr> m_proc = sample_process 1 2 ''nginx'', m_proc_score = 100, m_proc_likely = False \<rparr>
      \<in> set (related_processes (sample_service ''com.acme.nginx'') [sample_process 1 2 ''nginx'']) \<and>
   \<lparr> m_service = sample_service ''com.acme.nginx'', m_service_score = 100, m_service_likely = False \<rparr>
      \<in> set (related_services (sample_process 1 2 ''nginx'') [sample_service ''com.acme.nginx''])"
proof -
  have "scoreServiceProcess (sample_service ''com.acme.nginx'') (sample_process 1 2 ''nginx'') = 100" by code_simp
  then show ?thesis
    using related_symmetric [of "[sample_process 1 2 ''nginx'']" "[sample_service ''com.acme.nginx'']"
        "sample_process 1 2 ''nginx''" "sample_service ''com.acme.nginx''" 100 False] by simp
qed

lemma unit_file_exact_match_witness:
  "scoreServiceProcess (sample_service ''nginx.service'') (sample_process 1 2 ''/usr/sbin/nginx'') \<noteq> 100"
  using unit_file_exact_match [of "sample_service ''nginx.service''" "''nginx''"
      "sample_process 1 2 ''/usr/sbin/nginx''"]
  by (simp add: sample_service_def) code_simp

end
