(* ===== verification/JsStore.thy ===== *)
theory JsStore
  imports JsString
begin

text \<open>
  The keyed stores of the frontend: a JavaScript \<open>Map\<close>, which lists its entries in
  the order of their first insertion, and the spread update \<open>{ ...e, [k]: v }\<close> of a
  record. The locale \<open>keyed_store\<close> is what the code relies on: a key that was
  just stored is found, every other key is as before. \<open>ordered_store\<close> adds the
  order of the keys. Query parameters (\<open>JsUrl\<close>) are a further instance.
\<close>

section \<open>The interfaces\<close>

locale keyed_store =
  fixes get :: "'s \<Rightarrow> 'k \<Rightarrow> 'v option"
    and put :: "'s \<Rightarrow> 'k \<Rightarrow> 'v \<Rightarrow> 's"
  assumes get_put_same: "get (put s k v) k = Some v"
    and get_put_other: "k' \<noteq> k \<Longrightarrow> get (put s k v) k' = get s k'"
begin

lemma get_put: "get (put s k v) = (get s)(k \<mapsto> v)"
  by (auto simp: fun_eq_iff get_put_same get_put_other)

lemma get_put_put_same: "get (put (put s k v) k w) = get (put s k w)"
  by (simp add: get_put)

lemma get_put_swap: "k \<noteq> k' \<Longrightarrow> get (put (put s k v) k' w) = get (put (put s k' w) k v)"
  by (auto simp: get_put)

lemma put_keeps_key: "get s k' \<noteq> None \<Longrightarrow> get (put s k v) k' \<noteq> None"
  by (simp add: get_put)

end

locale ordered_store = keyed_store get put
  for get :: "'s \<Rightarrow> 'k \<Rightarrow> 'v option" and put :: "'s \<Rightarrow> 'k \<Rightarrow> 'v \<Rightarrow> 's" +
  fixes keys :: "'s \<Rightarrow> 'k list"
  assumes keys_get: "k \<in> set (keys s) \<longleftrightarrow> get s k \<noteq> None"
    and keys_put: "keys (put s k v) = (if k \<in> set (keys s) then keys s else keys s @ [k])"
begin

lemma distinct_keys_put: "distinct (keys s) \<Longrightarrow> distinct (keys (put s k v))"
  by (simp add: keys_put)

lemma set_keys_put: "set (keys (put s k v)) = insert k (set (keys s))"
  by (auto simp: keys_put)

lemma keys_put_known: "get s k \<noteq> None \<Longrightarrow> keys (put s k v) = keys s"
  by (simp add: keys_put keys_get)

end

section \<open>JavaScript maps\<close>

text \<open>\<open>Map.prototype.set\<close> overwrites in place or appends.\<close>

fun map_set :: "('k \<times> 'v) list \<Rightarrow> 'k \<Rightarrow> 'v \<Rightarrow> ('k \<times> 'v) list" where
  "map_set [] k v = [(k, v)]"
| "map_set ((k', v') # m) k v =
     (if k' = k then (k, v) # m else (k', v') # map_set m k v)"

abbreviation map_get :: "('k \<times> 'v) list \<Rightarrow> 'k \<Rightarrow> 'v option" where
  "map_get \<equiv> map_of"

definition map_has :: "('k \<times> 'v) list \<Rightarrow> 'k \<Rightarrow> bool" where
  "map_has m k = (map_get m k \<noteq> None)"

definition map_keys :: "('k \<times> 'v) list \<Rightarrow> 'k list" where
  "map_keys m = map fst m"

definition map_values :: "('k \<times> 'v) list \<Rightarrow> 'v list" where
  "map_values m = map snd m"

interpretation jsmap: ordered_store map_get map_set map_keys
proof unfold_locales
  fix m :: "('k \<times> 'v) list" and k k' :: 'k and v :: 'v
  show "map_get (map_set m k v) k = Some v"
    by (induction m k v rule: map_set.induct) auto
  show "k' \<noteq> k \<Longrightarrow> map_get (map_set m k v) k' = map_get m k'"
    by (induction m k v rule: map_set.induct) auto
  show "k \<in> set (map_keys m) \<longleftrightarrow> map_get m k \<noteq> None"
    by (auto simp: map_keys_def map_of_eq_None_iff)
  show "map_keys (map_set m k v) = (if k \<in> set (map_keys m) then map_keys m else map_keys m @ [k])"
    by (induction m k v rule: map_set.induct) (auto simp: map_keys_def)
qed

lemma set_map_set_subset: "set (map_set m k v) \<subseteq> insert (k, v) (set m)"
  by (induction m k v rule: map_set.induct) auto

lemma map_set_new: "k \<notin> set (map_keys m) \<Longrightarrow> map_set m k v = m @ [(k, v)]"
  by (induction m k v rule: map_set.induct) (auto simp: map_keys_def)

lemma map_set_split:
  "k \<in> set (map_keys m) \<Longrightarrow>
     \<exists>p v' q. m = p @ (k, v') # q \<and> k \<notin> set (map_keys p) \<and> map_set m k v = p @ (k, v) # q"
proof (induction m k v rule: map_set.induct)
  case (2 k' v' m k v)
  show ?case
  proof (cases "k' = k")
    case True
    then show ?thesis by (intro exI [of _ "[]"]) (simp add: map_keys_def)
  next
    case False
    with 2 obtain p v'' q where "m = p @ (k, v'') # q" "k \<notin> set (map_keys p)"
      "map_set m k v = p @ (k, v) # q" by (auto simp: map_keys_def)
    with False show ?thesis
      by (intro exI [of _ "(k', v') # p"] exI) (simp add: map_keys_def)
  qed
qed (simp add: map_keys_def)

lemma map_get_values: "distinct (map_keys m) \<Longrightarrow> (k, v) \<in> set m \<longleftrightarrow> map_get m k = Some v"
  by (simp add: map_keys_def)

section \<open>Spread updates of a record\<close>

text \<open>\<open>{ ...e, [k]: v }\<close> on a \<open>Record<string, boolean>\<close>.\<close>

definition spread_put :: "('k \<Rightarrow> 'v option) \<Rightarrow> 'k \<Rightarrow> 'v \<Rightarrow> ('k \<Rightarrow> 'v option)" where
  "spread_put e k v = e(k \<mapsto> v)"

interpretation spread: keyed_store "\<lambda>e. e" spread_put
  by unfold_locales (auto simp: spread_put_def)

end
