(* ===== verification/Layout.thy ===== *)
theory Layout
  imports AgentStatus
begin

text \<open>
  The layout components, \<open>src/components/layout/\<close>, \<open>DefinitionList.tsx\<close>,
  \<open>EmptyState.tsx\<close>, \<open>ErrorBanner.tsx\<close> and \<open>StatusPill.tsx\<close>, as the elements they
  return. An element has a tag, its attributes and its children; \<open>Slot\<close> is content that
  the caller passed, \<open>Plain\<close> is text. A \<open>ref\<close> is the attribute \<open>ref\<close>. \<open>slots\<close> collects the
  passed content in the order of the document and \<open>ref_target\<close> finds what a \<open>ref\<close>
  points to.
\<close>

section \<open>Elements\<close>

datatype 'a markup =
    Element (tag: string) (attributes: "(string \<times> string) list") (elements: "'a markup list")
  | Slot 'a
  | Plain string

definition div_of :: "string \<Rightarrow> 'a markup list \<Rightarrow> 'a markup" where
  "div_of cls xs = Element ''div'' [(''className'', cls)] xs"

definition ref_div :: "string \<Rightarrow> 'a markup list \<Rightarrow> 'a markup" where
  "ref_div cls xs = Element ''div'' [(''ref'', ''detailRef''), (''className'', cls)] xs"

fun slots :: "'a markup \<Rightarrow> 'a list" where
  "slots (Element t as xs) = concat (map slots xs)"
| "slots (Slot a) = [a]"
| "slots (Plain s) = []"

fun raw_text :: "'a markup \<Rightarrow> string" where
  "raw_text (Element t as xs) = concat (map raw_text xs)"
| "raw_text (Slot a) = []"
| "raw_text (Plain s) = s"

fun refs_of :: "'a markup \<Rightarrow> 'a markup list" where
  "refs_of (Element t as xs) =
     (if map_of as ''ref'' \<noteq> None then [Element t as xs] else []) @ concat (map refs_of xs)"
| "refs_of (Slot a) = []"
| "refs_of (Plain s) = []"

definition ref_target :: "'a markup \<Rightarrow> 'a markup option" where
  "ref_target m = (case refs_of m of [] \<Rightarrow> None | x # _ \<Rightarrow> Some x)"

section \<open>Layouts\<close>

datatype surface = Page_Surface | ContainerDetail_Surface

datatype master_ratio = Ratio_60_40 | Ratio_55_45

fun ratioClass :: "master_ratio \<Rightarrow> string" where
  "ratioClass Ratio_60_40 = ''lg:grid-cols-[minmax(0,3fr)_minmax(0,2fr)]''"
| "ratioClass Ratio_55_45 = ''lg:grid-cols-[minmax(0,55%)_minmax(0,45%)]''"

definition masterDetailLayout :: "surface \<Rightarrow> master_ratio \<Rightarrow> 'a \<Rightarrow> 'a \<Rightarrow> 'a markup" where
  "masterDetailLayout surface ratio master detail =
     (if surface = ContainerDetail_Surface
      then div_of ''flex flex-col gap-3 min-h-0 min-w-0 h-full''
        [div_of ''panel overflow-hidden flex flex-col min-w-0 max-h-[min(42vh,360px)] shrink-0''
           [Slot master],
         ref_div ''flex-1 min-h-0 min-w-0 overflow-hidden'' [Slot detail]]
      else div_of (''grid grid-cols-1 '' @ ratioClass ratio @
          '' gap-4 h-full min-h-0 min-w-0 overflow-hidden lg:items-stretch'')
        [div_of ''panel overflow-hidden flex flex-col min-h-0 min-w-0 h-full max-h-full max-lg:min-h-[280px]''
           [Slot master],
         ref_div (''min-h-0 min-w-0 h-full max-h-full overflow-hidden flex flex-col '' @
             ''max-lg:min-h-[280px] [&>*]:h-full [&>*]:min-h-0'') [Slot detail]])"

datatype page_variant = Scroll_Variant | Workbench_Variant

definition pageShell :: "'a option \<Rightarrow> page_variant \<Rightarrow> 'a list \<Rightarrow> 'a markup" where
  "pageShell title variant xs =
     (let heading = (\<lambda>cls. case title of
            None \<Rightarrow> [] | Some h \<Rightarrow> [Element ''h1'' [(''className'', cls)] [Slot h]])
      in if variant = Workbench_Variant
         then div_of ''flex flex-col h-full min-h-0 gap-4''
           (heading ''text-2xl font-semibold shrink-0'' @ [div_of ''flex-1 min-h-0'' (map Slot xs)])
         else div_of ''h-full min-h-0 overflow-y-auto''
           [div_of ''space-y-6'' (heading ''text-2xl font-semibold'' @ map Slot xs)])"

definition scrollPane :: "string \<Rightarrow> 'a list \<Rightarrow> 'a markup" where
  "scrollPane cls xs =
     div_of (''flex-1 min-h-0 overflow-y-auto overflow-x-hidden scroll-pane pb-3 '' @ cls) (map Slot xs)"

section \<open>Small displays\<close>

text \<open>An item is monospaced unless it says otherwise.\<close>

record 'a definition_item =
  di_label :: string
  di_value :: 'a
  di_mono :: "bool option"

definition definitionList :: "'a definition_item list \<Rightarrow> 'a markup" where
  "definitionList items =
     Element ''dl'' [(''className'', ''grid grid-cols-1 sm:grid-cols-2 gap-3 text-sm'')]
       (map (\<lambda>i. Element ''div'' [(''key'', di_label i)]
          [Element ''dt'' [(''className'', ''text-on-surface-variant text-sm mb-0.5'')] [Plain (di_label i)],
           Element ''dd'' [(''className'', if di_mono i \<noteq> Some False then ''mono break-all'' else ''break-all'')]
             [Slot (di_value i)]]) items)"

definition emptyState :: "string \<Rightarrow> 'a markup" where
  "emptyState message =
     div_of ''panel p-8 text-center text-on-surface-variant text-sm'' [Plain message]"

definition errorBanner :: "string \<Rightarrow> 'a markup" where
  "errorBanner message =
     Element ''div''
       [(''className'', ''rounded-lg border border-error/40 bg-error/10 text-error px-4 py-3 text-sm''),
        (''role'', ''alert'')] [Plain message]"

fun pill_colors :: "tone \<Rightarrow> string" where
  "pill_colors Success = ''bg-tertiary/20 text-tertiary border-tertiary/40''"
| "pill_colors Warning = ''bg-yellow-500/20 text-yellow-300 border-yellow-500/40''"
| "pill_colors Error_Tone = ''bg-error/20 text-error border-error/40''"
| "pill_colors Neutral = ''bg-surface-highest text-on-surface-variant border-outline-variant''"

definition statusPill :: "string \<Rightarrow> tone \<Rightarrow> bool \<Rightarrow> 'a markup" where
  "statusPill label tone pulse =
     Element ''span''
       [(''className'', ''inline-flex items-center gap-1.5 px-2.5 py-0.5 rounded-full border text-xs font-medium '' @
           pill_colors tone)]
       [Element ''span''
          [(''className'', ''w-2 h-2 rounded-full bg-current opacity-80 '' @
              (if pulse then ''status-breath'' else []))] [],
        Plain label]"

section \<open>Facts\<close>

lemmas layout_defs = div_of_def ref_div_def masterDetailLayout_def pageShell_def scrollPane_def

lemma concat_slots [simp]: "concat (map slots (map Slot xs)) = xs"
  by (induction xs) simp_all

lemma concat_slots_comp [simp]: "concat (map (slots \<circ> Slot) xs) = xs"
  by (induction xs) simp_all

text \<open>Both panes are there once, in this order, and the reference is the pane of the detail.\<close>

lemma masterDetailLayout_panes:
  "slots (masterDetailLayout surface ratio m d) = [m, d]"
  "\<exists>x. ref_target (masterDetailLayout surface ratio m d) = Some x \<and> slots x = [d]"
  by (simp_all add: layout_defs ref_target_def)

lemma pageShell_slots: "slots (pageShell title variant xs) = (case title of None \<Rightarrow> [] | Some h \<Rightarrow> [h]) @ xs"
  by (simp add: layout_defs Let_def split: option.split)

lemma scrollPane_slots: "slots (scrollPane cls xs) = xs"
  by (simp add: layout_defs)

lemma messages_shown: "raw_text (emptyState m) = m" "raw_text (errorBanner m) = m"
  "raw_text (statusPill m tone pulse) = m"
  by (simp_all add: emptyState_def errorBanner_def statusPill_def layout_defs)

lemma definitionList_slots: "slots (definitionList items) = map di_value items"
  by (induction items) (simp_all add: definitionList_def)

text \<open>No two tones look the same.\<close>

lemma pill_colors_inject: "pill_colors a = pill_colors b \<longleftrightarrow> a = b"
  by (cases a; cases b) simp_all

end
