(* ===== verification/ServiceTree.thy ===== *)
theory ServiceTree
  imports ServiceProcessLink JsStore Layout
begin

text \<open>
  \<open>src/components/ServiceSplitView.tsx\<close>: the services of a host as a tree by the parts
  of their names, or as a list. The tree that the code builds by mutation is a datatype
  whose children are a \<open>Map\<close>; a row of the view is a branch or a service. \<open>collate\<close>
  stands for \<open>localeCompare\<close>. The state of the open branches is a plain object of the
  code, here a map without the names that objects inherit.
\<close>

section \<open>The tree\<close>

datatype tree_node =
  Node (node_name: string) (fullPath: string) (children: "(string \<times> tree_node) list")
    (node_services: "service_info list")

definition empty_root :: tree_node where
  "empty_root = Node [] [] [] []"

definition sub_path :: "string \<Rightarrow> string \<Rightarrow> string" where
  "sub_path path part = (if path \<noteq> [] then path @ ''.'' @ part else part)"

text \<open>The loop of \<open>insertService\<close> from one node on, with the remaining parts.\<close>

fun insert_at :: "tree_node \<Rightarrow> string \<Rightarrow> string list \<Rightarrow> service_info \<Rightarrow> tree_node" where
  "insert_at (Node n p cs ss) path [] s = Node n p cs (ss @ [s])"
| "insert_at (Node n p cs ss) path (part # parts) s =
     (let path' = sub_path path part;
          child = (case map_get cs part of None \<Rightarrow> Node part path' [] [] | Some c \<Rightarrow> c)
      in Node n p (map_set cs part (insert_at child path' parts s)) ss)"

definition insertService :: "tree_node \<Rightarrow> service_info \<Rightarrow> tree_node" where
  "insertService r s = insert_at r [] (serviceDomainPath (serviceName s)) s"

definition service_tree :: "service_info list \<Rightarrow> tree_node" where
  "service_tree services = foldl insertService empty_root services"

definition serviceLeafName :: "string \<Rightarrow> string" where
  "serviceLeafName name =
     (let parts = serviceDomainPath name in if parts = [] then name else last parts)"

definition serviceStatusTone :: "string \<Rightarrow> tone" where
  "serviceStatusTone s =
     (if s = ''RUNNING'' then Success else if s = ''ERROR'' then Error_Tone else Neutral)"

section \<open>The rows\<close>

type_synonym expanded = "string \<Rightarrow> bool option"

datatype row =
    is_branch: Branch_Row (branch_path: string) (branch_name: string) (branch_depth: nat) (branch_open: bool)
  | Service_Row (row_service: service_info) (row_depth: nat) (row_label: string) (row_tone: tone)

definition service_row :: "service_info \<Rightarrow> nat \<Rightarrow> row" where
  "service_row s depth =
     Service_Row s depth (serviceLeafName (serviceName s)) (serviceStatusTone (s_status s))"

definition is_open :: "expanded \<Rightarrow> nat \<Rightarrow> tree_node \<Rightarrow> bool" where
  "is_open expanded depth c = (case expanded (fullPath c) of None \<Rightarrow> depth < 2 | Some b \<Rightarrow> b)"

definition by_name :: "(string \<Rightarrow> string \<Rightarrow> rat) \<Rightarrow> tree_node \<Rightarrow> tree_node \<Rightarrow> rat" where
  "by_name collate a b = collate (node_name a) (node_name b)"

lemma size_child:
  assumes "c \<in> set (js_sort cmp (map_values cs))"
  shows "size c < size (Node n p cs ss)"
proof -
  obtain k where "(k, c) \<in> set cs" using assms by (auto simp: map_values_def)
  then have "size c \<le> size_list (size_prod (\<lambda>_. 0) size) cs"
    by (rule size_list_estimation') simp
  then show ?thesis by simp
qed

function render_tree ::
  "(string \<Rightarrow> string \<Rightarrow> rat) \<Rightarrow> expanded \<Rightarrow> tree_node \<Rightarrow> nat \<Rightarrow> row list" where
  "render_tree collate expanded (Node n p cs ss) depth =
     concat (map (\<lambda>c.
       (let isBranch = (children c \<noteq> []); isOpen = is_open expanded depth c;
            own = map (\<lambda>s. service_row s depth) (node_services c)
        in (if isBranch then [Branch_Row (fullPath c) (node_name c) depth isOpen] else own) @
           (if isBranch \<and> isOpen then own @ render_tree collate expanded c (depth + 1) else [])))
       (js_sort (by_name collate) (map_values cs)))"
  by pat_completeness auto
termination
  by (relation "measure (\<lambda>(collate, expanded, t, depth). size t)") (use size_child in auto)

declare render_tree.simps [simp del]

text \<open>\<open>setExpanded((e) => ({ ...e, [child.fullPath]: !isOpen }))\<close>\<close>

definition toggle_branch :: "expanded \<Rightarrow> nat \<Rightarrow> tree_node \<Rightarrow> expanded" where
  "toggle_branch expanded depth c = spread_put expanded (fullPath c) (\<not> is_open expanded depth c)"

section \<open>The view\<close>

datatype service_mode = Tree_Mode | List_Mode

definition initial_mode :: "surface \<Rightarrow> service_mode" where
  "initial_mode surface = (if surface = ContainerDetail_Surface then List_Mode else Tree_Mode)"

definition filter_services :: "string \<Rightarrow> service_info list \<Rightarrow> service_info list" where
  "filter_services search services =
     (let q = to_lower (trim search)
      in if q = [] then services
         else filter (\<lambda>s. contains (to_lower (serviceName s)) q \<or>
                contains (to_lower (description s)) q) services)"

definition selected_service :: "string option \<Rightarrow> service_info list \<Rightarrow> service_info option" where
  "selected_service name filtered = find (\<lambda>s. Some (serviceName s) = name) filtered"

text \<open>In list mode a row shows the whole name.\<close>

definition service_rows ::
  "(string \<Rightarrow> string \<Rightarrow> rat) \<Rightarrow> service_mode \<Rightarrow> expanded \<Rightarrow> string \<Rightarrow> service_info list \<Rightarrow> row list" where
  "service_rows collate m expanded search services =
     (let filtered = filter_services search services
      in case m of
           List_Mode \<Rightarrow>
             map (\<lambda>s. Service_Row s 0 (serviceName s) (serviceStatusTone (s_status s))) filtered
         | Tree_Mode \<Rightarrow> render_tree collate expanded (service_tree filtered) 0)"

section \<open>What the tree holds\<close>

fun below :: "tree_node \<Rightarrow> service_info multiset" where
  "below (Node n p cs ss) = sum_list (map (\<lambda>(k, c). mset (node_services c) + below c) cs)"

lemma sum_map_set:
  fixes f :: "'v \<Rightarrow> 'a multiset"
  shows "sum_list (map (\<lambda>(k, c). f c) (map_set m k v)) +
      (case map_get m k of None \<Rightarrow> {#} | Some c \<Rightarrow> f c) =
    sum_list (map (\<lambda>(k, c). f c) m) + f v"
  by (induction m k v rule: map_set.induct) (auto simp: ac_simps)

lemma sum_values: "sum_list (map (\<lambda>(k, c). f c) cs) = sum_list (map f (map_values cs))"
  by (induction cs) (auto simp: map_values_def)

definition held :: "tree_node \<Rightarrow> service_info multiset" where
  "held t = mset (node_services t) + below t"

lemma held_Node: "held (Node n p cs ss) = mset ss + sum_list (map (\<lambda>(k, c). held c) cs)"
  by (simp add: held_def case_prod_beta)

lemma held_insert_at: "held (insert_at t path parts s) = add_mset s (held t)"
proof (induction t path parts s rule: insert_at.induct)
  case (2 n p cs ss path part parts s)
  let ?child = "case map_get cs part of None \<Rightarrow> Node part (sub_path path part) [] [] | Some c \<Rightarrow> c"
  let ?new = "insert_at ?child (sub_path path part) parts s"
  have new: "held ?new = add_mset s (case map_get cs part of None \<Rightarrow> {#} | Some c \<Rightarrow> held c)"
    using 2 by (auto simp: held_Node split: option.split)
  show ?case
    using sum_map_set [of held cs part ?new] new
    by (simp add: held_Node Let_def split: option.split_asm)
qed (simp add: held_Node)

lemma own_insert_at:
  "node_services (insert_at t path parts s) = node_services t @ (if parts = [] then [s] else [])"
  by (cases t; cases parts) (simp_all add: Let_def)

abbreviation placed :: "service_info \<Rightarrow> bool" where
  "placed s \<equiv> serviceDomainPath (serviceName s) \<noteq> []"

lemma service_tree_contents:
  "held (service_tree services) = mset services \<and>
    node_services (service_tree services) = filter (\<lambda>s. \<not> placed s) services"
  by (induction services rule: rev_induct)
     (simp_all add: service_tree_def empty_root_def held_Node insertService_def held_insert_at own_insert_at)

lemma below_service_tree: "below (service_tree services) = mset (filter placed services)"
proof -
  have "mset services = mset (filter (\<lambda>s. \<not> placed s) services) + mset (filter placed services)"
    by (metis mset_filter multiset_partition add.commute)
  then show ?thesis
    using service_tree_contents [of services] unfolding held_def by (metis add_left_cancel)
qed

section \<open>What the rows show\<close>

definition shown :: "row list \<Rightarrow> service_info multiset" where
  "shown rows = mset (map row_service (filter (\<lambda>r. \<not> is_branch r) rows))"

lemma shown_simps [simp]:
  "shown [] = {#}"
  "shown (xs @ ys) = shown xs + shown ys"
  "shown (Branch_Row p n d b # xs) = shown xs"
  "shown (map (\<lambda>s. service_row s d) ss) = mset ss"
  "shown (concat rs) = sum_list (map shown rs)"
  by (simp_all add: shown_def service_row_def filter_map comp_def)
     (induction rs, simp_all add: shown_def)

lemma sum_list_js_sort:
  fixes f :: "'a \<Rightarrow> 'b multiset"
  shows "sum_list (map f (js_sort cmp xs)) = sum_list (map f xs)"
  by (metis mset_js_sort mset_map sum_mset_sum_list)

lemma shown_children:
  fixes g :: "tree_node \<Rightarrow> row list"
  shows "shown (concat (map g (js_sort cmp (map_values cs)))) =
    sum_list (map (\<lambda>c. shown (g c)) (map_values cs))"
  by (simp add: comp_def sum_list_js_sort [of "\<lambda>c. shown (g c)"])

lemma below_values: "below t = sum_list (map held (map_values (children t)))"
  by (cases t) (simp add: sum_values [symmetric] held_def)

lemma sum_list_subset_mset:
  assumes "\<And>x. x \<in> set xs \<Longrightarrow> f x \<subseteq># g x"
  shows "sum_list (map f xs) \<subseteq># sum_list (map g xs)"
  using assms by (induction xs) (auto intro: subset_mset.add_mono)

lemma below_leaf: "children c = [] \<Longrightarrow> below c = {#}"
  by (cases c) simp

text \<open>The rows of one child.\<close>

definition child_rows ::
  "(string \<Rightarrow> string \<Rightarrow> rat) \<Rightarrow> expanded \<Rightarrow> nat \<Rightarrow> tree_node \<Rightarrow> row list" where
  "child_rows collate expanded depth c =
     (let own = map (\<lambda>s. service_row s depth) (node_services c) in
      if children c = [] then own
      else if is_open expanded depth c
      then Branch_Row (fullPath c) (node_name c) depth True # own @ render_tree collate expanded c (depth + 1)
      else [Branch_Row (fullPath c) (node_name c) depth False])"

lemma render_tree_children:
  "render_tree collate expanded t depth =
     concat (map (child_rows collate expanded depth) (js_sort (by_name collate) (map_values (children t))))"
  by (cases t) (auto simp: render_tree.simps child_rows_def Let_def intro!: arg_cong [where f = concat])

lemma shown_render: "shown (render_tree collate expanded t depth) =
    sum_list (map (\<lambda>c. shown (child_rows collate expanded depth c)) (map_values (children t)))"
  by (simp only: render_tree_children shown_children)

lemma shown_child_rows:
  "shown (child_rows collate expanded depth c) =
     (if children c = [] then held c
      else if is_open expanded depth c
      then mset (node_services c) + shown (render_tree collate expanded c (depth + 1)) else {#})"
  by (simp add: child_rows_def Let_def held_def below_leaf)

lemma tree_induct [case_names node]:
  assumes "\<And>t. (\<And>c. c \<in> set (map_values (children t)) \<Longrightarrow> P c) \<Longrightarrow> P t"
  shows "P t"
proof (induction t rule: measure_induct_rule [where f = size])
  case (less t)
  show ?case
  proof (rule assms)
    fix c
    assume "c \<in> set (map_values (children t))"
    then show "P c"
      using size_child [of c "\<lambda>_ _. 0" "children t" "node_name t" "fullPath t" "node_services t"] less by simp
  qed
qed

lemma shown_render_open:
  assumes "\<forall>p. expanded p = Some True"
  shows "shown (render_tree collate expanded t depth) = below t"
proof (induction t arbitrary: depth rule: tree_induct)
  case (node t)
  have "is_open expanded depth c" for depth c using assms by (simp add: is_open_def)
  then have "shown (child_rows collate expanded depth c) = held c" if "c \<in> set (map_values (children t))" for c
    using node [OF that] by (simp add: shown_child_rows held_def)
  then show ?case by (simp add: shown_render below_values cong: map_cong)
qed

lemma shown_render_subset: "shown (render_tree collate expanded t depth) \<subseteq># below t"
proof (induction t arbitrary: depth rule: tree_induct)
  case (node t)
  have "shown (child_rows collate expanded depth c) \<subseteq># held c"
    if "c \<in> set (map_values (children t))" for c
    using node [OF that] by (auto simp: shown_child_rows held_def)
  then show ?case
    unfolding shown_render below_values by (intro sum_list_subset_mset)
qed

section \<open>The keys of the branches\<close>

text \<open>The places of a tree as lists of parts, and the invariant that insertion keeps: the
  path of a node is the text of its place, its children have its parts as names.\<close>

fun places :: "string list \<Rightarrow> tree_node \<Rightarrow> string list list" where
  "places pre (Node n p cs ss) = concat (map (\<lambda>(k, c). (pre @ [k]) # places (pre @ [k]) c) cs)"

definition part_ok :: "string \<Rightarrow> bool" where
  "part_ok k = (k \<noteq> [] \<and> CHR ''.'' \<notin> set k)"

fun tree_ok :: "string list \<Rightarrow> tree_node \<Rightarrow> bool" where
  "tree_ok pre (Node n p cs ss) =
     (p = join ''.'' pre \<and> distinct (map_keys cs) \<and>
      (\<forall>(k, c)\<in>set cs. node_name c = k \<and> part_ok k \<and> tree_ok (pre @ [k]) c))"

lemma join_snoc: "join d (xs @ [x]) = (if xs = [] then x else join d xs @ d @ x)"
  by (induction d xs rule: join.induct) auto

lemma join_parts_Nil: "list_all part_ok ps \<Longrightarrow> join ''.'' ps = [] \<longleftrightarrow> ps = []"
  by (cases ps rule: rev_cases) (auto simp: join_snoc part_ok_def)

lemma sub_path_join: "list_all part_ok pre \<Longrightarrow> sub_path (join ''.'' pre) k = join ''.'' (pre @ [k])"
  by (simp add: sub_path_def join_snoc join_parts_Nil)

lemma join_parts_inject:
  assumes "list_all part_ok ps" and "list_all part_ok qs" and "join ''.'' ps = join ''.'' qs"
  shows "ps = qs"
proof -
  have split: "split_on (\<lambda>c. c = CHR ''.'') (join ''.'' rs) = rs" if "list_all part_ok rs" "rs \<noteq> []" for rs
    using that
  proof (induction rs rule: rev_induct)
    case (snoc r rs)
    then have "split_on (\<lambda>c. c = CHR ''.'') r = [r]" by (intro split_on_no_sep) (auto simp: part_ok_def)
    with snoc show ?case
      using split_on_append_sep [of "\<lambda>c. c = CHR ''.''" "CHR ''.''" "join ''.'' rs" r]
      by (cases "rs = []") (simp_all add: join_snoc)
  qed simp
  show ?thesis
    using assms split join_parts_Nil by metis
qed

lemma node_name_insert_at [simp]: "node_name (insert_at t path parts s) = node_name t"
  by (cases t; cases parts) (simp_all add: Let_def)

lemma tree_ok_insert_at:
  assumes "tree_ok pre t" and "list_all part_ok pre" and "list_all part_ok parts"
    and "path = join ''.'' pre"
  shows "tree_ok pre (insert_at t path parts s)"
  using assms
proof (induction t path parts s arbitrary: pre rule: insert_at.induct)
  case (2 n p cs ss path part parts s)
  let ?path = "sub_path path part"
  let ?child = "case map_get cs part of None \<Rightarrow> Node part ?path [] [] | Some c \<Rightarrow> c"
  have path: "?path = join ''.'' (pre @ [part])" using 2(3,5) by (simp add: sub_path_join)
  have child: "node_name ?child = part \<and> tree_ok (pre @ [part]) ?child"
    using 2(2) by (auto simp: path map_keys_def dest: map_of_SomeD split: option.split)
  then have "tree_ok (pre @ [part]) (insert_at ?child ?path parts s)"
    using 2(3,4) path by (intro 2(1) [OF refl refl]) simp_all
  then have "\<forall>(k, c)\<in>set (map_set cs part (insert_at ?child ?path parts s)).
      node_name c = k \<and> part_ok k \<and> tree_ok (pre @ [k]) c"
    using 2(2,4) child set_map_set_subset [of cs part "insert_at ?child ?path parts s"] by fastforce
  with 2(2) show ?case by (simp add: Let_def jsmap.distinct_keys_put)
qed simp

lemma parts_ok: "list_all part_ok (serviceDomainPath name)"
  by (auto simp: serviceDomainPath_def part_ok_def list_all_iff domain_sep_def dest: split_on_pieces)

lemma tree_ok_service_tree: "tree_ok [] (service_tree services)"
proof (induction services rule: rev_induct)
  case (snoc s services)
  then have "tree_ok [] (insert_at (service_tree services) (join ''.'' []) (serviceDomainPath (serviceName s)) s)"
    by (intro tree_ok_insert_at) (simp_all add: parts_ok)
  then show ?case by (simp add: service_tree_def insertService_def)
qed (simp add: service_tree_def empty_root_def map_keys_def)

lemma places_extend: "ps \<in> set (places pre t) \<Longrightarrow> \<exists>qs. qs \<noteq> [] \<and> ps = pre @ qs"
  by (induction pre t arbitrary: ps rule: places.induct) fastforce

lemma distinct_places: "tree_ok pre t \<Longrightarrow> distinct (places pre t)"
proof (induction pre t rule: places.induct)
  case (1 pre n p cs ss)
  let ?g = "\<lambda>k c. (pre @ [k]) # places (pre @ [k]) c"
  have "distinct (?g k c) \<and> (\<forall>x\<in>set (?g k c). x ! length pre = k)" if "(k, c) \<in> set cs" for k c
  proof -
    have "distinct (places (pre @ [k]) c)" using 1 that by fastforce
    moreover have "\<exists>q qs. x = pre @ [k] @ q # qs" if "x \<in> set (places (pre @ [k]) c)" for x
      using places_extend [OF that] by (metis append.assoc neq_Nil_conv)
    ultimately show ?thesis by (fastforce simp: nth_append)
  qed
  moreover have "distinct (map fst cs)" using 1 by (simp add: map_keys_def)
  ultimately have "distinct (concat (map (\<lambda>(k, c). ?g k c) cs))"
    by (intro distinct_concat_labelled [where h = "\<lambda>x. x ! length pre"])
  then show ?case by simp
qed

lemma places_ok: "tree_ok pre t \<Longrightarrow> list_all part_ok pre \<Longrightarrow> ps \<in> set (places pre t) \<Longrightarrow> list_all part_ok ps"
  by (induction pre t arbitrary: ps rule: places.induct) fastforce

definition branch_keys :: "row list \<Rightarrow> string multiset" where
  "branch_keys rows = mset (map branch_path (filter is_branch rows))"

lemma branch_keys_simps [simp]:
  "branch_keys [] = {#}"
  "branch_keys (xs @ ys) = branch_keys xs + branch_keys ys"
  "branch_keys (Branch_Row p n d b # xs) = add_mset p (branch_keys xs)"
  "branch_keys (map (\<lambda>s. service_row s d) ss) = {#}"
  "branch_keys (concat rs) = sum_list (map branch_keys rs)"
  by (simp_all add: branch_keys_def service_row_def)
     (induction rs, simp_all add: branch_keys_def)

lemma branch_keys_children:
  "branch_keys (render_tree collate expanded t depth) =
     sum_list (map (\<lambda>c. branch_keys (child_rows collate expanded depth c)) (map_values (children t)))"
  by (simp add: render_tree_children comp_def
        sum_list_js_sort [of "\<lambda>c. branch_keys (child_rows collate expanded depth c)"])

lemma sum_image_concat:
  "sum_list (map (\<lambda>e. image_mset f (mset (g (fst e) (snd e)))) ds) =
     image_mset f (mset (concat (map (\<lambda>(k, c). g k c) ds)))"
  by (induction ds) auto

lemma branch_keys_subset:
  "tree_ok pre t \<Longrightarrow>
     branch_keys (render_tree collate expanded t depth) \<subseteq># image_mset (join ''.'') (mset (places pre t))"
proof (induction pre t arbitrary: depth rule: places.induct)
  case (1 pre n p cs ss)
  have "branch_keys (child_rows collate expanded depth c) \<subseteq>#
      image_mset (join ''.'') (mset ((pre @ [k]) # places (pre @ [k]) c))" if kc: "(k, c) \<in> set cs" for k c
  proof -
    from 1(2) kc have ok: "tree_ok (pre @ [k]) c" by auto
    then have "fullPath c = join ''.'' (pre @ [k])" by (cases c) simp
    with 1(1) [OF kc refl ok] show ?thesis by (simp add: child_rows_def Let_def)
  qed
  then have "sum_list (map (\<lambda>e. branch_keys (child_rows collate expanded depth (snd e))) cs) \<subseteq>#
      sum_list (map (\<lambda>e. image_mset (join ''.'') (mset ((pre @ [fst e]) # places (pre @ [fst e]) (snd e)))) cs)"
    by (intro sum_list_subset_mset) auto
  also have "\<dots> = image_mset (join ''.'') (mset (places pre (Node n p cs ss)))"
    unfolding places.simps by (rule sum_image_concat)
  finally show ?case
    by (simp add: branch_keys_children map_values_def comp_def)
qed

lemma distinct_branch_keys:
  assumes "tree_ok [] t"
  shows "distinct (map branch_path (filter is_branch (render_tree collate expanded t depth)))"
proof -
  have "inj_on (join ''.'') (set (places [] t))"
    using places_ok [OF assms] by (intro inj_onI join_parts_inject) auto
  then have "distinct (map (join ''.'') (places [] t))"
    using distinct_places [OF assms] by (simp add: distinct_map)
  moreover have "mset (map branch_path (filter is_branch (render_tree collate expanded t depth)))
      \<subseteq># mset (map (join ''.'') (places [] t))"
    using branch_keys_subset [OF assms, of collate expanded depth] by (simp add: branch_keys_def)
  ultimately show ?thesis
    by (rule distinct_mset_subset [rotated])
qed

section \<open>Properties\<close>

text \<open>C5: with every branch open the tree shows the services of the list, each the same
  number of times, except those whose name has no part (an empty name, or one of dots
  and slashes only), which no row of the tree shows.\<close>

theorem tree_shows_the_list:
  assumes "\<forall>p. expanded p = Some True"
  shows "shown (service_rows collate Tree_Mode expanded search services) =
    filter_mset placed (shown (service_rows collate List_Mode expanded search services))"
proof -
  have "shown (map (\<lambda>s. Service_Row s 0 (serviceName s) (serviceStatusTone (s_status s))) xs) = mset xs" for xs
    by (simp add: shown_def filter_map comp_def)
  then show ?thesis
    by (simp add: service_rows_def Let_def shown_render_open [OF assms] below_service_tree)
qed

theorem tree_shows_the_list_witness:
  "shown (service_rows (\<lambda>_ _. 0) Tree_Mode (\<lambda>_. Some True) []
     [sample_service ''a.b'', sample_service ''.'', sample_service ''a'']) =
   {# sample_service ''a.b'', sample_service ''a'' #}"
proof -
  have "serviceDomainPath ''a.b'' \<noteq> []" "serviceDomainPath ''a'' \<noteq> []" "serviceDomainPath ''.'' = []"
    and "trim [] = []" and "serviceName (sample_service n) = n" for n
    by (code_simp, code_simp, code_simp, code_simp, simp add: sample_service_def)
  then show ?thesis
    using tree_shows_the_list [of "\<lambda>_. Some True" "\<lambda>_ _. 0" "[]"
        "[sample_service ''a.b'', sample_service ''.'', sample_service ''a'']"]
    by (simp add: service_rows_def filter_services_def shown_def to_lower_def)
qed

text \<open>Whatever branches are open, the tree shows no service more often than the host
  reports it, and only services that match the search.\<close>

lemma tree_shows_matching_only:
  "shown (service_rows collate Tree_Mode expanded search services)
     \<subseteq># filter_mset placed (mset (filter_services search services))"
  using shown_render_subset [of collate expanded "service_tree (filter_services search services)" 0]
  by (simp add: service_rows_def Let_def below_service_tree)

text \<open>C28: the branches of the tree have different paths, so that opening or closing one of
  them changes the entry of no other: whichever are open, no two rows of the tree have
  the same key, and after a click on a branch every branch with another path is as it
  was.\<close>

theorem branches_independent:
  "distinct (map branch_path (filter is_branch (service_rows collate Tree_Mode expanded search services))) \<and>
   (if fullPath c = fullPath c' then is_open (toggle_branch expanded d c) d' c' = (\<not> is_open expanded d c)
    else is_open (toggle_branch expanded d c) d' c' = is_open expanded d' c')"
  using distinct_branch_keys [OF tree_ok_service_tree]
  by (simp add: service_rows_def Let_def toggle_branch_def is_open_def
        spread.get_put_same spread.get_put_other)

end
