(* ===== verification/ApiClient.thy ===== *)
theory ApiClient
  imports ApiTypes
begin

text \<open>
  \<open>src/api/client.ts\<close>. \<open>fetch\<close> is the environment: it rejects or answers with a
  status and a body, which \<open>res.json()\<close> parses or not. Each function is the request
  it sends and what it makes of the answer; a thrown error is \<open>Inl\<close>, and \<open>null\<close>
  is \<open>None\<close>.
\<close>

datatype 'a body = Malformed string | JsonNull | Json 'a

datatype 'a reply = Network_Failure string | Response nat "'a body"

datatype api_error = Fetch_Error string | Http_Error string nat | Parse_Error string

datatype http_method = GET | PUT | POST

record 'b request =
  req_path :: string
  req_method :: http_method
  req_headers :: "(string \<times> string) list"
  req_body :: "'b option"

text \<open>The message of the thrown \<open>Error\<close>.\<close>

fun error_message :: "api_error \<Rightarrow> string" where
  "error_message (Fetch_Error m) = m"
| "error_message (Http_Error path st) = path @ '': '' @ show_nat st"
| "error_message (Parse_Error m) = m"

definition is_ok :: "nat \<Rightarrow> bool" where
  "is_ok st = (200 \<le> st \<and> st \<le> 299)"

fun parse_body :: "'a body \<Rightarrow> api_error + 'a option" where
  "parse_body (Malformed m) = Inl (Parse_Error m)"
| "parse_body JsonNull = Inr None"
| "parse_body (Json v) = Inr (Some v)"

definition get_request :: "string \<Rightarrow> 'b request" where
  "get_request path = \<lparr> req_path = path, req_method = GET, req_headers = [], req_body = None \<rparr>"

fun apiGet :: "string \<Rightarrow> 'a reply \<Rightarrow> api_error + 'a option" where
  "apiGet path (Network_Failure m) = Inl (Fetch_Error m)"
| "apiGet path (Response st b) =
     (if st = 204 then Inr None
      else if \<not> is_ok st then Inl (Http_Error path st)
      else parse_body b)"

definition json_headers :: "(string \<times> string) list" where
  "json_headers = [(''Content-Type'', ''application/json'')]"

definition put_request :: "string \<Rightarrow> 'b \<Rightarrow> 'b request" where
  "put_request path b =
     \<lparr> req_path = path, req_method = PUT, req_headers = json_headers, req_body = Some b \<rparr>"

fun apiPut :: "string \<Rightarrow> 'a reply \<Rightarrow> api_error + 'a option" where
  "apiPut path (Network_Failure m) = Inl (Fetch_Error m)"
| "apiPut path (Response st b) =
     (if \<not> is_ok st then Inl (Http_Error path st) else parse_body b)"

definition post_request :: "string \<Rightarrow> 'b option \<Rightarrow> 'b request" where
  "post_request path b =
     (case b of
        None \<Rightarrow> \<lparr> req_path = path, req_method = POST, req_headers = [], req_body = None \<rparr>
      | Some v \<Rightarrow>
          \<lparr> req_path = path, req_method = POST, req_headers = json_headers, req_body = Some v \<rparr>)"

fun apiPost :: "string \<Rightarrow> 'a reply \<Rightarrow> api_error + 'a option" where
  "apiPost path (Network_Failure m) = Inl (Fetch_Error m)"
| "apiPost path (Response st b) =
     (if \<not> is_ok st then Inl (Http_Error path st) else parse_body b)"

text \<open>\<open>(await apiGet(p)) ?? d\<close>: the default replaces \<open>null\<close>, not an error.\<close>

definition or_default :: "'a \<Rightarrow> api_error + 'a option \<Rightarrow> api_error + 'a" where
  "or_default d r = (case r of Inl e \<Rightarrow> Inl e | Inr None \<Rightarrow> Inr d | Inr (Some v) \<Rightarrow> Inr v)"

section \<open>Facts\<close>

lemma apiGet_data_iff:
  "apiGet path r = Inr (Some v) \<longleftrightarrow> (\<exists>st. r = Response st (Json v) \<and> is_ok st \<and> st \<noteq> 204)"
  by (cases r) (auto elim: parse_body.elims)

lemma apiPut_data_iff:
  "apiPut path r = Inr (Some v) \<longleftrightarrow> (\<exists>st. r = Response st (Json v) \<and> is_ok st)"
  by (cases r) (auto elim: parse_body.elims)

lemma apiPost_eq_apiPut: "apiPost path r = apiPut path r"
  by (cases r) simp_all

lemma apiGet_eq_apiPut: "(\<forall>b. r \<noteq> Response 204 b) \<Longrightarrow> apiGet path r = apiPut path r"
  by (cases r) auto

lemma or_default_simps [simp]:
  "or_default d (Inl e) = Inl e"
  "or_default d (Inr None) = Inr d"
  "or_default d (Inr (Some v)) = Inr v"
  by (simp_all add: or_default_def)

end
