(* ===== verification/Polling.thy ===== *)
theory Polling
  imports ApiClient
begin

text \<open>
  The scheduling that \<open>useEffect\<close>, \<open>setInterval\<close> and promises give the hooks of
  \<open>src/api\<close>. A hook has a dependency, a view (its \<open>useState\<close> values) and the
  requests in flight, each with the dependency it was issued for. React runs the effect
  at mount and whenever the dependency changes, after the clean-up of the previous run;
  the interval repeats the load; replies arrive in any order; setting state after
  unmounting does nothing. What a particular hook does at each point is its
  \<open>handlers\<close>; none of the hooks modelled with them discards the replies to an
  earlier dependency (\<open>HistoryHook\<close> models the one that does).
\<close>

record ('d, 'v, 'r) handlers =
  enabled :: "'d \<Rightarrow> bool"              \<comment> \<open>the effect does not return early\<close>
  on_skip :: "'v \<Rightarrow> 'v"                \<comment> \<open>state set by the early return\<close>
  on_start :: "'v \<Rightarrow> 'v"               \<comment> \<open>state set when a load starts\<close>
  on_reply :: "'d \<Rightarrow> 'r \<Rightarrow> 'v \<Rightarrow> 'v"   \<comment> \<open>the promise chain of a load\<close>
  repeats :: bool                     \<comment> \<open>the effect installs an interval\<close>

record ('d, 'v) poll =
  dep :: 'd
  mounted :: bool
  ticking :: bool
  inflight :: "'d list"
  view :: 'v

definition poll_load :: "('d, 'v, 'r) handlers \<Rightarrow> ('d, 'v) poll \<Rightarrow> ('d, 'v) poll" where
  "poll_load h st =
     st\<lparr> inflight := inflight st @ [dep st], view := on_start h (view st) \<rparr>"

definition poll_cleanup :: "('d, 'v) poll \<Rightarrow> ('d, 'v) poll" where
  "poll_cleanup st = st\<lparr> ticking := False \<rparr>"

definition poll_effect :: "('d, 'v, 'r) handlers \<Rightarrow> 'd \<Rightarrow> ('d, 'v) poll \<Rightarrow> ('d, 'v) poll" where
  "poll_effect h d st =
     (let st1 = (poll_cleanup st)\<lparr> dep := d \<rparr>
      in if enabled h d then poll_load h (st1\<lparr> ticking := repeats h \<rparr>)
         else st1\<lparr> view := on_skip h (view st1) \<rparr>)"

definition poll_arrive ::
  "('d, 'v, 'r) handlers \<Rightarrow> nat \<Rightarrow> 'r \<Rightarrow> ('d, 'v) poll \<Rightarrow> ('d, 'v) poll" where
  "poll_arrive h i r st =
     st\<lparr> inflight := drop_nth i (inflight st),
         view := (if mounted st then on_reply h (inflight st ! i) r (view st) else view st) \<rparr>"

definition poll_unmount :: "('d, 'v) poll \<Rightarrow> ('d, 'v) poll" where
  "poll_unmount st = (poll_cleanup st)\<lparr> mounted := False \<rparr>"

definition poll_mount :: "('d, 'v, 'r) handlers \<Rightarrow> 'v \<Rightarrow> 'd \<Rightarrow> ('d, 'v) poll" where
  "poll_mount h v d =
     poll_effect h d \<lparr> dep = d, mounted = True, ticking = False, inflight = [], view = v \<rparr>"

lemmas [hook_defs] = poll_load_def poll_cleanup_def poll_effect_def poll_arrive_def
  poll_unmount_def poll_mount_def drop_nth_def

text \<open>
  The steps. \<open>answers d r\<close> says that the server may give the reply \<open>r\<close> to a request
  for \<open>d\<close>.
\<close>

inductive poll_step ::
  "('d, 'v, 'r) handlers \<Rightarrow> ('d \<Rightarrow> 'r \<Rightarrow> bool) \<Rightarrow> ('d, 'v) poll \<Rightarrow> ('d, 'v) poll \<Rightarrow> bool"
  for h answers where
  rerun: "mounted st \<Longrightarrow> d \<noteq> dep st \<Longrightarrow> poll_step h answers st (poll_effect h d st)"
| tick: "ticking st \<Longrightarrow> poll_step h answers st (poll_load h st)"
| arrive: "i < length (inflight st) \<Longrightarrow> answers (inflight st ! i) r \<Longrightarrow>
     poll_step h answers st (poll_arrive h i r st)"
| unmount: "mounted st \<Longrightarrow> poll_step h answers st (poll_unmount st)"

inductive poll_reachable ::
  "('d, 'v, 'r) handlers \<Rightarrow> ('d \<Rightarrow> 'r \<Rightarrow> bool) \<Rightarrow> 'v \<Rightarrow> ('d, 'v) poll \<Rightarrow> bool"
  for h answers v where
  mount: "poll_reachable h answers v (poll_mount h v d)"
| step: "poll_reachable h answers v st \<Longrightarrow> poll_step h answers st st' \<Longrightarrow>
     poll_reachable h answers v st'"

inductive_cases poll_stepE: "poll_step h answers st st'"

section \<open>The interface of a view that every handler keeps well-formed\<close>

text \<open>
  A hook whose view has an invariant that the early return, the start of a load and
  every reply the server may give preserve has it in every reachable state.
\<close>

locale view_invariant =
  fixes h :: "('d, 'v, 'r) handlers" and answers :: "'d \<Rightarrow> 'r \<Rightarrow> bool"
    and good :: "'v \<Rightarrow> bool" and v0 :: 'v
  assumes good_init: "good v0"
    and good_skip: "good v \<Longrightarrow> good (on_skip h v)"
    and good_start: "good v \<Longrightarrow> good (on_start h v)"
    and good_reply: "good v \<Longrightarrow> answers d r \<Longrightarrow> good (on_reply h d r v)"
begin

lemma good_effect: "good (view st) \<Longrightarrow> good (view (poll_effect h d st))"
  by (simp add: hook_defs Let_def good_skip good_start)

lemma good_step: "poll_step h answers st st' \<Longrightarrow> good (view st) \<Longrightarrow> good (view st')"
  by (erule poll_stepE)
     (simp_all add: good_effect good_start good_reply poll_load_def poll_arrive_def
        poll_unmount_def poll_cleanup_def)

lemma good_reachable: "poll_reachable h answers v0 st \<Longrightarrow> good (view st)"
proof (induction rule: poll_reachable.induct)
  case (mount d)
  show ?case unfolding poll_mount_def by (rule good_effect) (simp add: good_init)
next
  case (step st st')
  then show ?case by (blast intro: good_step)
qed

end

section \<open>Structure of the reachable states\<close>

lemma ticking_step:
  "poll_step h answers st st' \<Longrightarrow> ticking st \<longrightarrow> mounted st \<and> repeats h \<and> enabled h (dep st) \<Longrightarrow>
     ticking st' \<longrightarrow> mounted st' \<and> repeats h \<and> enabled h (dep st')"
  by (erule poll_stepE) (auto simp: hook_defs Let_def)

lemma inflight_enabled_step:
  assumes "poll_step h answers st st'" and "ticking st \<longrightarrow> enabled h (dep st)"
    and "\<forall>d\<in>set (inflight st). enabled h d"
  shows "\<forall>d\<in>set (inflight st'). enabled h d"
  using assms
  by cases (auto simp: hook_defs Let_def dest: in_set_takeD in_set_dropD)

text \<open>An interval runs only while the hook is mounted with a dependency it polls for, and
  no request is ever issued for a dependency the effect returns early on.\<close>

lemma poll_reachable_wf:
  assumes "poll_reachable h answers v st"
  shows "(ticking st \<longrightarrow> mounted st \<and> repeats h \<and> enabled h (dep st)) \<and>
    (\<forall>d\<in>set (inflight st). enabled h d)"
  using assms
proof (induction rule: poll_reachable.induct)
  case (mount d)
  show ?case by (simp add: hook_defs Let_def)
next
  case (step st st')
  then show ?case using ticking_step inflight_enabled_step by blast
qed

end
