(* ===== verification/JsUrl.thy ===== *)
theory JsUrl
  imports JsStore
begin

text \<open>
  URLs: \<open>encodeURIComponent\<close> (percent-encoding of the UTF-8 bytes of everything
  outside the unreserved set), and \<open>URLSearchParams\<close> with its \<open>get\<close>, \<open>set\<close> and
  \<open>toString\<close>. An encoded component contains no delimiter of a path or a query, and
  the encoding is injective, so links built from different identifiers differ.
\<close>

section \<open>Percent-encoding\<close>

definition hex_digit :: "nat \<Rightarrow> char" where
  "hex_digit n = ''0123456789ABCDEF'' ! n"

definition percent :: "nat \<Rightarrow> string" where
  "percent b = [CHR ''%'', hex_digit (b div 16), hex_digit (b mod 16)]"

definition utf8_bytes :: "nat \<Rightarrow> nat list" where
  "utf8_bytes n = (if n < 128 then [n] else [192 + n div 64, 128 + n mod 64])"

definition is_alnum :: "char \<Rightarrow> bool" where
  "is_alnum c = (let n = char_code c in
     (48 \<le> n \<and> n \<le> 57) \<or> (65 \<le> n \<and> n \<le> 90) \<or> (97 \<le> n \<and> n \<le> 122))"

definition unreserved :: "char \<Rightarrow> bool" where
  "unreserved c = (is_alnum c \<or> c \<in> set ''-_.!~*'' \<or> char_code c \<in> {39, 40, 41})"

definition encode_char :: "char \<Rightarrow> string" where
  "encode_char c =
     (if unreserved c then [c] else concat (map percent (utf8_bytes (char_code c))))"

definition encode_uri_component :: "string \<Rightarrow> string" where
  "encode_uri_component s = concat (map encode_char s)"

section \<open>Query parameters\<close>

type_synonym params = "(string \<times> string) list"

definition form_char :: "char \<Rightarrow> string" where
  "form_char c =
     (if is_alnum c \<or> c \<in> set ''*-._'' then [c]
      else if c = CHR '' '' then ''+''
      else concat (map percent (utf8_bytes (char_code c))))"

definition form_encode :: "string \<Rightarrow> string" where
  "form_encode s = concat (map form_char s)"

definition params_to_string :: "params \<Rightarrow> string" where
  "params_to_string ps =
     join ''&'' (map (\<lambda>(k, v). form_encode k @ ''='' @ form_encode v) ps)"

abbreviation params_get :: "params \<Rightarrow> string \<Rightarrow> string option" where
  "params_get \<equiv> map_of"

text \<open>\<open>set\<close> gives the first entry of the name its value and removes the others.\<close>

fun params_set :: "params \<Rightarrow> string \<Rightarrow> string \<Rightarrow> params" where
  "params_set [] k v = [(k, v)]"
| "params_set ((k', v') # ps) k v =
     (if k' = k then (k, v) # filter (\<lambda>p. fst p \<noteq> k) ps
      else (k', v') # params_set ps k v)"

interpretation query: keyed_store params_get params_set
proof unfold_locales
  fix ps :: params and k k' v :: string
  have drop: "k' \<noteq> k \<Longrightarrow> map_of (filter (\<lambda>p. fst p \<noteq> k) ps) k' = map_of ps k'" for ps :: params and k
    by (induction ps) auto
  show "params_get (params_set ps k v) k = Some v"
    by (induction ps k v rule: params_set.induct) auto
  show "k' \<noteq> k \<Longrightarrow> params_get (params_set ps k v) k' = params_get ps k'"
    by (induction ps k v rule: params_set.induct) (auto simp: drop)
qed

lemmas [js_defs] = hex_digit_def percent_def utf8_bytes_def is_alnum_def unreserved_def
  encode_char_def encode_uri_component_def form_char_def form_encode_def params_to_string_def

section \<open>Facts\<close>

lemma encode_Nil [simp]: "encode_uri_component [] = []"
  by (simp add: encode_uri_component_def)

lemma encode_Cons: "encode_uri_component (c # s) = encode_char c @ encode_uri_component s"
  by (simp add: encode_uri_component_def)

lemma hex_digit_inject: "m < 16 \<Longrightarrow> n < 16 \<Longrightarrow> hex_digit m = hex_digit n \<longleftrightarrow> m = n"
  unfolding hex_digit_def by (rule nth_eq_iff_index_eq) simp_all

lemma hex_digit_alnum: "n < 16 \<Longrightarrow> is_alnum (hex_digit n)"
proof -
  assume "n < 16"
  then have "hex_digit n \<in> set ''0123456789ABCDEF''"
    unfolding hex_digit_def by (intro nth_mem) simp
  moreover have "\<forall>c\<in>set ''0123456789ABCDEF''. is_alnum c" by code_simp
  ultimately show ?thesis by blast
qed

lemma percent_inject: "a < 256 \<Longrightarrow> b < 256 \<Longrightarrow> percent a = percent b \<longleftrightarrow> a = b"
  by (simp add: percent_def hex_digit_inject) (metis div_mult_mod_eq)

lemma utf8_bytes_less: "n < 256 \<Longrightarrow> b \<in> set (utf8_bytes n) \<Longrightarrow> b < 256"
  by (auto simp: utf8_bytes_def split: if_splits)

lemma percent_safe:
  "c \<in> set (percent b) \<Longrightarrow> b < 256 \<Longrightarrow> unreserved c \<or> c = CHR ''%''"
  by (auto simp: percent_def unreserved_def hex_digit_alnum)

lemma encode_char_safe: "c \<in> set (encode_char d) \<Longrightarrow> unreserved c \<or> c = CHR ''%''"
  by (auto simp: encode_char_def split: if_splits
      dest!: percent_safe dest: utf8_bytes_less [OF char_code_less_256])

lemma encode_safe: "c \<in> set (encode_uri_component s) \<Longrightarrow> unreserved c \<or> c = CHR ''%''"
  by (auto simp: encode_uri_component_def dest: encode_char_safe)

lemma delimiters_reserved: "c \<in> set ''/?#&=+'' \<Longrightarrow> \<not> unreserved c \<and> c \<noteq> CHR ''%''"
proof -
  assume "c \<in> set ''/?#&=+''"
  moreover have "\<forall>c\<in>set ''/?#&=+''. \<not> unreserved c \<and> c \<noteq> CHR ''%''" by code_simp
  ultimately show ?thesis by blast
qed

lemma encode_no_delimiter: "set (encode_uri_component s) \<inter> set ''/?#&=+'' = {}"
  using encode_safe delimiters_reserved by blast

lemma percent_not_unreserved: "\<not> unreserved (CHR ''%'')"
  by code_simp

lemma length_percent [simp]: "length (percent b) = 3"
  by (simp add: percent_def)

lemma encode_char_not_Nil [simp]: "encode_char c \<noteq> []"
  by (auto simp: encode_char_def utf8_bytes_def percent_def)

lemma encode_eq_Nil [simp]: "encode_uri_component s = [] \<longleftrightarrow> s = []"
  by (cases s) (auto simp: encode_Cons)

text \<open>No encoded character is a prefix of another one's encoding.\<close>

lemma encode_char_prefix_free:
  assumes "encode_char c @ r = encode_char d @ q"
  shows "c = d"
proof -
  let ?m = "char_code c" and ?n = "char_code d"
  have hd_enc: "hd (encode_char e) = (if unreserved e then e else CHR ''%'')" for e
    by (simp add: encode_char_def utf8_bytes_def percent_def)
  have "hd (encode_char c) = hd (encode_char d)"
    using assms by (metis encode_char_not_Nil hd_append2)
  then have same: "c = d \<or> (\<not> unreserved c \<and> \<not> unreserved d)"
    using percent_not_unreserved by (auto simp: hd_enc split: if_splits)
  have "?m < 256" and "?n < 256" and "?m div 64 < 4" and "?n div 64 < 4"
    using char_code_less_256 [of c] char_code_less_256 [of d] by linarith+
  then have inj: "percent ?m = percent ?n \<longleftrightarrow> ?m = ?n"
    "percent ?m = percent (192 + ?n div 64) \<longleftrightarrow> ?m = 192 + ?n div 64"
    "percent (192 + ?m div 64) = percent ?n \<longleftrightarrow> 192 + ?m div 64 = ?n"
    "percent (192 + ?m div 64) = percent (192 + ?n div 64) \<longleftrightarrow> ?m div 64 = ?n div 64"
    "percent (128 + ?m mod 64) = percent (128 + ?n mod 64) \<longleftrightarrow> ?m mod 64 = ?n mod 64"
    by (simp_all add: percent_inject trans_less_add2)
  show ?thesis
  proof (cases "c = d")
    case False
    with same have "\<not> unreserved c" "\<not> unreserved d" by auto
    with assms inj have "?m = ?n \<or> (?m div 64 = ?n div 64 \<and> ?m mod 64 = ?n mod 64)"
      by (auto simp: encode_char_def utf8_bytes_def append_eq_append_conv split: if_splits)
    then show ?thesis by (metis char_code_inject div_mult_mod_eq)
  qed
qed

lemma encode_inject [simp]: "encode_uri_component s = encode_uri_component r \<longleftrightarrow> s = r"
proof
  show "encode_uri_component s = encode_uri_component r \<Longrightarrow> s = r"
  proof (induction s arbitrary: r)
    case Nil
    then show ?case by (metis encode_Nil encode_eq_Nil)
  next
    case (Cons c s)
    then obtain d q where r: "r = d # q"
      by (metis encode_Nil encode_eq_Nil list.exhaust list.distinct(1))
    with Cons.prems have eq: "encode_char c @ encode_uri_component s = encode_char d @ encode_uri_component q"
      by (simp add: encode_Cons)
    then have "c = d" by (rule encode_char_prefix_free)
    with eq Cons.IH r show ?case by simp
  qed
qed simp

end
