(* ===== verification/JsDate.thy ===== *)
theory JsDate
  imports JsNumber
begin

text \<open>
  Instants as milliseconds since the epoch. \<open>to_iso\<close> is \<open>Date.prototype.toISOString\<close>
  on the years 0 to 9999, over the proleptic Gregorian calendar; \<open>parse_iso\<close> reads
  the form of the standard's date strings that the server writes, a UTC date-time with
  optional fractional seconds. It is the date parser of the closed instances; the
  theorems hold for every parser.
\<close>

definition civil_of_days :: "int \<Rightarrow> int \<times> int \<times> int" where
  "civil_of_days z =
     (let z' = z + 719468; era = z' div 146097; doe = z' mod 146097;
          yoe = (doe - doe div 1460 + doe div 36524 - doe div 146096) div 365;
          doy = doe - (365 * yoe + yoe div 4 - yoe div 100);
          mp = (5 * doy + 2) div 153;
          d = doy - (153 * mp + 2) div 5 + 1;
          m = (if mp < 10 then mp + 3 else mp - 9);
          y = yoe + era * 400
      in (if m \<le> 2 then y + 1 else y, m, d))"

definition days_of_civil :: "int \<Rightarrow> int \<Rightarrow> int \<Rightarrow> int" where
  "days_of_civil y m d =
     (let y' = (if m \<le> 2 then y - 1 else y); era = y' div 400; yoe = y' mod 400;
          mp = (m + 9) mod 12;
          doy = (153 * mp + 2) div 5 + d - 1;
          doe = yoe * 365 + yoe div 4 - yoe div 100 + doy
      in era * 146097 + doe - 719468)"

definition pad :: "nat \<Rightarrow> int \<Rightarrow> string" where
  "pad k i = (let ds = show_nat (nat i) in replicate (k - length ds) (CHR ''0'') @ ds)"

definition to_iso :: "int \<Rightarrow> string" where
  "to_iso ms =
     (let day = ms div 86400000; t = ms mod 86400000; (y, m, d) = civil_of_days day
      in pad 4 y @ ''-'' @ pad 2 m @ ''-'' @ pad 2 d @ ''T'' @
         pad 2 (t div 3600000) @ '':'' @ pad 2 (t div 60000 mod 60) @ '':'' @
         pad 2 (t div 1000 mod 60) @ ''.'' @ pad 3 (t mod 1000) @ ''Z'')"

definition is_digit :: "char \<Rightarrow> bool" where
  "is_digit c = (let n = char_code c in 48 \<le> n \<and> n \<le> 57)"

definition read_field :: "nat \<Rightarrow> nat \<Rightarrow> string \<Rightarrow> int option" where
  "read_field i k s =
     (let f = take k (drop i s)
      in if length f = k \<and> list_all is_digit f then Some (int (read_nat f)) else None)"

definition char_is :: "nat \<Rightarrow> char \<Rightarrow> string \<Rightarrow> bool" where
  "char_is i c s = (take 1 (drop i s) = [c])"

text \<open>Milliseconds of a fraction such as \<open>.5Z\<close>; further digits are dropped.\<close>

definition read_fraction :: "string \<Rightarrow> int option" where
  "read_fraction s =
     (if s = ''Z'' then Some 0
      else case s of
        [] \<Rightarrow> None
      | c # r \<Rightarrow>
          (let ds = takeWhile is_digit r
           in if c = CHR ''.'' \<and> ds \<noteq> [] \<and> dropWhile is_digit r = ''Z''
              then Some (int (read_nat (take 3 (ds @ ''00'')))) else None))"

definition parse_iso :: "string \<Rightarrow> int option" where
  "parse_iso s =
     (case (read_field 0 4 s, read_field 5 2 s, read_field 8 2 s,
            read_field 11 2 s, read_field 14 2 s, read_field 17 2 s, read_fraction (drop 19 s)) of
        (Some y, Some mo, Some d, Some h, Some mi, Some se, Some f) \<Rightarrow>
          (if char_is 4 (CHR ''-'') s \<and> char_is 7 (CHR ''-'') s \<and> char_is 10 (CHR ''T'') s \<and>
              char_is 13 (CHR '':'') s \<and> char_is 16 (CHR '':'') s \<and>
              1 \<le> mo \<and> mo \<le> 12 \<and> 1 \<le> d \<and> d \<le> 31 \<and> h \<le> 23 \<and> mi \<le> 59 \<and> se \<le> 59
           then Some ((((days_of_civil y mo d * 24 + h) * 60 + mi) * 60 + se) * 1000 + f)
           else None)
      | _ \<Rightarrow> None)"

section \<open>The calendar\<close>

text \<open>The year of a 400 year era and the day of that year, from the day of the era.\<close>

definition year_of_era :: "int \<Rightarrow> int" where
  "year_of_era doe = (doe - doe div 1460 + doe div 36524 - doe div 146096) div 365"

definition day_of_year :: "int \<Rightarrow> int" where
  "day_of_year doe = (let y = year_of_era doe in doe - (365 * y + y div 4 - y div 100))"

lemma century_of_era:
  fixes doe :: int
  assumes "0 \<le> doe" and "doe < 146096"
  shows "year_of_era doe div 100 = doe div 36524"
proof -
  define q r c where "q = doe div 36524" and "r = doe mod 36524" and "c = doe div 1460"
  have doe: "doe = 36524 * q + r" "0 \<le> r" "r \<le> 36523" by (simp_all add: q_def r_def)
  have c: "1460 * c \<le> doe" "doe < 1460 * c + 1460" unfolding c_def by simp_all
  have q: "0 \<le> q" "q \<le> 3" using assms doe by linarith+
  let ?n = "doe - c + q"
  have "c \<le> 25 * q + r" using doe c q by linarith
  then have low: "36500 * q \<le> ?n" using doe by linarith
  have "25 * q + r - 36499 \<le> c" using doe c q by linarith
  then have "?n < 36500 * q + 36500" using doe by linarith
  with low have "100 * q \<le> ?n div 365" "?n div 365 < 100 * q + 100" by linarith+
  moreover have "year_of_era doe = ?n div 365"
    using assms by (simp add: year_of_era_def q_def c_def)
  ultimately have "year_of_era doe div 100 = q" by linarith
  then show ?thesis by (simp add: q_def)
qed

lemma era_bounds:
  assumes "0 \<le> doe" and "doe \<le> 146096"
  shows "0 \<le> year_of_era doe" and "year_of_era doe \<le> 399"
    and "0 \<le> day_of_year doe" and "day_of_year doe \<le> 365"
proof -
  have "0 \<le> year_of_era doe \<and> year_of_era doe \<le> 399 \<and> 0 \<le> day_of_year doe \<and> day_of_year doe \<le> 365"
  proof (cases "doe = 146096")
    case True
    then show ?thesis by (simp add: year_of_era_def day_of_year_def Let_def)
  next
    case False
    with assms have small: "doe < 146096" by simp
    define y q c where "y = year_of_era doe" and "q = doe div 36524" and "c = doe div 1460"
    have century: "y div 100 = q" using century_of_era [OF assms(1) small] by (simp add: y_def q_def)
    have c: "1460 * c \<le> doe" "doe < 1460 * c + 1460" unfolding c_def by simp_all
    have q: "0 \<le> q" "q \<le> 3" "36524 * q \<le> doe" unfolding q_def using assms(1) small by simp_all
    have "y = (doe - c + q) div 365" using assms(1) small by (simp add: y_def year_of_era_def q_def c_def)
    then have n: "365 * y \<le> doe - c + q" "doe - c + q < 365 * y + 365" by simp_all
    have y4: "4 * (y div 4) \<le> y" "y \<le> 4 * (y div 4) + 3" by simp_all
    have "y div 4 \<le> c" using c q n y4 by linarith
    moreover have "c \<le> y div 4 + 1" using c q n y4 small by linarith
    moreover have "day_of_year doe = doe - 365 * y - y div 4 + q"
      by (simp add: day_of_year_def y_def [symmetric] century Let_def)
    moreover have "0 \<le> y" "y \<le> 399" using century q(1,2) by linarith+
    ultimately show ?thesis using n by (simp add: y_def [symmetric])
  qed
  then show "0 \<le> year_of_era doe" "year_of_era doe \<le> 399" "0 \<le> day_of_year doe" "day_of_year doe \<le> 365"
    by blast+
qed

lemma civil_of_days_era:
  "civil_of_days z =
     (let doe = (z + 719468) mod 146097; mp = (5 * day_of_year doe + 2) div 153;
          m = (if mp < 10 then mp + 3 else mp - 9);
          y = year_of_era doe + (z + 719468) div 146097 * 400
      in (if m \<le> 2 then y + 1 else y, m, day_of_year doe - (153 * mp + 2) div 5 + 1))"
  unfolding civil_of_days_def Let_def year_of_era_def day_of_year_def by (rule refl)

lemma civil_of_days_valid:
  assumes "civil_of_days z = (y, m, d)"
  shows "1 \<le> m \<and> m \<le> 12 \<and> 1 \<le> d \<and> d \<le> 31 \<and> days_of_civil y m d = z"
proof -
  define doe where "doe = (z + 719468) mod 146097"
  define era where "era = (z + 719468) div 146097"
  define yoe where "yoe = year_of_era doe"
  define doy where "doy = day_of_year doe"
  define mp where "mp = (5 * doy + 2) div 153"
  have doe: "0 \<le> doe" "doe \<le> 146096" by (simp_all add: doe_def)
  have z: "z = era * 146097 + doe - 719468" by (simp add: doe_def era_def)
  note bounds = era_bounds [OF doe, folded yoe_def doy_def]
  have mp: "0 \<le> mp" "mp \<le> 11" "153 * mp \<le> 5 * doy + 2" "5 * doy + 2 < 153 * mp + 153"
    using bounds(3,4) unfolding mp_def by simp_all
  have doe_eq: "doe = yoe * 365 + yoe div 4 - yoe div 100 + doy"
    by (simp add: doy_def day_of_year_def yoe_def Let_def)
  have date: "m = (if mp < 10 then mp + 3 else mp - 9)" "d = doy - (153 * mp + 2) div 5 + 1"
    "y = (if m \<le> 2 then yoe + era * 400 + 1 else yoe + era * 400)"
    using assms unfolding civil_of_days_era Let_def doe_def [symmetric] era_def [symmetric]
      yoe_def [symmetric] doy_def [symmetric] mp_def [symmetric] Pair_inject by blast+
  have "1 \<le> d \<and> d \<le> 31"
  proof -
    define x where "x = (153 * mp + 2) div 5"
    have "5 * x \<le> 153 * mp + 2" "153 * mp + 2 < 5 * x + 5" unfolding x_def by simp_all
    with mp have "x \<le> doy" "doy \<le> x + 30" by linarith+
    then show ?thesis unfolding date(2) x_def [symmetric] by simp
  qed
  moreover have m: "1 \<le> m \<and> m \<le> 12" "(m + 9) mod 12 = mp"
    using mp by (auto simp: date(1))
  moreover have "(if m \<le> 2 then y - 1 else y) = yoe + era * 400" by (simp add: date(3))
  moreover have "(yoe + era * 400) div 400 = era" "(yoe + era * 400) mod 400 = yoe" using bounds(1,2) by simp_all
  moreover have "(153 * mp + 2) div 5 + d - 1 = doy" by (simp add: date(2))
  ultimately show ?thesis by (simp add: days_of_civil_def Let_def z doe_eq)
qed

section \<open>Texts of dates\<close>

lemma length_show_nat: "n < 10 ^ k \<Longrightarrow> 0 < k \<Longrightarrow> length (show_nat n) \<le> k"
proof (induction n arbitrary: k rule: show_nat.induct)
  case (1 n)
  show ?case
  proof (cases "n < 10")
    case True
    with "1.prems" show ?thesis by (subst show_nat.simps) simp
  next
    case False
    obtain j where k: "k = Suc j" using "1.prems"(2) by (cases k) simp_all
    moreover have "0 < j" using False "1.prems"(1) k by (cases j) simp_all
    moreover have "n div 10 < 10 ^ j" using "1.prems"(1) k by simp
    ultimately show ?thesis using "1.IH" [OF False, of j] False by (subst show_nat.simps) simp
  qed
qed

lemma is_digit_iff: "is_digit c \<longleftrightarrow> 48 \<le> char_code c \<and> char_code c \<le> 57"
  by (simp add: is_digit_def Let_def)

lemma pad_spec:
  assumes "0 \<le> i" and "i < 10 ^ k" and "0 < k"
  shows "length (pad k i) = k" and "list_all is_digit (pad k i)" and "int (read_nat (pad k i)) = i"
proof -
  have "nat i < 10 ^ k" using assms(1,2) by (simp add: nat_less_iff)
  then have "length (show_nat (nat i)) \<le> k" using assms(3) by (rule length_show_nat)
  then show "length (pad k i) = k" by (simp add: pad_def Let_def)
  have "is_digit (CHR ''0'')" by (simp add: is_digit_iff char_code_def)
  then show "list_all is_digit (pad k i)"
    using show_nat_digits [of _ "nat i"] by (auto simp: pad_def Let_def list_all_iff is_digit_iff)
  show "int (read_nat (pad k i)) = i"
    using assms(1) by (simp add: pad_def Let_def read_nat_append read_nat_zeros)
qed

lemma read_field_at:
  "length p = i \<Longrightarrow> length f = k \<Longrightarrow> list_all is_digit f \<Longrightarrow>
     read_field i k (p @ f @ r) = Some (int (read_nat f))"
  by (simp add: read_field_def Let_def)

lemma char_is_at: "length p = i \<Longrightarrow> char_is i c (p @ c # r)"
  by (simp add: char_is_def)

lemma read_fraction_digits:
  assumes "list_all is_digit f" and "length f = 3"
  shows "read_fraction (''.'' @ f @ ''Z'') = Some (int (read_nat f))"
proof -
  have "\<not> is_digit (CHR ''Z'')" by (simp add: is_digit_iff char_code_def)
  then have "takeWhile is_digit (f @ ''Z'') = f" "dropWhile is_digit (f @ ''Z'') = ''Z''"
    using assms(1) by (auto simp: list_all_iff takeWhile_append2 dropWhile_append2)
  moreover have "f \<noteq> []" using assms(2) by auto
  ultimately show ?thesis using assms(2) by (simp add: read_fraction_def Let_def)
qed

lemma parse_fields:
  assumes "length y = 4" "length mo = 2" "length d = 2" "length h = 2" "length mi = 2" "length se = 2"
    and "list_all is_digit y" "list_all is_digit mo" "list_all is_digit d" "list_all is_digit h"
      "list_all is_digit mi" "list_all is_digit se"
    and "read_fraction r = Some f"
    and "1 \<le> read_nat mo" "read_nat mo \<le> 12" "1 \<le> read_nat d" "read_nat d \<le> 31"
      "read_nat h \<le> 23" "read_nat mi \<le> 59" "read_nat se \<le> 59"
  shows "parse_iso (y @ ''-'' @ mo @ ''-'' @ d @ ''T'' @ h @ '':'' @ mi @ '':'' @ se @ r) =
    Some ((((days_of_civil (read_nat y) (read_nat mo) (read_nat d) * 24 + read_nat h) * 60 +
      read_nat mi) * 60 + read_nat se) * 1000 + f)"
proof -
  let ?s = "y @ ''-'' @ mo @ ''-'' @ d @ ''T'' @ h @ '':'' @ mi @ '':'' @ se @ r"
  have "read_field 0 4 ?s = Some (int (read_nat y))" "read_field 5 2 ?s = Some (int (read_nat mo))"
    "read_field 8 2 ?s = Some (int (read_nat d))" "read_field 11 2 ?s = Some (int (read_nat h))"
    "read_field 14 2 ?s = Some (int (read_nat mi))" "read_field 17 2 ?s = Some (int (read_nat se))"
    using assms
      read_field_at [of "[]" 0 y 4 "''-'' @ mo @ ''-'' @ d @ ''T'' @ h @ '':'' @ mi @ '':'' @ se @ r"]
      read_field_at [of "y @ ''-''" 5 mo 2 "''-'' @ d @ ''T'' @ h @ '':'' @ mi @ '':'' @ se @ r"]
      read_field_at [of "y @ ''-'' @ mo @ ''-''" 8 d 2 "''T'' @ h @ '':'' @ mi @ '':'' @ se @ r"]
      read_field_at [of "y @ ''-'' @ mo @ ''-'' @ d @ ''T''" 11 h 2 "'':'' @ mi @ '':'' @ se @ r"]
      read_field_at [of "y @ ''-'' @ mo @ ''-'' @ d @ ''T'' @ h @ '':''" 14 mi 2 "'':'' @ se @ r"]
      read_field_at [of "y @ ''-'' @ mo @ ''-'' @ d @ ''T'' @ h @ '':'' @ mi @ '':''" 17 se 2 r]
    by simp_all
  moreover have "char_is 4 (CHR ''-'') ?s" "char_is 7 (CHR ''-'') ?s" "char_is 10 (CHR ''T'') ?s"
    "char_is 13 (CHR '':'') ?s" "char_is 16 (CHR '':'') ?s"
    using assms(1-6) by (simp_all add: char_is_def)
  moreover have "drop 19 ?s = r" using assms(1-6) by simp
  ultimately show ?thesis using assms(13-) by (simp add: parse_iso_def)
qed

lemma civil_year_bounds:
  assumes "0 \<le> z" and "z < 2932897" and "civil_of_days z = (y, m, d)"
  shows "0 \<le> y \<and> y \<le> 9999"
proof -
  define doe where "doe = (z + 719468) mod 146097"
  define era where "era = (z + 719468) div 146097"
  define yoe where "yoe = year_of_era doe"
  define doy where "doy = day_of_year doe"
  have doe: "0 \<le> doe" "doe \<le> 146096" by (simp_all add: doe_def)
  have z: "z + 719468 = era * 146097 + doe" by (simp add: doe_def era_def)
  note bounds = era_bounds [OF doe, folded yoe_def doy_def]
  have era: "0 \<le> era" "era \<le> 24" using z doe assms(1,2) by linarith+
  have "0 \<le> (5 * doy + 2) div 153" using bounds(3) by simp
  then have y: "y = yoe + era * 400 \<or> y = yoe + era * 400 + 1 \<and> \<not> (5 * doy + 2) div 153 < 10"
    using assms(3) unfolding civil_of_days_era Let_def doe_def [symmetric] era_def [symmetric]
      yoe_def [symmetric] doy_def [symmetric] by (auto split: if_splits)
  moreover have "(5 * doy + 2) div 153 < 10" if "yoe = 399" "era = 24"
  proof -
    have "doe = yoe * 365 + yoe div 4 - yoe div 100 + doy"
      by (simp add: doy_def day_of_year_def yoe_def Let_def)
    then have "doy \<le> 305" using that z assms(2) by simp
    then show ?thesis by simp
  qed
  ultimately show ?thesis using bounds(1,2) era by (cases "yoe = 399 \<and> era = 24") auto
qed

text \<open>An instant of the years 1970 to 9999 is the one its text is read as.\<close>

lemma parse_to_iso:
  assumes "0 \<le> ms" and "ms < 253402300800000"
  shows "parse_iso (to_iso ms) = Some ms"
proof -
  obtain y m d where date: "civil_of_days (ms div 86400000) = (y, m, d)" by (cases "civil_of_days (ms div 86400000)")
  have "0 \<le> y \<and> y \<le> 9999" by (rule civil_year_bounds [OF _ _ date]) (use assms in simp_all)
  then have y: "0 \<le> y" "y < 10 ^ 4" by simp_all
  note valid = civil_of_days_valid [OF date]
  define t where "t = ms mod 86400000"
  have t: "0 \<le> t" "t < 86400000" by (simp_all add: t_def)
  define h mi se f where "h = t div 3600000" and "mi = t div 60000 mod 60" and "se = t div 1000 mod 60" and "f = t mod 1000"
  have bounds: "0 \<le> h" "h \<le> 23" "0 \<le> mi" "mi \<le> 59" "0 \<le> se" "se \<le> 59" "0 \<le> f" "f \<le> 999"
    using t by (simp_all add: h_def mi_def se_def f_def)
  have clock: "((h * 60 + mi) * 60 + se) * 1000 + f = t"
  proof -
    define a b where "a = t div 1000" and "b = a div 60"
    have "t div 60000 = b" "t div 3600000 = b div 60"
      using zdiv_zmult2_eq [of 60 t 1000] zdiv_zmult2_eq [of 60 t 60000] by (simp_all add: a_def b_def)
    then have "h * 60 + mi = b" "b * 60 + se = a" "a * 1000 + f = t"
      by (simp_all add: h_def mi_def se_def f_def a_def b_def)
    then show ?thesis by simp
  qed
  have iso: "to_iso ms = pad 4 y @ ''-'' @ pad 2 m @ ''-'' @ pad 2 d @ ''T'' @ pad 2 h @ '':'' @ pad 2 mi @ '':'' @
      pad 2 se @ ''.'' @ pad 3 f @ ''Z''"
    by (simp add: to_iso_def date Let_def t_def [symmetric] h_def mi_def se_def f_def)
  note pads = pad_spec [OF y] pad_spec [of m 2] pad_spec [of d 2] pad_spec [of h 2] pad_spec [of mi 2] pad_spec [of se 2] pad_spec [of f 3]
  have "parse_iso (to_iso ms) = Some ((((days_of_civil (read_nat (pad 4 y)) (read_nat (pad 2 m)) (read_nat (pad 2 d)) * 24 +
      read_nat (pad 2 h)) * 60 + read_nat (pad 2 mi)) * 60 + read_nat (pad 2 se)) * 1000 + read_nat (pad 3 f))"
    unfolding iso by (rule parse_fields) (use pads valid bounds in \<open>simp_all add: read_fraction_digits [simplified]\<close>)
  also have "\<dots> = Some ((((ms div 86400000 * 24 + h) * 60 + mi) * 60 + se) * 1000 + f)"
    using pads valid bounds by simp
  also have "(((ms div 86400000 * 24 + h) * 60 + mi) * 60 + se) * 1000 + f = ms div 86400000 * 86400000 + t"
    using clock by simp
  also have "\<dots> = ms" by (simp add: t_def)
  finally show ?thesis .
qed

end
