(* ===== verification/LiveHooks.thy ===== *)
theory LiveHooks
  imports Polling JsUrl JsDate
begin

text \<open>
  The live data hooks of \<open>src/api\<close>: \<open>useHubAgents\<close>, \<open>useHubAgentMetrics\<close>,
  \<open>useContainerMetrics\<close>, \<open>useMeta\<close>, \<open>useHubConfig\<close> as handlers of the scheduling
  of \<open>Polling\<close>, and \<open>useMetrics\<close>, which listens to a stream. The interface
  \<open>view_invariant\<close> is interpreted on the hooks whose view has an invariant.
\<close>

section \<open>Paths\<close>

text \<open>\<open>if (!agentId) return\<close>\<close>

definition given :: "string option \<Rightarrow> bool" where
  "given a = (a \<noteq> None \<and> a \<noteq> Some [])"

definition agent_path :: "string option \<Rightarrow> string \<Rightarrow> string" where
  "agent_path a leaf = ''/api/v1/agents/'' @ encode_uri_component (the a) @ ''/'' @ leaf"

definition container_path :: "string option \<Rightarrow> string" where
  "container_path c = ''/api/containers/'' @ encode_uri_component (the c) @ ''/metrics/current''"

section \<open>The agents of the hub\<close>

definition useHubAgents :: "(unit, agent_summary list, agent_summary list reply) handlers" where
  "useHubAgents =
     \<lparr> enabled = \<lambda>_. True, on_skip = \<lambda>v. v, on_start = \<lambda>v. v,
       on_reply = \<lambda>_ r v.
         (case or_default [] (apiGet ''/api/v1/agents'' r) of Inr data \<Rightarrow> data | Inl e \<Rightarrow> []),
       repeats = True \<rparr>"

section \<open>The metrics of an agent of the hub\<close>

text \<open>\<open>lastUpdate\<close> is \<open>null\<close> or a date, whose time value may be \<open>NaN\<close>.\<close>

record live_view =
  lv_snapshot :: "metrics_snapshot option"
  lv_live :: bool
  lv_update :: "int option option"

definition live_init :: live_view where
  "live_init = \<lparr> lv_snapshot = None, lv_live = False, lv_update = None \<rparr>"

text \<open>\<open>apply(snap)\<close>\<close>

definition live_apply :: "date_parser \<Rightarrow> metrics_snapshot \<Rightarrow> live_view \<Rightarrow> live_view" where
  "live_apply date s v =
     v\<lparr> lv_snapshot := Some s, lv_live := True, lv_update := Some (date (collectedAt s)) \<rparr>"

definition live_answer ::
  "date_parser \<Rightarrow> api_error + metrics_snapshot option \<Rightarrow> live_view \<Rightarrow> live_view" where
  "live_answer date res v =
     (case res of
        Inr (Some data) \<Rightarrow> live_apply date data v
      | Inr None \<Rightarrow> v
      | Inl e \<Rightarrow> v\<lparr> lv_live := False \<rparr>)"

definition useHubAgentMetrics ::
  "date_parser \<Rightarrow> (string option, live_view, metrics_snapshot reply) handlers" where
  "useHubAgentMetrics date =
     \<lparr> enabled = given, on_skip = \<lambda>v. v, on_start = \<lambda>v. v,
       on_reply = \<lambda>a r v. live_answer date (apiGet (agent_path a ''current'') r) v,
       repeats = True \<rparr>"

section \<open>The metrics of a container\<close>

record container_view =
  cv_snapshot :: "metrics_snapshot option"
  cv_unavailable :: bool
  cv_loading :: bool

definition container_init :: container_view where
  "container_init = \<lparr> cv_snapshot = None, cv_unavailable = False, cv_loading = False \<rparr>"

definition useContainerMetrics ::
  "(string option, container_view, metrics_snapshot reply) handlers" where
  "useContainerMetrics =
     \<lparr> enabled = given,
       on_skip = \<lambda>v. v\<lparr> cv_snapshot := None, cv_unavailable := False \<rparr>,
       on_start = \<lambda>v. v\<lparr> cv_loading := True \<rparr>,
       on_reply = \<lambda>c r v.
         (case apiGet (container_path c) r of
            Inr (Some s) \<Rightarrow>
              v\<lparr> cv_snapshot := Some s, cv_unavailable := False, cv_loading := False \<rparr>
          | Inr None \<Rightarrow> v\<lparr> cv_unavailable := True, cv_loading := False \<rparr>
          | Inl e \<Rightarrow> v\<lparr> cv_unavailable := True, cv_loading := False \<rparr>),
       repeats = False \<rparr>"

section \<open>The mode of the server\<close>

record meta_view =
  mv_meta :: "meta_response option"
  mv_error :: "string option"

definition meta_init :: meta_view where
  "meta_init = \<lparr> mv_meta = None, mv_error = None \<rparr>"

definition useMeta :: "(unit, meta_view, meta_response reply) handlers" where
  "useMeta =
     \<lparr> enabled = \<lambda>_. True, on_skip = \<lambda>v. v, on_start = \<lambda>v. v,
       on_reply = \<lambda>_ r v.
         (case apiGet ''/api/meta'' r of
            Inr (Some data) \<Rightarrow> v\<lparr> mv_meta := Some data \<rparr>
          | Inr None \<Rightarrow> v\<lparr> mv_error := Some ''meta unavailable'' \<rparr>
          | Inl e \<Rightarrow> v\<lparr> mv_error := Some (error_message e) \<rparr>),
       repeats = False \<rparr>"

text \<open>\<open>!meta && !error\<close>: an empty message counts as none.\<close>

definition meta_loading :: "meta_view \<Rightarrow> bool" where
  "meta_loading v = (mv_meta v = None \<and> (mv_error v = None \<or> mv_error v = Some []))"

section \<open>The configuration of the hub\<close>

record hub_config =
  historySize :: rat
  hc_version :: string
  collectionIntervalMs :: rat
  staleAfterMs :: rat
  offlineAfterMs :: rat

text \<open>The fields present in the answer.\<close>

record hub_config_json =
  j_historySize :: "rat option"
  j_version :: "string option"
  j_collectionIntervalMs :: "rat option"
  j_staleAfterMs :: "rat option"
  j_offlineAfterMs :: "rat option"

definition hub_config_defaults :: hub_config where
  "hub_config_defaults =
     \<lparr> historySize = 120, hc_version = [], collectionIntervalMs = 60000,
       staleAfterMs = 120000, offlineAfterMs = 86400000 \<rparr>"

definition over :: "'a \<Rightarrow> 'a option \<Rightarrow> 'a" where
  "over d v = (case v of None \<Rightarrow> d | Some x \<Rightarrow> x)"

definition merge_hub_config :: "hub_config_json \<Rightarrow> hub_config" where
  "merge_hub_config j =
     (let d = hub_config_defaults in
      \<lparr> historySize = over (historySize d) (j_historySize j),
        hc_version = over (hc_version d) (j_version j),
        collectionIntervalMs = over (collectionIntervalMs d) (j_collectionIntervalMs j),
        staleAfterMs = over (staleAfterMs d) (j_staleAfterMs j),
        offlineAfterMs = over (offlineAfterMs d) (j_offlineAfterMs j) \<rparr>)"

definition useHubConfig :: "(unit, hub_config, hub_config_json reply) handlers" where
  "useHubConfig =
     \<lparr> enabled = \<lambda>_. True, on_skip = \<lambda>v. v, on_start = \<lambda>v. v,
       on_reply = \<lambda>_ r v.
         (case apiGet ''/api/v1/hub/config'' r of
            Inr (Some data) \<Rightarrow> merge_hub_config data
          | Inr None \<Rightarrow> v
          | Inl e \<Rightarrow> v),
       repeats = False \<rparr>"

section \<open>The metrics stream of an agent\<close>

text \<open>
  \<open>useMetrics\<close> sends one request and listens to a stream; what reaches it is a
  sequence of events. The text of a message is parsed inside a \<open>try\<close> that ignores the
  error: for \<open>null\<close> the error comes after the first two of the three updates.
\<close>

datatype metrics_event =
    Current "metrics_snapshot reply"
  | Stream_Message "metrics_snapshot body"
  | Stream_Error

fun metrics_handle :: "date_parser \<Rightarrow> live_view \<Rightarrow> metrics_event \<Rightarrow> live_view" where
  "metrics_handle date v (Current r) = live_answer date (apiGet ''/api/metrics/current'' r) v"
| "metrics_handle date v (Stream_Message (Json s)) = live_apply date s v"
| "metrics_handle date v (Stream_Message JsonNull) = v\<lparr> lv_snapshot := None, lv_live := True \<rparr>"
| "metrics_handle date v (Stream_Message (Malformed m)) = v"
| "metrics_handle date v Stream_Error = v\<lparr> lv_live := False \<rparr>"

definition useMetrics :: "date_parser \<Rightarrow> metrics_event list \<Rightarrow> live_view" where
  "useMetrics date evs = foldl (metrics_handle date) live_init evs"

section \<open>Invariants of the views\<close>

text \<open>The time shown is that of the snapshot shown, and only a page with a snapshot says
  that it is live.\<close>

definition live_ok :: "date_parser \<Rightarrow> live_view \<Rightarrow> bool" where
  "live_ok date v =
     (case lv_snapshot v of
        None \<Rightarrow> \<not> lv_live v \<and> lv_update v = None
      | Some s \<Rightarrow> lv_update v = Some (date (collectedAt s)))"

lemma live_ok_init [simp]: "live_ok date live_init"
  by (simp add: live_ok_def live_init_def)

lemma live_ok_answer: "live_ok date v \<Longrightarrow> live_ok date (live_answer date res v)"
  by (auto simp: live_ok_def live_answer_def live_apply_def split: option.splits sum.splits)

interpretation agent_metrics:
  view_invariant "useHubAgentMetrics date" "\<lambda>_ _. True" "live_ok date" live_init
  for date
  by unfold_locales (simp_all add: useHubAgentMetrics_def live_ok_answer)

text \<open>The configuration the pages use is complete: a field is the default or comes from
  some answer the server gave.\<close>

definition from_answer :: "(hub_config_json \<Rightarrow> bool) \<Rightarrow> hub_config \<Rightarrow> bool" where
  "from_answer sent c = (c = hub_config_defaults \<or> (\<exists>j. sent j \<and> c = merge_hub_config j))"

interpretation config_view:
  view_invariant useHubConfig "\<lambda>_ r. \<forall>st j. r = Response st (Json j) \<longrightarrow> sent j"
    "from_answer sent" hub_config_defaults
  for sent
proof unfold_locales
  fix v :: hub_config and d :: unit and r
  assume v: "from_answer sent v" and r: "\<forall>st j. r = Response st (Json j) \<longrightarrow> sent j"
  show "from_answer sent (on_reply useHubConfig d r v)"
  proof (cases "apiGet ''/api/v1/hub/config'' r")
    case (Inr o')
    with v r show ?thesis
      by (cases o') (auto simp: useHubConfig_def from_answer_def apiGet_data_iff)
  qed (simp add: useHubConfig_def v)
qed (simp_all add: useHubConfig_def from_answer_def)

section \<open>Properties\<close>

text \<open>In every reachable state of \<open>useHubAgentMetrics\<close>, whatever the order of the
  replies, the failures and the changes of agent, the time shown is that of the
  snapshot shown, and the page says it is live only when it shows a snapshot.\<close>

lemma agent_metrics_consistent:
  assumes "poll_reachable (useHubAgentMetrics date) (\<lambda>_ _. True) live_init st"
  shows "live_ok date (view st)"
  using assms by (rule agent_metrics.good_reachable)

text \<open>The server answers every request with the snapshot of the agent it was asked for.\<close>

definition truthful :: "(string \<Rightarrow> 'a) \<Rightarrow> string option \<Rightarrow> 'a reply \<Rightarrow> bool" where
  "truthful server a r = (r = Response 200 (Json (server (the a))))"

text \<open>The user goes from \<open>d\<close> to \<open>d'\<close> and the answers come in the other order.\<close>

definition overtaken ::
  "('d, 'v, 'r) handlers \<Rightarrow> 'v \<Rightarrow> 'd \<Rightarrow> 'r \<Rightarrow> 'd \<Rightarrow> 'r \<Rightarrow> ('d, 'v) poll" where
  "overtaken h v d r d' r' =
     poll_arrive h 0 r (poll_arrive h 1 r' (poll_effect h d' (poll_mount h v d)))"

lemma overtaken_reachable:
  assumes "enabled h d" and "enabled h d'" and "d \<noteq> d'" and "answers d r" and "answers d' r'"
  shows "poll_reachable h answers v (overtaken h v d r d' r')"
proof -
  have "poll_reachable h answers v (poll_effect h d' (poll_mount h v d))"
    by (rule poll_reachable.step [OF poll_reachable.mount poll_step.rerun], insert assms)
       (simp_all add: hook_defs Let_def)
  then have "poll_reachable h answers v (poll_arrive h 1 r' (poll_effect h d' (poll_mount h v d)))"
    by (rule poll_reachable.step) (rule poll_step.arrive, insert assms, simp_all add: hook_defs Let_def)
  then show ?thesis unfolding overtaken_def
    by (rule poll_reachable.step) (rule poll_step.arrive, insert assms, simp_all add: hook_defs Let_def)
qed

lemma overtaken_state:
  assumes "enabled h d" and "enabled h d'"
  shows "mounted (overtaken h v d r d' r')" and "dep (overtaken h v d r d' r') = d'"
    and "inflight (overtaken h v d r d' r') = []"
    and "view (overtaken h v d r d' r') = on_reply h d r (on_reply h d' r' (on_start h (on_start h v)))"
  using assms by (simp_all add: overtaken_def hook_defs Let_def)

text \<open>C14: the replies of a previous agent are not discarded: whatever two agents the user
  visits one after the other, there is a run in which the page of the second one shows
  the snapshot of the first one, as live, with no request outstanding. The server
  answers truthfully.\<close>

theorem previous_agent_overwrites:
  assumes "given (Some a)" and "given (Some b)" and "a \<noteq> b"
  shows "\<exists>st. poll_reachable (useHubAgentMetrics date) (truthful server) live_init st \<and>
    mounted st \<and> dep st = Some b \<and> inflight st = [] \<and>
    lv_snapshot (view st) = Some (server a) \<and> lv_live (view st)"
proof -
  let ?h = "useHubAgentMetrics date" and ?r = "\<lambda>a. Response 200 (Json (server a))"
  let ?st = "overtaken ?h live_init (Some a) (?r a) (Some b) (?r b)"
  have on: "enabled ?h (Some a)" "enabled ?h (Some b)" using assms by (simp_all add: useHubAgentMetrics_def)
  have "poll_reachable ?h (truthful server) live_init ?st"
    using on assms by (intro overtaken_reachable) (simp_all add: truthful_def)
  moreover have "on_reply ?h (Some a) (?r a) v = live_apply date (server a) v" for v
    by (simp add: useHubAgentMetrics_def live_answer_def is_ok_def)
  then have "view ?st = live_apply date (server a) (on_reply ?h (Some b) (?r b) (on_start ?h (on_start ?h live_init)))"
    by (simp only: overtaken_state(4) [OF on])
  ultimately show ?thesis
    using overtaken_state(1-3) [OF on, of live_init "?r a" "?r b"] by (force simp: live_apply_def)
qed

lemma agent_metrics_consistent_witness:
  "live_ok parse_iso (view (poll_mount (useHubAgentMetrics parse_iso) live_init (Some ''a'')))"
  by (rule agent_metrics_consistent [OF poll_reachable.mount])

theorem previous_agent_overwrites_witness:
  "\<exists>st. poll_reachable (useHubAgentMetrics parse_iso) (truthful snapshot_at) live_init st \<and>
    dep st = Some ''b'' \<and> lv_snapshot (view st) = Some (snapshot_at ''a'')"
  using previous_agent_overwrites [of "''a''" "''b''" parse_iso snapshot_at] by (auto simp: given_def)

section \<open>Properties of the other hooks\<close>

text \<open>While the page of a container is loading there is a request in flight.\<close>

lemma container_loading_inflight:
  assumes "poll_reachable useContainerMetrics (\<lambda>_ _. True) container_init st"
  shows "mounted st \<and> cv_loading (view st) \<longrightarrow> inflight st \<noteq> []"
  using assms
proof (induction rule: poll_reachable.induct)
  case (mount d)
  show ?case by (simp add: hook_defs Let_def useContainerMetrics_def container_init_def)
next
  case (step st st')
  from step(2) step(3) show ?case
    by cases (auto simp: hook_defs Let_def useContainerMetrics_def split: sum.splits option.splits)
qed

text \<open>The loading indicator of the container page ends: while the mounted page is
  loading there is a request in flight, and whichever reply comes first, a failure
  included, ends it.\<close>

lemma container_loading_ends:
  assumes "poll_reachable useContainerMetrics (\<lambda>_ _. True) container_init st"
    and "mounted st" and "cv_loading (view st)"
  shows "inflight st \<noteq> [] \<and> \<not> cv_loading (view (poll_arrive useContainerMetrics i r st))"
proof
  show "inflight st \<noteq> []" using container_loading_inflight [OF assms(1)] assms(2,3) by blast
  show "\<not> cv_loading (view (poll_arrive useContainerMetrics i r st))"
    using assms(2) by (simp add: poll_arrive_def useContainerMetrics_def split: sum.split option.split)
qed

lemma container_loading_ends_witness:
  "inflight (poll_mount useContainerMetrics container_init (Some ''a'')) \<noteq> []"
  using container_loading_ends [OF poll_reachable.mount, of "Some ''a''" 0 "Network_Failure []"]
  by (simp add: hook_defs Let_def useContainerMetrics_def given_def)

text \<open>Going from one container to another leaves the snapshot of the first one in
  place until the second one's arrives: nothing clears it when the load starts, and if
  the load fails it stays, next to the error.\<close>

lemma previous_container_kept:
  assumes "mounted st" and "given (Some b)" and "inflight st = []"
  shows "let st1 = poll_effect useContainerMetrics (Some b) st;
      st2 = poll_arrive useContainerMetrics 0 (Network_Failure m) st1 in
    dep st1 = Some b \<and> cv_snapshot (view st1) = cv_snapshot (view st) \<and>
    cv_unavailable (view st1) = cv_unavailable (view st) \<and>
    dep st2 = Some b \<and> cv_snapshot (view st2) = cv_snapshot (view st) \<and>
    cv_unavailable (view st2) \<and> inflight st2 = []"
  using assms by (simp add: hook_defs Let_def useContainerMetrics_def)

lemma previous_container_kept_witness:
  "let st = poll_arrive useContainerMetrics 0 (Response 200 (Json (snapshot_at ''t'')))
        (poll_mount useContainerMetrics container_init (Some ''a''))
   in cv_snapshot (view (poll_effect useContainerMetrics (Some ''b'') st)) = Some (snapshot_at ''t'')"
proof -
  let ?st = "poll_arrive useContainerMetrics 0 (Response 200 (Json (snapshot_at ''t'')))
        (poll_mount useContainerMetrics container_init (Some ''a''))"
  have "mounted ?st" "given (Some ''b'')" "inflight ?st = []"
    and "cv_snapshot (view ?st) = Some (snapshot_at ''t'')"
    by (simp_all add: hook_defs Let_def useContainerMetrics_def given_def container_path_def is_ok_def)
  then show ?thesis using previous_container_kept [of ?st "''b''"] by (simp add: Let_def)
qed

lemma meta_one_reply:
  assumes "poll_reachable useMeta (\<lambda>_ _. True) meta_init st" and "mounted st"
  shows "(inflight st = [()] \<and> view st = meta_init) \<or>
    (inflight st = [] \<and> (mv_meta (view st) = None) = (mv_error (view st) \<noteq> None))"
proof -
  have "mounted st \<longrightarrow> (inflight st = [()] \<and> view st = meta_init) \<or>
      (inflight st = [] \<and> (mv_meta (view st) = None) = (mv_error (view st) \<noteq> None))"
    using assms(1)
  proof (induction rule: poll_reachable.induct)
    case (mount d)
    show ?case by (simp add: hook_defs Let_def useMeta_def)
  next
    case (step st st')
    have "\<not> ticking st" using poll_reachable_wf [OF step(1)] by (auto simp: useMeta_def)
    with step(2,3) show ?case
      by cases (auto simp: hook_defs Let_def useMeta_def meta_init_def split: sum.splits option.splits)
  qed
  with assms(2) show ?thesis by blast
qed

text \<open>The application decides its mode exactly once: until the reply to its only
  request is there it has neither a mode nor an error, and from then on exactly one of
  them.\<close>

lemma meta_decided_once:
  assumes "poll_reachable useMeta (\<lambda>_ _. True) meta_init st" and "mounted st"
  shows "if inflight st = [] then (mv_meta (view st) = None) = (mv_error (view st) \<noteq> None)
    else inflight st = [()] \<and> meta_loading (view st)"
  using meta_one_reply [OF assms] by (auto simp: meta_loading_def meta_init_def)

lemma meta_decided_once_witness:
  "meta_loading (view (poll_mount useMeta meta_init ()))"
  using meta_decided_once [OF poll_reachable.mount, of "()"]
  by (simp add: hook_defs Let_def useMeta_def)

text \<open>The configuration of the hub that the pages use is complete at every moment: it
  is the built-in one or the one of some answer of the server with the built-in values
  in place of the missing fields.\<close>

lemma hub_config_complete:
  assumes "poll_reachable useHubConfig (\<lambda>_ r. \<forall>st j. r = Response st (Json j) \<longrightarrow> sent j)
    hub_config_defaults st"
  shows "view st = hub_config_defaults \<or> (\<exists>j. sent j \<and> view st = merge_hub_config j)"
  using config_view.good_reachable [OF assms] by (simp add: from_answer_def)

lemma hub_config_complete_witness:
  "view (poll_mount useHubConfig hub_config_defaults ()) = hub_config_defaults"
  using hub_config_complete [OF poll_reachable.mount, of "()" "\<lambda>_. False"] by simp

section \<open>The stream\<close>

text \<open>What an event says of the agent: that it answers, that it does not, or nothing;
  and the snapshot it carries.\<close>

fun carried :: "metrics_event \<Rightarrow> metrics_snapshot option" where
  "carried (Current r) =
     (case apiGet ''/api/metrics/current'' r of Inr (Some s) \<Rightarrow> Some s | _ \<Rightarrow> None)"
| "carried (Stream_Message (Json s)) = Some s"
| "carried _ = None"

fun failed :: "metrics_event \<Rightarrow> bool" where
  "failed (Current r) = (case apiGet ''/api/metrics/current'' r of Inl e \<Rightarrow> True | _ \<Rightarrow> False)"
| "failed Stream_Error = True"
| "failed _ = False"

definition latest :: "metrics_event list \<Rightarrow> metrics_snapshot option" where
  "latest evs = (let ss = List.map_filter carried evs in if ss = [] then None else Some (last ss))"

lemma latest_snoc:
  "latest [] = None"
  "latest (evs @ [e]) = (case carried e of None \<Rightarrow> latest evs | Some s \<Rightarrow> Some s)"
  by (simp_all add: latest_def map_filter_def Let_def split: option.split)

lemma handle_fields:
  assumes "e \<noteq> Stream_Message JsonNull"
  shows "lv_snapshot (metrics_handle date v e) = (case carried e of None \<Rightarrow> lv_snapshot v | Some s \<Rightarrow> Some s)"
    and "lv_update (metrics_handle date v e) =
      (case carried e of None \<Rightarrow> lv_update v | Some s \<Rightarrow> Some (date (collectedAt s)))"
    and "lv_live (metrics_handle date v e) = (carried e \<noteq> None \<or> (lv_live v \<and> \<not> failed e))"
  using assms
  by (cases "(date, v, e)" rule: metrics_handle.cases;
      force simp: live_answer_def live_apply_def split: sum.split option.split)+

text \<open>C38: what the dashboard of an agent shows depends on what arrived last only: the
  snapshot is that of the latest event that carried one and the time is its time, and
  the page is live exactly when no failure came after it. (The server sends no
  \<open>null\<close> on the stream.)\<close>

theorem useMetrics_latest:
  assumes "Stream_Message JsonNull \<notin> set evs"
  shows "lv_snapshot (useMetrics date evs) = latest evs \<and>
    lv_update (useMetrics date evs) = map_option (\<lambda>s. date (collectedAt s)) (latest evs) \<and>
    lv_live (useMetrics date evs) =
      (\<exists>pre e post. evs = pre @ e # post \<and> carried e \<noteq> None \<and> list_all (\<lambda>x. \<not> failed x) post)"
  using assms
proof (induction evs rule: rev_induct)
  case Nil
  then show ?case by (simp add: useMetrics_def live_init_def latest_snoc)
next
  case (snoc e evs)
  let ?live = "\<lambda>evs. \<exists>pre e post. evs = pre @ e # post \<and> carried e \<noteq> None \<and> list_all (\<lambda>x. \<not> failed x) post"
  have split: "?live (evs @ [e]) \<longleftrightarrow> carried e \<noteq> None \<or> (?live evs \<and> \<not> failed e)"
  proof
    assume "?live (evs @ [e])"
    then obtain pre x post where *: "evs @ [e] = pre @ x # post" "carried x \<noteq> None"
      "list_all (\<lambda>x. \<not> failed x) post" by blast
    then show "carried e \<noteq> None \<or> (?live evs \<and> \<not> failed e)"
    proof (cases post rule: rev_cases)
      case (snoc ys y)
      with * have "evs = pre @ x # ys" "list_all (\<lambda>x. \<not> failed x) ys" "\<not> failed e" by simp_all
      with *(2) show ?thesis by blast
    qed simp
  next
    assume "carried e \<noteq> None \<or> (?live evs \<and> \<not> failed e)"
    then show "?live (evs @ [e])"
    proof
      assume "carried e \<noteq> None"
      then show ?thesis by (intro exI [of _ evs] exI [of _ e] exI [of _ "[]"]) simp
    next
      assume "?live evs \<and> \<not> failed e"
      then obtain pre x post where "evs = pre @ x # post" "carried x \<noteq> None"
        "list_all (\<lambda>x. \<not> failed x) post" "\<not> failed e" by blast
      then show ?thesis by (intro exI [of _ pre] exI [of _ x] exI [of _ "post @ [e]"]) simp
    qed
  qed
  let ?v = "useMetrics date evs" and ?w = "useMetrics date (evs @ [e])"
  have w: "?w = metrics_handle date ?v e" by (simp add: useMetrics_def)
  have event: "lv_snapshot ?w = (case carried e of None \<Rightarrow> lv_snapshot ?v | Some s \<Rightarrow> Some s)"
      "lv_update ?w = (case carried e of None \<Rightarrow> lv_update ?v | Some s \<Rightarrow> Some (date (collectedAt s)))"
      "lv_live ?w = (carried e \<noteq> None \<or> (lv_live ?v \<and> \<not> failed e))"
    unfolding w by (rule handle_fields, use snoc.prems in fastforce)+
  have "Stream_Message JsonNull \<notin> set evs" using snoc.prems by simp
  note old = snoc.IH [OF this]
  show ?case
    unfolding event split latest_snoc using old by (cases "carried e") (simp_all only: option.case option.map simp_thms)
qed

theorem useMetrics_latest_witness:
  "lv_live (useMetrics parse_iso [Current (Response 204 JsonNull), Stream_Error,
     Stream_Message (Json (snapshot_at ''t''))])"
  using useMetrics_latest [of "[Current (Response 204 JsonNull), Stream_Error,
     Stream_Message (Json (snapshot_at ''t''))]" parse_iso]
  by (simp add: useMetrics_def live_apply_def)

end
