(* ===== verification/JsQuery.thy ===== *)
theory JsQuery
  imports JsUrl
begin

text \<open>
  Reading a query string back: \<open>new URLSearchParams(text)\<close> splits at the separators,
  turns \<open>+\<close> into a space, percent-decodes to bytes and decodes these as UTF-8. A string
  of the model has code units below 256, so that a decoding outside of them (which the
  code would do) is \<open>None\<close>. The lemmas show that it reads back what \<open>toString\<close> and
  what \<open>encodeURIComponent\<close> wrote.
\<close>

definition hex_value :: "char \<Rightarrow> nat option" where
  "hex_value c =
     (let n = char_code c in
      if 48 \<le> n \<and> n \<le> 57 then Some (n - 48)
      else if 65 \<le> n \<and> n \<le> 70 then Some (n - 55)
      else if 97 \<le> n \<and> n \<le> 102 then Some (n - 87)
      else None)"

definition hex_byte :: "string \<Rightarrow> nat option" where
  "hex_byte cs =
     (case cs of
        h # l # rest \<Rightarrow>
          (case (hex_value h, hex_value l) of (Some a, Some b) \<Rightarrow> Some (16 * a + b) | _ \<Rightarrow> None)
      | _ \<Rightarrow> None)"

function form_bytes :: "string \<Rightarrow> nat list" where
  "form_bytes [] = []"
| "form_bytes (c # cs) =
     (if c = CHR ''+'' then 32 # form_bytes cs
      else if c = CHR ''%'' then
        (case hex_byte cs of
           Some b \<Rightarrow> b # form_bytes (drop 2 cs)
         | None \<Rightarrow> 37 # form_bytes cs)
      else utf8_bytes (char_code c) @ form_bytes cs)"
  by pat_completeness auto
termination by (relation "measure length") auto

fun utf8_decode :: "nat list \<Rightarrow> string option" where
  "utf8_decode [] = Some []"
| "utf8_decode (b # bs) =
     (if b < 128 then map_option ((#) (char_of b)) (utf8_decode bs)
      else (case bs of
              [] \<Rightarrow> None
            | b' # rest \<Rightarrow>
                if 194 \<le> b \<and> b < 196 \<and> 128 \<le> b' \<and> b' < 192
                then map_option ((#) (char_of (64 * (b - 192) + (b' - 128)))) (utf8_decode rest)
                else None))"

definition form_decode :: "string \<Rightarrow> string option" where
  "form_decode s = utf8_decode (form_bytes s)"

text \<open>A piece without \<open>=\<close> is a name with the empty value.\<close>

definition parse_pair :: "string \<Rightarrow> (string \<times> string) option" where
  "parse_pair piece =
     (case (form_decode (takeWhile (\<lambda>c. c \<noteq> CHR ''='') piece),
            form_decode (drop 1 (dropWhile (\<lambda>c. c \<noteq> CHR ''='') piece))) of
        (Some k, Some v) \<Rightarrow> Some (k, v)
      | _ \<Rightarrow> None)"

fun all_some :: "'a option list \<Rightarrow> 'a list option" where
  "all_some [] = Some []"
| "all_some (None # xs) = None"
| "all_some (Some x # xs) = map_option ((#) x) (all_some xs)"

definition params_parse :: "string \<Rightarrow> params option" where
  "params_parse s =
     all_some (map parse_pair (non_empty (split_on (\<lambda>c. c = CHR ''&'') s)))"

section \<open>Decoding what was encoded\<close>

lemma hex_value_digit: "n < 16 \<Longrightarrow> hex_value (hex_digit n) = Some n"
proof -
  have "\<forall>n\<in>set [0..<16]. hex_value (hex_digit n) = Some n" by code_simp
  then show "n < 16 \<Longrightarrow> hex_value (hex_digit n) = Some n" by simp
qed

lemma form_bytes_percent: "b < 256 \<Longrightarrow> form_bytes (percent b @ r) = b # form_bytes r"
  by (simp add: percent_def hex_byte_def hex_value_digit)

lemma form_bytes_percents:
  "\<forall>b\<in>set bs. b < 256 \<Longrightarrow> form_bytes (concat (map percent bs) @ r) = bs @ form_bytes r"
  by (induction bs) (simp_all add: form_bytes_percent del: form_bytes.simps)

lemma char_bytes_less: "\<forall>b\<in>set (utf8_bytes (char_code c)). b < 256"
  using utf8_bytes_less [OF char_code_less_256] by blast

lemma plain_chars:
  "unreserved c \<Longrightarrow> c \<noteq> CHR ''+'' \<and> c \<noteq> CHR ''%''"
  by (auto simp: unreserved_def is_alnum_def char_code_def)

lemma form_bytes_encode_char: "form_bytes (encode_char c @ r) = utf8_bytes (char_code c) @ form_bytes r"
  using plain_chars [of c]
  by (cases "unreserved c") (simp_all add: encode_char_def form_bytes_percents char_bytes_less)

lemma form_bytes_form_char: "form_bytes (form_char c @ r) = utf8_bytes (char_code c) @ form_bytes r"
proof (cases "is_alnum c \<or> c \<in> set ''*-._''")
  case True
  then have "unreserved c" by (auto simp: unreserved_def)
  with True show ?thesis using plain_chars [of c] by (auto simp: form_char_def)
next
  case False
  have "utf8_bytes (char_code (CHR '' '')) = [32]" by code_simp
  with False show ?thesis
    by (cases "c = CHR '' ''") (simp_all add: form_char_def form_bytes_percents char_bytes_less)
qed

lemma utf8_decode_char:
  "utf8_decode (utf8_bytes (char_code c) @ bs) = map_option ((#) c) (utf8_decode bs)"
proof -
  let ?n = "char_code c"
  have "char_of ?n = c" by (simp add: char_code_def)
  moreover have "64 * (?n div 64) + ?n mod 64 = ?n" by simp
  moreover have "\<not> ?n < 128 \<Longrightarrow> 2 \<le> ?n div 64" by linarith
  moreover have "?n div 64 < 4" using char_code_less_256 [of c] by linarith
  ultimately show ?thesis by (simp add: utf8_bytes_def)
qed

lemma utf8_decode_chars: "utf8_decode (concat (map (\<lambda>c. utf8_bytes (char_code c)) s)) = Some s"
  by (induction s) (simp_all add: utf8_decode_char del: utf8_decode.simps(2))

lemma form_bytes_chars:
  assumes "\<And>c r. form_bytes (enc c @ r) = utf8_bytes (char_code c) @ form_bytes r"
  shows "form_bytes (concat (map enc s)) = concat (map (\<lambda>c. utf8_bytes (char_code c)) s)"
  by (induction s) (simp_all add: assms)

lemma form_decode_encode_uri [simp]: "form_decode (encode_uri_component s) = Some s"
  by (simp add: form_decode_def encode_uri_component_def form_bytes_chars form_bytes_encode_char
      utf8_decode_chars)

lemma form_decode_form_encode [simp]: "form_decode (form_encode s) = Some s"
  by (simp add: form_decode_def form_encode_def form_bytes_chars form_bytes_form_char utf8_decode_chars)

lemma form_char_safe: "c \<in> set (form_char d) \<Longrightarrow> unreserved c \<or> c = CHR ''%'' \<or> c = CHR ''+''"
  by (auto simp: form_char_def unreserved_def split: if_splits
      dest!: percent_safe dest: utf8_bytes_less [OF char_code_less_256])

lemma form_encode_no_delimiter: "set (form_encode s) \<inter> set ''/?#&='' = {}"
  using form_char_safe delimiters_reserved by (fastforce simp: form_encode_def)

lemma parse_pair_encoded:
  assumes "form_decode k' = Some k" and "form_decode v' = Some v" and "CHR ''='' \<notin> set k'"
  shows "parse_pair (k' @ ''='' @ v') = Some (k, v)"
proof -
  have "takeWhile (\<lambda>c. c \<noteq> CHR ''='') (k' @ ''='' @ v') = k'"
    "dropWhile (\<lambda>c. c \<noteq> CHR ''='') (k' @ ''='' @ v') = ''='' @ v'"
    using assms(3) by (induction k') auto
  with assms(1,2) show ?thesis by (simp add: parse_pair_def)
qed

lemma all_some_map_Some [simp]: "all_some (map Some xs) = Some xs"
  by (induction xs) simp_all

lemma split_on_join:
  assumes "ws \<noteq> []" and "\<forall>w\<in>set ws. d \<notin> set w"
  shows "split_on (\<lambda>c. c = d) (join [d] ws) = ws"
  using assms
proof (induction "[d]" ws rule: join.induct)
  case (2 w)
  then show ?case using split_on_no_sep [of w "\<lambda>c. c = d"] by auto
next
  case (3 w v ws)
  then have "split_on (\<lambda>c. c = d) w = [w]" by (intro split_on_no_sep) auto
  with 3 show ?case by (simp add: split_on_append_sep)
qed simp

text \<open>What \<open>toString\<close> writes is read back unchanged.\<close>

lemma params_parse_to_string [simp]: "params_parse (params_to_string ps) = Some ps"
proof (cases "ps = []")
  case False
  let ?piece = "\<lambda>(k, v). form_encode k @ ''='' @ form_encode v"
  have free: "CHR ''='' \<notin> set (form_encode s)" "CHR ''&'' \<notin> set (form_encode s)" for s
    using form_encode_no_delimiter [of s] by auto
  have "split_on (\<lambda>c. c = CHR ''&'') (params_to_string ps) = map ?piece ps"
    unfolding params_to_string_def using False free by (intro split_on_join) auto
  moreover have "non_empty (map ?piece ps) = map ?piece ps"
    by (auto simp: non_empty_def filter_id_conv)
  moreover have "map parse_pair (map ?piece ps) = map Some ps"
    using parse_pair_encoded free by (auto simp del: append.simps)
  ultimately show ?thesis by (simp only: params_parse_def all_some_map_Some)
qed (simp add: params_to_string_def params_parse_def non_empty_def)

lemma params_parse_link:
  assumes "form_encode k = k"
  shows "params_parse (k @ ''='' @ encode_uri_component v) = Some [(k, v)]"
proof -
  have k: "CHR ''='' \<notin> set k" "CHR ''&'' \<notin> set k" "form_decode k = Some k"
    using form_encode_no_delimiter [of k] form_decode_form_encode [of k] assms by auto
  have "CHR ''&'' \<notin> set (k @ ''='' @ encode_uri_component v)"
    using k encode_no_delimiter [of v] by auto
  then have "split_on (\<lambda>c. c = CHR ''&'') (k @ ''='' @ encode_uri_component v) =
      [k @ ''='' @ encode_uri_component v]" by (intro split_on_no_sep) auto
  with parse_pair_encoded [OF k(3) form_decode_encode_uri k(1)] show ?thesis
    by (simp add: params_parse_def non_empty_def del: append.simps)
qed

end
