(* ===== verification/Navigation.thy ===== *)
theory Navigation
  imports LiveHooks JsQuery
begin

text \<open>
  Where the pages are and how they link to each other:
  \<open>src/hooks/useAgentBasePath.ts\<close> (the paths below the current agent),
  \<open>src/app/router.tsx\<close> (the table of routes), \<open>src/app/AppShell.tsx\<close> (on which
  routes the switch between live and history is shown) and \<open>src/app/AppLayout.tsx\<close>
  (what is shown before the mode of the server is known). Matching a location with the
  routes is the router library's; its parameters are arguments here.
\<close>

section \<open>Paths below an agent\<close>

definition is_hub :: "meta_response option \<Rightarrow> bool" where
  "is_hub meta = (case meta of None \<Rightarrow> False | Some m \<Rightarrow> mode m = Hub_Mode)"

text \<open>\<open>param\<close> is the parameter \<open>agentId\<close> of the route, \<open>matched\<close> the one of the explicit match
  with \<open>/hub/agents/:agentId/*\<close>.\<close>

definition useAgentBasePath ::
  "meta_response option \<Rightarrow> string option \<Rightarrow> string option \<Rightarrow> string" where
  "useAgentBasePath meta param matched =
     (if is_hub meta \<and> (given param \<or> given matched)
      then ''/hub/agents/'' @
        encode_uri_component (case param of Some a \<Rightarrow> a | None \<Rightarrow> the matched)
      else [])"

definition useAgentHref :: "string \<Rightarrow> string option \<Rightarrow> params option \<Rightarrow> string" where
  "useAgentHref base segment query =
     (let path =
        (if \<not> given segment then (if base \<noteq> [] then base else ''/'')
         else if base \<noteq> [] then base @ ''/'' @ the segment
         else ''/'' @ the segment)
      in case query of
           None \<Rightarrow> path
         | Some q \<Rightarrow> if q = [] then path else path @ ''?'' @ params_to_string q)"

definition useIsHubAgentContext :: "string \<Rightarrow> bool" where
  "useIsHubAgentContext base = starts_with base ''/hub/agents/''"

section \<open>Routes\<close>

datatype page =
    Dashboard | Processes | Services | Containers | Container_Metrics
  | Hub_Overview | Diagnostics_Page | Alerts_Page | Redirect_Hub | Redirect_Home

text \<open>The routes of the table that have a fixed path, and those below an agent; the index
  route of an agent has the empty path. All other paths redirect to \<open>/\<close>.\<close>

definition top_routes :: "(string \<times> page) list" where
  "top_routes =
     [(''/'', Dashboard), (''/processes'', Processes), (''/services'', Services),
      (''/containers'', Containers), (''/container-metrics'', Container_Metrics),
      (''/hub'', Hub_Overview), (''/diagnostics'', Redirect_Hub), (''/alerts'', Redirect_Hub)]"

definition agent_routes :: "(string \<times> page) list" where
  "agent_routes =
     [([], Dashboard), (''processes'', Processes), (''services'', Services),
      (''containers'', Containers), (''container-metrics'', Container_Metrics),
      (''diagnostics'', Diagnostics_Page), (''alerts'', Alerts_Page)]"

text \<open>The pages that call \<open>useHistoryView\<close> and show another content in history mode.\<close>

definition shows_history :: "page \<Rightarrow> bool" where
  "shows_history p = (p \<in> {Dashboard, Processes, Services, Containers, Container_Metrics})"

definition agent_route_path :: "string \<Rightarrow> string \<Rightarrow> string" where
  "agent_route_path base segment =
     useAgentHref base (if segment = [] then None else Some segment) None"

section \<open>The switch between live and history\<close>

definition history_segments :: "string list" where
  "history_segments = [''processes'', ''services'', ''containers'', ''container-metrics'']"

definition isHistoryCapableRoute :: "string \<Rightarrow> bool" where
  "isHistoryCapableRoute p =
     (p = ''/'' \<or>
      list_ex (\<lambda>seg. p = ''/'' @ seg \<or> starts_with p (''/'' @ seg @ ''/'')) history_segments \<or>
      (starts_with p ''/hub/agents/'' \<and>
       (let r = drop 12 p; rest = dropWhile (\<lambda>c. c \<noteq> CHR ''/'') r
        in takeWhile (\<lambda>c. c \<noteq> CHR ''/'') r \<noteq> [] \<and>
           (rest = [] \<or> list_ex (\<lambda>seg. rest = ''/'' @ seg) history_segments))))"

section \<open>The frame of the application\<close>

text \<open>The navigation in agent mode: target, label key, and whether the target must match
  to its end to be marked active.\<close>

definition agentNav :: "(string \<times> string \<times> bool) list" where
  "agentNav =
     [(''/'', ''nav.dashboard'', True), (''/processes'', ''nav.processes'', False),
      (''/services'', ''nav.services'', False), (''/containers'', ''nav.containers'', False)]"

record shell =
  sh_mode :: app_mode
  sh_live :: bool
  sh_update :: "int option option"
  sh_version :: string

datatype app_view = App_Loading | App_Message string | App_Shell shell

definition app_layout :: "(string \<Rightarrow> string) \<Rightarrow> meta_view \<Rightarrow> live_view \<Rightarrow> app_view" where
  "app_layout t v m =
     (if meta_loading v then App_Loading
      else if given (mv_error v) \<or> mv_meta v = None
      then App_Message (case mv_error v of None \<Rightarrow> t ''app.apiUnavailable'' | Some e \<Rightarrow> e)
      else (let meta = the (mv_meta v); hub = (mode meta = Hub_Mode) in
        App_Shell
          \<lparr> sh_mode = mode meta, sh_live = (if hub then True else lv_live m),
            sh_update = (if hub then None else lv_update m), sh_version = version meta \<rparr>))"

text \<open>What the shell renders beside the page: the switch, the sidebar of its mode, the
  version when there is one and, in agent mode, a hint.\<close>

record shell_frame =
  fr_toggle :: bool
  fr_nav :: "(string \<times> string \<times> bool) list option"
  fr_version :: "string option"
  fr_hint :: bool

definition app_shell :: "shell \<Rightarrow> string \<Rightarrow> shell_frame" where
  "app_shell s pathname =
     \<lparr> fr_toggle = isHistoryCapableRoute pathname,
       fr_nav = (if sh_mode s = Hub_Mode then None else Some agentNav),
       fr_version = (if sh_version s = [] then None else Some (sh_version s)),
       fr_hint = (sh_mode s = Agent_Mode) \<rparr>"

section \<open>Facts\<close>

definition hub_base :: "string \<Rightarrow> string" where
  "hub_base a = ''/hub/agents/'' @ encode_uri_component a"

lemma useAgentBasePath_hub:
  "is_hub meta \<Longrightarrow> a \<noteq> [] \<Longrightarrow> useAgentBasePath meta (Some a) matched = hub_base a"
  by (simp add: useAgentBasePath_def hub_base_def given_def)

lemma hub_base_not_Nil [simp]: "hub_base a \<noteq> []"
  by (simp add: hub_base_def)

text \<open>After the base a link goes on with a slash, a question mark or nothing.\<close>

lemma useAgentHref_base:
  assumes "base \<noteq> []"
  obtains rest where "useAgentHref base segment query = base @ rest"
    and "rest = [] \<or> hd rest \<in> set ''/?''"
proof
  show "useAgentHref base segment query =
      base @ (if given segment then ''/'' @ the segment else []) @
        (case query of None \<Rightarrow> [] | Some q \<Rightarrow> if q = [] then [] else ''?'' @ params_to_string q)"
    using assms by (simp add: useAgentHref_def Let_def split: option.split)
qed (simp split: option.split)

lemma takeWhile_encoded:
  assumes "rest = [] \<or> hd rest \<in> set ''/?''"
  shows "takeWhile (\<lambda>c. c \<notin> set ''/?'') (encode_uri_component a @ rest) = encode_uri_component a"
proof -
  have "\<forall>c\<in>set (encode_uri_component a). c \<notin> set ''/?''"
    using encode_no_delimiter [of a] by auto
  then have "takeWhile (\<lambda>c. c \<notin> set ''/?'') (encode_uri_component a @ rest) =
      encode_uri_component a @ takeWhile (\<lambda>c. c \<notin> set ''/?'') rest"
    by (rule takeWhile_append2 [OF bspec])
  also have "takeWhile (\<lambda>c. c \<notin> set ''/?'') rest = []"
    using assms by (cases rest) auto
  finally show ?thesis by simp
qed

lemma href_encoded_agent:
  "takeWhile (\<lambda>c. c \<notin> set ''/?'') (drop 12 (useAgentHref (hub_base a) segment query)) =
     encode_uri_component a"
proof -
  obtain rest where "useAgentHref (hub_base a) segment query = hub_base a @ rest"
    "rest = [] \<or> hd rest \<in> set ''/?''" by (rule useAgentHref_base [OF hub_base_not_Nil])
  then show ?thesis using takeWhile_encoded by (simp add: hub_base_def)
qed

text \<open>The locations below an agent that show the switch.\<close>

lemma capable_below_agent:
  assumes "a \<noteq> []" and "rest = [] \<or> hd rest = CHR ''/''"
  shows "isHistoryCapableRoute (hub_base a @ rest) \<longleftrightarrow>
    rest = [] \<or> list_ex (\<lambda>seg. rest = ''/'' @ seg) history_segments"
proof -
  have free: "\<forall>c\<in>set (encode_uri_component a). c \<noteq> CHR ''/''"
    using encode_no_delimiter [of a] by auto
  have "takeWhile (\<lambda>c. c \<noteq> CHR ''/'') (encode_uri_component a @ rest) = encode_uri_component a"
    and "dropWhile (\<lambda>c. c \<noteq> CHR ''/'') (encode_uri_component a @ rest) = rest"
    using free assms(2) by (cases rest; simp add: takeWhile_append2 dropWhile_append2)+
  then show ?thesis
    using assms(1) by (simp add: isHistoryCapableRoute_def hub_base_def history_segments_def Let_def
        del: dropWhile_eq_Nil_conv)
qed

section \<open>Properties\<close>

text \<open>C34: links identify the agent: two links below agents that are equal, whatever
  segments and queries they have and whatever the identifiers contain, are below the
  same agent; and the pages below an agent know that they are.\<close>

theorem agent_links_injective:
  assumes "is_hub meta" and "a \<noteq> []" and "b \<noteq> []"
    and "useAgentHref (useAgentBasePath meta (Some a) m) segment query =
      useAgentHref (useAgentBasePath meta (Some b) m') segment' query'"
  shows "a = b \<and> useIsHubAgentContext (useAgentBasePath meta (Some a) m)"
proof
  show "a = b"
    using assms href_encoded_agent by (metis useAgentBasePath_hub encode_inject)
  show "useIsHubAgentContext (useAgentBasePath meta (Some a) m)"
    using assms(1,2) by (simp add: useAgentBasePath_hub useIsHubAgentContext_def hub_base_def)
qed

definition hub_meta :: meta_response where
  "hub_meta = \<lparr> mode = Hub_Mode, version = [] \<rparr>"

theorem agent_links_injective_witness:
  "useIsHubAgentContext (useAgentBasePath (Some hub_meta) (Some ''a/b'') None)"
  using agent_links_injective [of "Some hub_meta" "''a/b''" "''a/b''" None None None None]
  by (simp add: is_hub_def hub_meta_def)

text \<open>The switch between live and history is shown exactly on the routes whose page
  has a history mode, on those of an agent as on those below an agent of the hub,
  whatever the agent's identifier is.\<close>

lemma toggle_on_history_pages:
  assumes "(path, p) \<in> set top_routes \<or>
      (a \<noteq> [] \<and> (\<exists>segment. (segment, p) \<in> set agent_routes \<and> path = agent_route_path (hub_base a) segment))"
  shows "isHistoryCapableRoute path = shows_history p"
  using assms
proof
  assume "(path, p) \<in> set top_routes"
  moreover have "list_all (\<lambda>(path, p). isHistoryCapableRoute path = shows_history p) top_routes"
    by code_simp
  ultimately show ?thesis by (auto simp: list_all_iff)
next
  assume "a \<noteq> [] \<and> (\<exists>segment. (segment, p) \<in> set agent_routes \<and> path = agent_route_path (hub_base a) segment)"
  then obtain segment where seg: "(segment, p) \<in> set agent_routes" and a: "a \<noteq> []"
    and path: "path = hub_base a @ (if segment = [] then [] else ''/'' @ segment)"
    by (auto simp: agent_route_path_def useAgentHref_def given_def)
  have "isHistoryCapableRoute path \<longleftrightarrow> segment = [] \<or> segment \<in> set history_segments"
    unfolding path using a by (subst capable_below_agent) (auto simp: list_ex_iff)
  also have "\<dots> \<longleftrightarrow> shows_history p"
    using seg by (auto simp: agent_routes_def history_segments_def shows_history_def)
  finally show ?thesis .
qed

lemma toggle_on_history_pages_witness:
  "\<not> isHistoryCapableRoute (agent_route_path (hub_base ''a b'') ''alerts'')"
proof -
  have "(''alerts'', Alerts_Page) \<in> set agent_routes" by (simp add: agent_routes_def)
  then have "isHistoryCapableRoute (agent_route_path (hub_base ''a b'') ''alerts'') = shows_history Alerts_Page"
    by (intro toggle_on_history_pages [of _ _ "''a b''"]) blast
  then show ?thesis by (simp add: shows_history_def)
qed

text \<open>Once the reply to the request for the mode is there, the application leaves the
  loading screen (unless the request failed with an empty message): it shows the shell
  of the server's mode, or the message of the failure.\<close>

lemma application_starts:
  assumes "poll_reachable useMeta (\<lambda>_ _. True) meta_init st" and "mounted st" and "inflight st = []"
    and "mv_error (view st) \<noteq> Some []"
  shows "case mv_meta (view st) of
      Some m \<Rightarrow> (\<exists>sh. app_layout t (view st) v = App_Shell sh \<and> sh_mode sh = mode m \<and>
        (sh_live sh = (mode m = Hub_Mode \<or> lv_live v)))
    | None \<Rightarrow> app_layout t (view st) v = App_Message (the (mv_error (view st)))"
  using meta_one_reply [OF assms(1,2)] assms(3,4)
  by (auto simp: app_layout_def meta_loading_def given_def Let_def split: option.split)

lemma application_starts_witness:
  "\<exists>sh. app_layout (\<lambda>k. k)
     (view (poll_arrive useMeta 0 (Response 200 (Json hub_meta)) (poll_mount useMeta meta_init ()))) live_init =
       App_Shell sh \<and> sh_live sh"
proof -
  let ?st = "poll_arrive useMeta 0 (Response 200 (Json hub_meta)) (poll_mount useMeta meta_init ())"
  have "poll_reachable useMeta (\<lambda>_ _. True) meta_init ?st"
    by (rule poll_reachable.step [OF poll_reachable.mount poll_step.arrive])
       (simp_all add: hook_defs Let_def useMeta_def)
  moreover have "mounted ?st" "inflight ?st = []" "mv_meta (view ?st) = Some hub_meta" "mv_error (view ?st) = None"
    by (simp_all add: hook_defs Let_def useMeta_def meta_init_def is_ok_def)
  ultimately show ?thesis
    using application_starts [of ?st "\<lambda>k. k" live_init] by (auto simp: hub_meta_def)
qed

end
