(* ===== verification/Format.thy ===== *)
theory Format
  imports ApiTypes AgentStatus
begin

text \<open>
  \<open>src/lib/format.ts\<close> and the threshold colours of \<open>MetricCard.tsx\<close>. The
  \<open>do ... while\<close> of \<open>formatBytes\<close> is \<open>scale_loop\<close>, which terminates because
  the unit index grows up to the last unit. The lemmas show that the printed
  mantissa and unit denote the byte count.
\<close>

definition byte_units :: "string list" where
  "byte_units = [''KB'', ''MB'', ''GB'', ''TB'']"

text \<open>One turn divides and counts; the loop goes on while both conditions hold.\<close>

function scale_loop :: "rat \<Rightarrow> int \<Rightarrow> rat \<times> int" where
  "scale_loop v i =
     (let v' = v / 1024; i' = i + 1
      in if 1024 \<le> v' \<and> i' < int (length byte_units) - 1 then scale_loop v' i' else (v', i'))"
  by pat_completeness auto
termination
  by (relation "measure (\<lambda>(v, i). nat (int (length byte_units) - i))") auto

declare scale_loop.simps [simp del]

definition formatBytes :: "int \<Rightarrow> string" where
  "formatBytes bytes =
     (if bytes < 1024 then show_int bytes @ '' B''
      else (let (v, i) = scale_loop (of_int bytes) (- 1)
            in to_fixed 1 v @ '' '' @ byte_units ! nat i))"

definition formatPercent :: "rat \<Rightarrow> string" where
  "formatPercent n = to_fixed 1 n @ ''%''"

text \<open>\<open>toLocaleTimeString\<close> depends on the platform's locale data: an argument.\<close>

definition formatTime :: "(int \<Rightarrow> string \<Rightarrow> string) \<Rightarrow> string \<Rightarrow> int option \<Rightarrow> string \<Rightarrow> string" where
  "formatTime locale_time dash d locale =
     (case d of None \<Rightarrow> dash | Some ms \<Rightarrow> locale_time ms locale)"

definition isAgentContainer :: "container_info \<Rightarrow> bool" where
  "isAgentContainer c =
     (let hay = to_lower (c_name c @ '' '' @ c_image c)
      in contains hay ''metrics-collector'' \<or> contains hay ''metric-collector'')"

definition barTone :: "rat \<Rightarrow> tone" where
  "barTone percent =
     (if 85 \<le> percent then Error_Tone else if 60 \<le> percent then Warning else Success)"

text \<open>The class of a bar. \<open>HubPage.tsx\<close> has a function \<open>barTone\<close> of its own that gives the class.\<close>

fun toneClass :: "tone \<Rightarrow> string option" where
  "toneClass Success = Some ''bg-tertiary''"
| "toneClass Warning = Some ''bg-amber-400''"
| "toneClass Error_Tone = Some ''bg-error''"
| "toneClass Neutral = None"

definition barFillClass :: "rat \<Rightarrow> string option" where
  "barFillClass percent = toneClass (barTone percent)"

definition hub_barTone :: "rat \<Rightarrow> string" where
  "hub_barTone percent =
     (if 85 \<le> percent then ''bg-error'' else if 60 \<le> percent then ''bg-amber-400'' else ''bg-tertiary'')"

lemma bars_look_alike: "barFillClass percent = Some (hub_barTone percent)"
  by (simp add: barFillClass_def barTone_def hub_barTone_def)

text \<open>The width of a bar: \<open>Math.min(percent, 100)\<close> percent.\<close>

definition bar_width :: "rat \<Rightarrow> rat" where
  "bar_width percent = min percent 100"

section \<open>What the printed size denotes\<close>

lemma scale_loop_spec:
  assumes "0 \<le> i + 1" and "i < 3"
  shows "case scale_loop v i of (w, j) \<Rightarrow>
    i < j \<and> j \<le> 3 \<and> w * 1024 ^ nat (j - i) = v \<and> (w < 1024 \<or> j = 3) \<and> (1024 \<le> v \<longrightarrow> 1 \<le> w)"
  using assms
proof (induction v i rule: scale_loop.induct)
  case (1 v i)
  let ?v = "v / 1024" and ?i = "i + 1"
  show ?case
  proof (cases "1024 \<le> ?v \<and> ?i < int (length byte_units) - 1")
    case True
    then have i: "?i < 3" by (simp add: byte_units_def)
    obtain w j where wj: "scale_loop ?v ?i = (w, j)" by fastforce
    with True have step: "scale_loop v i = (w, j)"
      by (subst scale_loop.simps) (simp add: Let_def)
    from "1.IH" [OF refl refl True] i "1.prems" wj
    have IH: "?i < j \<and> j \<le> 3 \<and> w * 1024 ^ nat (j - ?i) = ?v \<and> (w < 1024 \<or> j = 3) \<and> (1024 \<le> ?v \<longrightarrow> 1 \<le> w)"
      by simp
    then have "?i < j" by blast
    then have "nat (j - i) = Suc (nat (j - ?i))" by arith
    then have "w * 1024 ^ nat (j - i) = (w * 1024 ^ nat (j - ?i)) * 1024" by simp
    also have "\<dots> = v" using IH by simp
    finally show ?thesis using IH True step by simp
  next
    case False
    then have step: "scale_loop v i = (?v, ?i)"
      by (subst scale_loop.simps) (auto simp: Let_def)
    with False "1.prems" show ?thesis
      by (auto simp: byte_units_def)
  qed
qed

text \<open>The mantissa and the unit index that \<open>formatBytes\<close> prints.\<close>

lemma formatBytes_scaled:
  assumes "1024 \<le> bytes"
  obtains v i where "formatBytes bytes = to_fixed 1 v @ '' '' @ byte_units ! i"
    and "i < length byte_units" and "v * 1024 ^ Suc i = of_int bytes"
    and "1 \<le> v" and "v < 1024 \<or> i = 3"
proof -
  obtain w j where wj: "scale_loop (of_int bytes) (- 1) = (w, j)" by fastforce
  have "-1 < j \<and> j \<le> 3 \<and> w * 1024 ^ nat (j - - 1) = of_int bytes \<and> (w < 1024 \<or> j = 3) \<and>
      (1024 \<le> (of_int bytes :: rat) \<longrightarrow> 1 \<le> w)"
    using scale_loop_spec [of "- 1" "of_int bytes"] wj by simp
  moreover from this have "- 1 < j" by blast
  then have "nat (j - - 1) = Suc (nat j)" by arith
  moreover have "1024 \<le> (of_int bytes :: rat)" using assms by simp
  ultimately show ?thesis
    using that [of w "nat j"] assms wj by (auto simp: formatBytes_def byte_units_def)
qed

section \<open>Properties\<close>

text \<open>C27: a size of at least 1 KiB is printed with one decimal \<open>n / 10\<close> and a unit, which
  denote the byte count up to a twentieth of the unit; the printed number is at least
  1.0, and at most 1024.0 unless the unit is the largest one.\<close>

theorem formatBytes_denotes:
  assumes "1024 \<le> bytes"
  shows "\<exists>n i. formatBytes bytes = fixed_digits 1 n @ '' '' @ byte_units ! i \<and>
    i < length byte_units \<and>
    \<bar>of_nat n / 10 * 1024 ^ Suc i - (of_int bytes :: rat)\<bar> \<le> 1024 ^ Suc i / 20 \<and>
    10 \<le> n \<and> (i < 3 \<longrightarrow> n \<le> 10240)"
proof -
  from assms obtain v i where shown: "formatBytes bytes = to_fixed 1 v @ '' '' @ byte_units ! i"
    and i: "i < length byte_units" and bytes: "v * 1024 ^ Suc i = of_int bytes"
    and v: "1 \<le> v" "v < 1024 \<or> i = 3" by (rule formatBytes_scaled)
  define n where "n = scaled 1 v"
  have near: "\<bar>of_nat n - v * 10\<bar> \<le> 1 / 2"
    using scaled_nearest [of 1 v] v(1) by (simp add: n_def)
  have scale: "x / 10 * p - v * p = (x - v * 10) * (p / 10)" for x p :: rat
    by (simp add: field_simps)
  have "\<bar>of_nat n / 10 * 1024 ^ Suc i - (of_int bytes :: rat)\<bar> =
      \<bar>of_nat n - v * 10\<bar> * (1024 ^ Suc i / 10)"
    unfolding bytes [symmetric] scale by (simp add: abs_mult)
  also have "\<dots> \<le> 1 / 2 * (1024 ^ Suc i / 10)"
    by (rule mult_right_mono [OF near]) simp
  finally have err: "\<bar>of_nat n / 10 * 1024 ^ Suc i - (of_int bytes :: rat)\<bar> \<le> 1024 ^ Suc i / 20"
    by simp
  have "(9 :: rat) < of_nat n" using near v(1) by linarith
  then have "10 \<le> n" by simp
  moreover have "n \<le> 10240" if "i < 3"
  proof -
    have "of_nat n < (10241 :: rat)" using near v(2) that by linarith
    then show ?thesis by simp
  qed
  moreover have "formatBytes bytes = fixed_digits 1 n @ '' '' @ byte_units ! i"
    using shown v(1) by (simp add: to_fixed_def n_def)
  ultimately show ?thesis using err i by blast
qed

theorem formatBytes_denotes_witness:
  "(\<exists>n i. formatBytes 8589934592 = fixed_digits 1 n @ '' '' @ byte_units ! i \<and>
    i < length byte_units \<and>
    \<bar>of_nat n / 10 * 1024 ^ Suc i - (of_int 8589934592 :: rat)\<bar> \<le> 1024 ^ Suc i / 20 \<and>
    10 \<le> n \<and> (i < 3 \<longrightarrow> n \<le> 10240)) \<and> formatBytes 8589934592 = ''8.0 GB''"
proof
  show "\<exists>n i. formatBytes 8589934592 = fixed_digits 1 n @ '' '' @ byte_units ! i \<and>
    i < length byte_units \<and>
    \<bar>of_nat n / 10 * 1024 ^ Suc i - (of_int 8589934592 :: rat)\<bar> \<le> 1024 ^ Suc i / 20 \<and>
    10 \<le> n \<and> (i < 3 \<longrightarrow> n \<le> 10240)"
    by (rule formatBytes_denotes) simp
qed code_simp

end
