(* ===== verification/HistorySeries.thy ===== *)
theory HistorySeries
  imports ApiTypes JsSort
begin

text \<open>
  \<open>src/lib/historySeries.ts\<close> with the range type of \<open>HistoryViewContext.tsx\<close>: time
  windows, the series drawn by the charts, and the ordering and filtering of
  samples. \<open>new Date()\<close> is the argument \<open>now\<close>, in milliseconds. The comparator of
  \<open>sortSamplesAsc\<close> yields \<open>NaN\<close>, which \<open>sort\<close> reads as 0, when a date does not
  parse; it is consistent on the samples whose dates parse.
\<close>

datatype view_mode = Live | History

datatype history_range = Range_1h | Range_6h | Range_24h | Range_7d

record history_point =
  point_at :: string
  point_value :: rat

fun range_hours :: "history_range \<Rightarrow> int" where
  "range_hours Range_1h = 1"
| "range_hours Range_6h = 6"
| "range_hours Range_24h = 24"
| "range_hours Range_7d = 24 * 7"

text \<open>The ranges are ordered by their length.\<close>

instantiation history_range :: linorder
begin

definition less_eq_history_range :: "history_range \<Rightarrow> history_range \<Rightarrow> bool" where
  "less_eq_history_range r s = (range_hours r \<le> range_hours s)"

definition less_history_range :: "history_range \<Rightarrow> history_range \<Rightarrow> bool" where
  "less_history_range r s = (range_hours r < range_hours s)"

instance
proof
  fix r s :: history_range
  show "r \<le> s \<Longrightarrow> s \<le> r \<Longrightarrow> r = s" by (cases r; cases s) (simp_all add: less_eq_history_range_def)
qed (auto simp: less_eq_history_range_def less_history_range_def)

end

definition historyRangeBounds :: "int \<Rightarrow> history_range \<Rightarrow> int \<times> int" where
  "historyRangeBounds now rng = (now - range_hours rng * 60 * 60 * 1000, now)"

datatype resolution = Raw | Hourly | Daily

definition resolutionForRange :: "history_range \<Rightarrow> resolution" where
  "resolutionForRange rng = (if rng = Range_7d then Hourly else Raw)"

definition maxDiskPercent :: "metrics_snapshot \<Rightarrow> rat" where
  "maxDiskPercent snap =
     (case map usePercent (diskUsage (payload snap)) of
        [] \<Rightarrow> 0
      | u # us \<Rightarrow> max_of u us)"

definition memoryPercent :: "metrics_snapshot \<Rightarrow> rat" where
  "memoryPercent snap =
     (if 0 < totalMemory (payload snap)
      then of_int (usedMemory (payload snap)) / of_int (totalMemory (payload snap)) * 100 else 0)"

definition cpuSeries :: "metrics_snapshot list \<Rightarrow> history_point list" where
  "cpuSeries samples =
     map (\<lambda>s. \<lparr> point_at = collectedAt s, point_value = cpuLoad (payload s) \<rparr>) samples"

definition memorySeries :: "metrics_snapshot list \<Rightarrow> history_point list" where
  "memorySeries samples =
     map (\<lambda>s. \<lparr> point_at = collectedAt s, point_value = memoryPercent s \<rparr>) samples"

definition diskSeries :: "metrics_snapshot list \<Rightarrow> history_point list" where
  "diskSeries samples =
     filter (\<lambda>p. 0 < point_value p)
       (map (\<lambda>s. \<lparr> point_at = collectedAt s, point_value = maxDiskPercent s \<rparr>) samples)"

definition containerSeries :: "metrics_snapshot list \<Rightarrow> history_point list" where
  "containerSeries samples =
     map (\<lambda>s. \<lparr> point_at = collectedAt s,
       point_value = of_nat (length (containers (payload s))) \<rparr>) samples"

section \<open>Ordering and filtering\<close>

definition sample_cmp :: "date_parser \<Rightarrow> metrics_snapshot \<Rightarrow> metrics_snapshot \<Rightarrow> rat" where
  "sample_cmp date a b =
     (case (date (collectedAt a), date (collectedAt b)) of
        (Some ta, Some tb) \<Rightarrow> of_int (ta - tb)
      | _ \<Rightarrow> 0)"

definition sortSamplesAsc :: "date_parser \<Rightarrow> metrics_snapshot list \<Rightarrow> metrics_snapshot list" where
  "sortSamplesAsc date samples = js_sort (sample_cmp date) samples"

definition filterSamplesByRange ::
  "date_parser \<Rightarrow> int \<Rightarrow> metrics_snapshot list \<Rightarrow> history_range \<Rightarrow> metrics_snapshot list" where
  "filterSamplesByRange date now samples rng =
     (let (from_ms, to_ms) = historyRangeBounds now rng
      in filter (\<lambda>s. case date (collectedAt s) of None \<Rightarrow> False
           | Some t \<Rightarrow> from_ms \<le> t \<and> t \<le> to_ms) samples)"

section \<open>Facts\<close>

text \<open>The samples whose date parses: where the comparator is consistent.\<close>

definition dated :: "date_parser \<Rightarrow> metrics_snapshot set" where
  "dated date = {s. date (collectedAt s) \<noteq> None}"

interpretation sample_order: comparator_on "dated date" "sample_cmp date" for date
  by unfold_locales (auto simp: dated_def sample_cmp_def)

lemma sample_cmp_le:
  "a \<in> dated date \<Longrightarrow> b \<in> dated date \<Longrightarrow>
     sample_cmp date a b \<le> 0 \<longleftrightarrow> the (date (collectedAt a)) \<le> the (date (collectedAt b))"
  by (auto simp: dated_def sample_cmp_def)

lemma sorted_samples_iff:
  "set xs \<subseteq> dated date \<Longrightarrow>
     sorted_by (sample_cmp date) xs \<longleftrightarrow> sorted (map (\<lambda>s. the (date (collectedAt s))) xs)"
  by (induction xs) (auto simp: sorted_by_def sample_cmp_le subset_iff)

lemma in_range_dated: "set (filterSamplesByRange date now samples rng) \<subseteq> dated date"
  by (auto simp: filterSamplesByRange_def historyRangeBounds_def dated_def split: option.splits)

lemma set_sortSamplesAsc [simp]: "set (sortSamplesAsc date samples) = set samples"
  by (simp add: sortSamplesAsc_def)

lemma length_sortSamplesAsc [simp]: "length (sortSamplesAsc date samples) = length samples"
  by (simp add: sortSamplesAsc_def)

lemma stable_at_instant:
  assumes "set xs \<subseteq> dated date"
  shows "filter (\<lambda>s. date (collectedAt s) = Some t) (js_sort (sample_cmp date) xs) =
    filter (\<lambda>s. date (collectedAt s) = Some t) xs"
proof (cases "\<exists>a\<in>set xs. date (collectedAt a) = Some t")
  case True
  then obtain a where a: "a \<in> dated date" "date (collectedAt a) = Some t"
    using assms by auto
  have "filter (\<lambda>s. date (collectedAt s) = Some t) ys = peers (sample_cmp date) a ys"
    if "set ys \<subseteq> dated date" for ys
    using that a by (auto simp: peers_def sample_cmp_def dated_def intro!: filter_cong)
  with assms a show ?thesis by (simp add: sample_order.stable_js_sort)
next
  case False
  then show ?thesis by (simp add: filter_empty_conv [THEN iffD2])
qed

lemma sortSamplesAsc_idem:
  "set samples \<subseteq> dated date \<Longrightarrow>
     sortSamplesAsc date (sortSamplesAsc date samples) = sortSamplesAsc date samples"
  by (simp add: sortSamplesAsc_def sample_order.js_sort_sorted_id sample_order.sorted_js_sort)

lemma filter_range_iff:
  "s \<in> set (filterSamplesByRange date now samples rng) \<longleftrightarrow>
     s \<in> set samples \<and> (\<exists>t. date (collectedAt s) = Some t \<and>
       now - range_hours rng * 3600000 \<le> t \<and> t \<le> now)"
  by (auto simp: filterSamplesByRange_def historyRangeBounds_def split: option.splits)

lemma range_hours_pos: "0 < range_hours rng"
  by (cases rng) simp_all

section \<open>Properties\<close>

text \<open>C32: the samples a local agent's history view shows are exactly the fetched
  samples whose instant lies in the chosen window, each as often as it was fetched, in
  ascending order of instant; the samples of one instant are shown in the order in which
  they were fetched.\<close>

theorem range_view_correct:
  "let shown = sortSamplesAsc date (filterSamplesByRange date now samples rng);
     inside = (\<lambda>t. now - range_hours rng * 3600000 \<le> t \<and> t \<le> now) in
   mset shown = mset (filter (\<lambda>s. \<exists>t. date (collectedAt s) = Some t \<and> inside t) samples) \<and>
   sorted (map (\<lambda>s. the (date (collectedAt s))) shown) \<and>
   (\<forall>t. filter (\<lambda>s. date (collectedAt s) = Some t) shown =
     (if inside t then filter (\<lambda>s. date (collectedAt s) = Some t) samples else []))"
proof -
  let ?inside = "\<lambda>t. now - range_hours rng * 3600000 \<le> t \<and> t \<le> now"
  let ?kept = "filterSamplesByRange date now samples rng"
  note dated = in_range_dated [of date now samples rng]
  have kept: "?kept = filter (\<lambda>s. \<exists>t. date (collectedAt s) = Some t \<and> ?inside t) samples"
    by (auto simp: filterSamplesByRange_def historyRangeBounds_def intro!: filter_cong split: option.split)
  have "filter (\<lambda>s. date (collectedAt s) = Some t) ?kept =
      (if ?inside t then filter (\<lambda>s. date (collectedAt s) = Some t) samples else [])" for t
    unfolding kept by (auto simp: filter_empty_conv intro!: filter_cong)
  moreover have "sorted (map (\<lambda>s. the (date (collectedAt s))) (sortSamplesAsc date ?kept))"
    using dated sample_order.sorted_js_sort [OF dated] by (simp add: sorted_samples_iff sortSamplesAsc_def)
  moreover have "mset (sortSamplesAsc date ?kept) = mset ?kept" by (simp add: sortSamplesAsc_def)
  ultimately show ?thesis
    unfolding Let_def by (simp add: stable_at_instant [OF dated, folded sortSamplesAsc_def] kept [symmetric])
qed

text \<open>Widening the window never hides a sample: a sample that a range shows is
  shown by every longer range at the same instant.\<close>

lemma wider_range_shows_more:
  assumes "range_hours r1 \<le> range_hours r2"
  shows "set (filterSamplesByRange date now samples r1) \<subseteq> set (filterSamplesByRange date now samples r2)"
  using assms by (fastforce simp: filter_range_iff)

lemma wider_range_mono: "mono (\<lambda>r. set (filterSamplesByRange date now samples r))"
  by (intro monoI wider_range_shows_more) (simp add: less_eq_history_range_def)

lemma wider_range_shows_more_witness:
  "set (filterSamplesByRange (\<lambda>_. Some 5) 7 [snapshot_at ''a''] Range_1h)
     \<subseteq> set (filterSamplesByRange (\<lambda>_. Some 5) 7 [snapshot_at ''a''] Range_7d)"
  by (rule wider_range_shows_more) simp

end
