(* ===== verification/HistoryHook.thy ===== *)
theory HistoryHook
  imports HistorySeries ApiClient JsUrl JsDate
begin

text \<open>
  \<open>src/api/useHistorySamples.ts\<close>, \<open>src/hooks/useSelectedHistorySnapshot.ts\<close>,
  \<open>src/components/HistoryTimeBar.tsx\<close> and \<open>HistoryWorkbench.tsx\<close>: the history mode
  of every page. Each run of the effect has its own variable \<open>cancelled\<close>, which its
  clean-up sets; a load carries the run it belongs to, the dependencies it closed over
  and the path it requested. \<open>hist_inv\<close> relates the runs, the flags and the loads in
  flight, and \<open>hist_step\<close> keeps it; the properties follow from it.
\<close>

section \<open>State\<close>

record hist_deps =
  d_enabled :: bool
  d_range :: history_range
  d_hub :: bool
  d_agent :: "string option"

record hist_load =
  l_run :: nat
  l_deps :: hist_deps
  l_path :: string

record hist_state =
  h_samples :: "metrics_snapshot list"
  h_loading :: bool
  h_error :: "string option"
  h_deps :: hist_deps
  h_run :: nat
  h_polling :: bool
  h_cancelled :: "nat list"
  h_inflight :: "hist_load list"
  h_mounted :: bool

section \<open>A load\<close>

definition uses_hub :: "hist_deps \<Rightarrow> bool" where
  "uses_hub d = (d_hub d \<and> d_agent d \<noteq> None \<and> d_agent d \<noteq> Some [])"

fun resolution_name :: "resolution \<Rightarrow> string" where
  "resolution_name Raw = ''raw''"
| "resolution_name Hourly = ''hourly''"
| "resolution_name Daily = ''daily''"

definition history_path :: "int \<Rightarrow> hist_deps \<Rightarrow> string" where
  "history_path now d =
     (if uses_hub d
      then (let (from_ms, to_ms) = historyRangeBounds now (d_range d);
                qs = params_to_string
                  [(''from'', to_iso from_ms), (''to'', to_iso to_ms),
                   (''resolution'', resolution_name (resolutionForRange (d_range d))),
                   (''limit'', ''500'')]
            in ''/api/v1/agents/'' @ encode_uri_component (the (d_agent d)) @ ''/history?'' @ qs)
      else ''/api/metrics/history?limit=120'')"

definition load_data ::
  "date_parser \<Rightarrow> int \<Rightarrow> hist_load \<Rightarrow> metrics_snapshot list reply \<Rightarrow> api_error + metrics_snapshot list" where
  "load_data date now l r =
     (case or_default [] (apiGet (l_path l) r) of
        Inl e \<Rightarrow> Inl e
      | Inr raw \<Rightarrow>
          Inr (if uses_hub (l_deps l) then raw
               else filterSamplesByRange date now raw (d_range (l_deps l))))"

text \<open>\<open>load()\<close> up to its first \<open>await\<close>.\<close>

definition hist_begin :: "int \<Rightarrow> hist_state \<Rightarrow> hist_state" where
  "hist_begin now st =
     st\<lparr> h_loading := True, h_error := None,
         h_inflight := h_inflight st @
           [\<lparr> l_run = h_run st, l_deps = h_deps st, l_path = history_path now (h_deps st) \<rparr>] \<rparr>"

text \<open>The rest of \<open>load()\<close>, when the answer to the \<open>i\<close>-th outstanding request is there.\<close>

definition hist_arrive ::
  "date_parser \<Rightarrow> int \<Rightarrow> nat \<Rightarrow> metrics_snapshot list reply \<Rightarrow> hist_state \<Rightarrow> hist_state" where
  "hist_arrive date now i r st =
     (let l = h_inflight st ! i;
          st1 = st\<lparr> h_inflight := drop_nth i (h_inflight st) \<rparr>
      in if l_run l \<in> set (h_cancelled st) then st1
         else (case load_data date now l r of
            Inr data \<Rightarrow> st1\<lparr> h_samples := sortSamplesAsc date data, h_loading := False \<rparr>
          | Inl e \<Rightarrow>
              st1\<lparr> h_error := Some (error_message e), h_samples := [], h_loading := False \<rparr>))"

section \<open>The effect\<close>

text \<open>Only a run that got past the \<open>enabled\<close> check returned a clean-up.\<close>

definition hist_cleanup :: "hist_state \<Rightarrow> hist_state" where
  "hist_cleanup st =
     (if h_polling st
      then st\<lparr> h_cancelled := h_run st # h_cancelled st, h_polling := False \<rparr> else st)"

definition hist_effect :: "int \<Rightarrow> hist_deps \<Rightarrow> hist_state \<Rightarrow> hist_state" where
  "hist_effect now d st =
     (let st1 = (hist_cleanup st)\<lparr> h_deps := d \<rparr>
      in if \<not> d_enabled d
         then st1\<lparr> h_samples := [], h_error := None, h_loading := False \<rparr>
         else hist_begin now (st1\<lparr> h_run := Suc (h_run st1), h_polling := True \<rparr>))"

definition hist_mount :: "int \<Rightarrow> hist_deps \<Rightarrow> hist_state" where
  "hist_mount now d =
     hist_effect now d
       \<lparr> h_samples = [], h_loading = False, h_error = None, h_deps = d, h_run = 0,
         h_polling = False, h_cancelled = [], h_inflight = [], h_mounted = True \<rparr>"

definition hist_unmount :: "hist_state \<Rightarrow> hist_state" where
  "hist_unmount st = (hist_cleanup st)\<lparr> h_mounted := False \<rparr>"

lemmas [hook_defs] = hist_begin_def hist_arrive_def hist_cleanup_def hist_effect_def
  hist_mount_def hist_unmount_def

inductive hist_step :: "date_parser \<Rightarrow> hist_state \<Rightarrow> hist_state \<Rightarrow> bool"
  for date where
  rerun: "h_mounted st \<Longrightarrow> d \<noteq> h_deps st \<Longrightarrow> hist_step date st (hist_effect now d st)"
| tick: "h_polling st \<Longrightarrow> hist_step date st (hist_begin now st)"
| arrive: "i < length (h_inflight st) \<Longrightarrow> hist_step date st (hist_arrive date now i r st)"
| unmount: "h_mounted st \<Longrightarrow> hist_step date st (hist_unmount st)"

inductive hist_reachable :: "date_parser \<Rightarrow> hist_state \<Rightarrow> bool"
  for date where
  mount: "hist_reachable date (hist_mount now d)"
| step: "hist_reachable date st \<Longrightarrow> hist_step date st st' \<Longrightarrow> hist_reachable date st'"

inductive_cases hist_stepE: "hist_step date st st'"

section \<open>The invariant\<close>

definition live_load :: "hist_state \<Rightarrow> hist_load \<Rightarrow> bool" where
  "live_load st l = (l_run l \<notin> set (h_cancelled st))"

definition runs_ok :: "hist_state \<Rightarrow> bool" where
  "runs_ok st =
     ((\<forall>l\<in>set (h_inflight st). l_run l \<le> h_run st \<and>
        (live_load st l \<longrightarrow> h_polling st \<and> l_run l = h_run st \<and> l_deps l = h_deps st)) \<and>
      (\<forall>c\<in>set (h_cancelled st). c \<le> h_run st) \<and>
      (h_polling st \<longrightarrow> h_mounted st \<and> d_enabled (h_deps st) \<and> h_run st \<notin> set (h_cancelled st)))"

definition flags_ok :: "date_parser \<Rightarrow> hist_state \<Rightarrow> bool" where
  "flags_ok date st =
     ((h_mounted st \<and> h_loading st \<longrightarrow> (\<exists>l\<in>set (h_inflight st). live_load st l)) \<and>
      (h_error st \<noteq> None \<longrightarrow> \<not> h_loading st) \<and>
      (h_mounted st \<and> \<not> h_polling st \<longrightarrow>
         \<not> d_enabled (h_deps st) \<and> h_samples st = [] \<and> h_error st = None \<and> \<not> h_loading st) \<and>
      (set (h_samples st) \<subseteq> dated date \<longrightarrow> sorted_by (sample_cmp date) (h_samples st)))"

lemmas hist_inv_defs = runs_ok_def flags_ok_def live_load_def

lemma runs_ok_begin: "runs_ok st \<Longrightarrow> h_polling st \<Longrightarrow> runs_ok (hist_begin now st)"
  by (auto simp: hist_inv_defs hist_begin_def)

lemma runs_ok_cleanup: "runs_ok st \<Longrightarrow> runs_ok (hist_cleanup st)"
  by (auto simp: hist_inv_defs hist_cleanup_def)

lemma runs_ok_effect:
  assumes "runs_ok st" and "h_mounted st"
  shows "runs_ok (hist_effect now d st)"
  using assms by (fastforce simp: hist_inv_defs hist_effect_def hist_cleanup_def hist_begin_def Let_def)

lemma runs_ok_arrive: "runs_ok st \<Longrightarrow> runs_ok (hist_arrive date now i r st)"
  using set_drop_nth_subset [of i "h_inflight st"]
  by (auto simp: hist_inv_defs hist_arrive_def Let_def split: sum.split)

lemma runs_ok_unmount: "runs_ok st \<Longrightarrow> runs_ok (hist_unmount st)"
  by (auto simp: hist_inv_defs hist_unmount_def hist_cleanup_def)

lemma runs_ok_step: "hist_step date st st' \<Longrightarrow> runs_ok st \<Longrightarrow> runs_ok st'"
  by (erule hist_stepE)
     (simp_all add: runs_ok_effect runs_ok_begin runs_ok_arrive runs_ok_unmount)

lemma flags_ok_begin: "flags_ok date st \<Longrightarrow> runs_ok st \<Longrightarrow> h_polling st \<Longrightarrow> flags_ok date (hist_begin now st)"
  by (auto simp: hist_inv_defs hist_begin_def)

lemma flags_ok_effect:
  assumes "flags_ok date st" and "runs_ok st"
  shows "flags_ok date (hist_effect now d st)"
  using assms
  by (auto simp: hist_inv_defs hist_effect_def hist_cleanup_def hist_begin_def Let_def sorted_by_def)

lemma flags_ok_arrive:
  assumes "flags_ok date st" and "runs_ok st" and i: "i < length (h_inflight st)"
  shows "flags_ok date (hist_arrive date now i r st)"
proof (cases "live_load st (h_inflight st ! i)")
  case True
  then have "h_polling st" using assms(2) i by (auto simp: runs_ok_def)
  with True show ?thesis
    by (auto simp: hist_inv_defs hist_arrive_def Let_def sorted_by_def [of _ "[]"]
        sortSamplesAsc_def sample_order.sorted_js_sort split: sum.split)
next
  case False
  have "\<exists>l\<in>set (drop_nth i (h_inflight st)). live_load st l"
    if "\<exists>l\<in>set (h_inflight st). live_load st l"
    using that False i by (metis in_set_conv_nth set_drop_nth_other)
  with False assms show ?thesis
    by (simp add: hist_inv_defs hist_arrive_def Let_def)
qed

lemma flags_ok_unmount: "flags_ok date st \<Longrightarrow> flags_ok date (hist_unmount st)"
  by (auto simp: hist_inv_defs hist_unmount_def hist_cleanup_def)

lemma flags_ok_step:
  "hist_step date st st' \<Longrightarrow> flags_ok date st \<Longrightarrow> runs_ok st \<Longrightarrow> flags_ok date st'"
  by (erule hist_stepE)
     (simp_all add: flags_ok_effect flags_ok_begin flags_ok_arrive flags_ok_unmount)

lemma hist_reachable_inv: "hist_reachable date st \<Longrightarrow> runs_ok st \<and> flags_ok date st"
proof (induction rule: hist_reachable.induct)
  case (mount now d)
  have "runs_ok st0 \<and> flags_ok date st0 \<and> h_mounted st0"
    if "st0 = \<lparr> h_samples = [], h_loading = False, h_error = None, h_deps = d\<lparr> d_enabled := False \<rparr>, h_run = 0,
         h_polling = False, h_cancelled = [], h_inflight = [], h_mounted = True \<rparr>" for st0
    using that by (simp add: hist_inv_defs sorted_by_def)
  moreover have "hist_mount now d = hist_effect now d
      \<lparr> h_samples = [], h_loading = False, h_error = None, h_deps = d\<lparr> d_enabled := False \<rparr>, h_run = 0,
         h_polling = False, h_cancelled = [], h_inflight = [], h_mounted = True \<rparr>"
    by (simp add: hist_mount_def hist_effect_def hist_cleanup_def)
  ultimately show ?case by (simp add: runs_ok_effect flags_ok_effect)
next
  case (step st st')
  then show ?case using runs_ok_step flags_ok_step by blast
qed

section \<open>Properties\<close>

text \<open>C1: a reply to a request that was issued under other dependencies (another agent,
  another range, or before the history mode was left) never changes what the hook
  shows.\<close>

theorem superseded_reply_ignored:
  assumes "hist_reachable date st" and "i < length (h_inflight st)"
    and "l_deps (h_inflight st ! i) \<noteq> h_deps st"
  shows "h_samples (hist_arrive date now i r st) = h_samples st \<and>
    h_loading (hist_arrive date now i r st) = h_loading st \<and>
    h_error (hist_arrive date now i r st) = h_error st"
proof -
  have "\<not> live_load st (h_inflight st ! i)"
    using hist_reachable_inv [OF assms(1)] assms(2,3) by (auto simp: runs_ok_def)
  then show ?thesis by (simp add: hist_arrive_def live_load_def Let_def)
qed

text \<open>C26: the loading indicator cannot get stuck: while it is shown there is an
  outstanding request whose answer, whatever it is and whenever it comes, ends it.\<close>

theorem loading_ends:
  assumes "hist_reachable date st" and "h_mounted st" and "h_loading st"
  shows "\<exists>i < length (h_inflight st). \<forall>now r. \<not> h_loading (hist_arrive date now i r st)"
proof -
  from hist_reachable_inv [OF assms(1)] assms(2,3)
  obtain l where "l \<in> set (h_inflight st)" and live: "live_load st l"
    by (auto simp: flags_ok_def)
  then obtain i where i: "i < length (h_inflight st)" "h_inflight st ! i = l"
    by (auto simp: in_set_conv_nth)
  with live have "\<not> h_loading (hist_arrive date now i r st)" for now r
    by (simp add: hist_arrive_def live_load_def Let_def split: sum.split)
  with i show ?thesis by blast
qed

text \<open>Outside the history mode the hook holds no sample, no error and no loading
  indicator, whatever requests are still in flight.\<close>

lemma disabled_history_is_empty:
  assumes "hist_reachable date st" and "h_mounted st" and "\<not> d_enabled (h_deps st)"
  shows "h_samples st = [] \<and> h_error st = None \<and> \<not> h_loading st"
  using hist_reachable_inv [OF assms(1)] assms(2,3) by (auto simp: runs_ok_def flags_ok_def)

text \<open>A run for the closed instances: the history mode is entered with the day range and
  left again before the answer comes.\<close>

definition day_deps :: hist_deps where
  "day_deps = \<lparr> d_enabled = True, d_range = Range_24h, d_hub = False, d_agent = None \<rparr>"

definition left_deps :: hist_deps where
  "left_deps = day_deps\<lparr> d_enabled := False \<rparr>"

lemma left_reachable: "hist_reachable date (hist_effect 9 left_deps (hist_mount 0 day_deps))"
  by (rule hist_reachable.step [OF hist_reachable.mount hist_step.rerun])
     (simp_all add: hook_defs Let_def left_deps_def day_deps_def)

theorem superseded_reply_ignored_witness:
  "h_samples (hist_arrive parse_iso 10 0 (Response 200 (Json [snapshot_at ''1970-01-01T00:00:00Z'']))
     (hist_effect 9 left_deps (hist_mount 0 day_deps))) = []"
proof -
  let ?st = "hist_effect 9 left_deps (hist_mount 0 day_deps)"
  have "0 < length (h_inflight ?st)" and "l_deps (h_inflight ?st ! 0) \<noteq> h_deps ?st"
    and "h_samples ?st = []"
    by (simp_all add: hook_defs Let_def left_deps_def day_deps_def)
  then show ?thesis using superseded_reply_ignored [OF left_reachable] by simp
qed

theorem loading_ends_witness:
  "\<exists>i < length (h_inflight (hist_mount 0 day_deps)).
     \<forall>now r. \<not> h_loading (hist_arrive parse_iso now i r (hist_mount 0 day_deps))"
  by (rule loading_ends [OF hist_reachable.mount]) (simp_all add: hook_defs Let_def day_deps_def)

lemma disabled_history_is_empty_witness:
  "h_samples (hist_effect 9 left_deps (hist_mount 0 day_deps)) = []"
  using disabled_history_is_empty [OF left_reachable [of parse_iso]]
  by (simp add: hook_defs Let_def left_deps_def day_deps_def)

end
