(* ===== verification/HistoryView.thy ===== *)
theory HistoryView
  imports HistoryHook
begin

text \<open>
  What the history mode shows: \<open>src/context/HistoryViewContext.tsx\<close> and
  \<open>MetricsContext.tsx\<close>, \<open>src/hooks/useSelectedHistorySnapshot.ts\<close>,
  \<open>src/components/HistoryTimeBar.tsx\<close>, \<open>TimeRangePicker.tsx\<close> and
  \<open>HistoryWorkbench.tsx\<close>. A component is the record of what it displays: messages by
  their translation keys, and which snapshot the pages below it read.
\<close>

section \<open>Contexts\<close>

record history_view =
  viewMode :: view_mode
  timeRange :: history_range

definition history_view_init :: history_view where
  "history_view_init = \<lparr> viewMode = Live, timeRange = Range_24h \<rparr>"

definition setViewMode :: "view_mode \<Rightarrow> history_view \<Rightarrow> history_view" where
  "setViewMode m v = v\<lparr> viewMode := m \<rparr>"

definition setTimeRange :: "history_range \<Rightarrow> history_view \<Rightarrow> history_view" where
  "setTimeRange r v = v\<lparr> timeRange := r \<rparr>"

definition useHistoryView :: "history_view option \<Rightarrow> string + history_view" where
  "useHistoryView ctx =
     (case ctx of
        None \<Rightarrow> Inl ''useHistoryView must be used within HistoryViewProvider''
      | Some v \<Rightarrow> Inr v)"

record metrics_context =
  snapshot :: "metrics_snapshot option"
  live :: bool
  lastUpdate :: "int option option"   \<comment> \<open>the date, whose value may be invalid\<close>

definition useMetricsContext :: "metrics_context option \<Rightarrow> metrics_context \<Rightarrow> metrics_context" where
  "useMetricsContext ctx fallback = (case ctx of None \<Rightarrow> fallback | Some c \<Rightarrow> c)"

section \<open>The selected sample\<close>

record selection =
  sel_range :: history_range
  sel_count :: nat
  sampleIndex :: int

definition selection_init :: "history_range \<Rightarrow> selection" where
  "selection_init r = \<lparr> sel_range = r, sel_count = 0, sampleIndex = 0 \<rparr>"

text \<open>The effect on \<open>[timeRange, ordered.length]\<close>.\<close>

definition selection_effect :: "history_range \<Rightarrow> nat \<Rightarrow> selection \<Rightarrow> selection" where
  "selection_effect r n s =
     (if r \<noteq> sel_range s \<or> n \<noteq> sel_count s
      then \<lparr> sel_range = r, sel_count = n, sampleIndex = 0 \<rparr> else s)"

definition setSampleIndex :: "int \<Rightarrow> selection \<Rightarrow> selection" where
  "setSampleIndex i s = s\<lparr> sampleIndex := i \<rparr>"

definition safe_index :: "nat \<Rightarrow> int \<Rightarrow> int" where
  "safe_index n i = (if n = 0 then 0 else min (max i 0) (int n - 1))"

definition selected_snapshot :: "metrics_snapshot list \<Rightarrow> int \<Rightarrow> metrics_snapshot option" where
  "selected_snapshot ordered i =
     (if 0 < length ordered then Some (ordered ! nat (safe_index (length ordered) i)) else None)"

record selected_history =
  sh_range :: history_range
  sh_samples :: "metrics_snapshot list"
  sh_index :: int
  sh_snapshot :: "metrics_snapshot option"
  sh_loading :: bool
  sh_error :: "string option"

definition useSelectedHistorySnapshot ::
  "date_parser \<Rightarrow> history_view \<Rightarrow> hist_state \<Rightarrow> selection \<Rightarrow> selected_history" where
  "useSelectedHistorySnapshot date hv st sel =
     (let ordered = sortSamplesAsc date (h_samples st)
      in \<lparr> sh_range = timeRange hv, sh_samples = ordered,
           sh_index = safe_index (length ordered) (sampleIndex sel),
           sh_snapshot = selected_snapshot ordered (sampleIndex sel),
           sh_loading = h_loading st, sh_error = h_error st \<rparr>)"

section \<open>The time bar and the workbench\<close>

record time_bar =
  tb_range :: history_range
  tb_count :: nat
  tb_slider :: bool
  tb_max :: int
  tb_value :: int
  tb_disabled :: bool
  tb_collected :: "string option"

definition history_time_bar :: "history_range \<Rightarrow> int \<Rightarrow> nat \<Rightarrow> string option \<Rightarrow> time_bar" where
  "history_time_bar r i n c =
     \<lparr> tb_range = r, tb_count = n, tb_slider = (0 < n), tb_max = max (int n - 1) 0,
       tb_value = i, tb_disabled = (n \<le> 1), tb_collected = c \<rparr>"

definition range_options :: "(string \<Rightarrow> 'l) \<Rightarrow> (history_range \<times> 'l) list" where
  "range_options t =
     map (\<lambda>(r, i). (r, t (''history.range.'' @ i)))
       [(Range_1h, ''1h''), (Range_6h, ''6h''), (Range_24h, ''24h''), (Range_7d, ''7d'')]"

text \<open>The children read the context of the page, or the one provided here.\<close>

datatype children = Hidden | Inherited | Provided metrics_context

record workbench =
  wb_bar :: "time_bar option"
  wb_error :: bool
  wb_messages :: "string list"
  wb_children :: children

definition history_workbench ::
  "date_parser \<Rightarrow> history_view \<Rightarrow> hist_state \<Rightarrow> selection \<Rightarrow> workbench" where
  "history_workbench date hv st sel =
     (if viewMode hv \<noteq> History
      then \<lparr> wb_bar = None, wb_error = False, wb_messages = [], wb_children = Inherited \<rparr>
      else (let h = useSelectedHistorySnapshot date hv st sel; snap = sh_snapshot h
            in \<lparr> wb_bar = Some (history_time_bar (sh_range h) (sh_index h) (length (sh_samples h))
                   (map_option collectedAt snap)),
                 wb_error = (sh_error h \<noteq> None \<and> sh_error h \<noteq> Some []),
                 wb_messages =
                   (if sh_loading h \<and> snap = None then [''history.loading''] else []) @
                   (if \<not> sh_loading h \<and> snap = None \<and> (sh_error h = None \<or> sh_error h = Some [])
                    then [''history.empty''] else []),
                 wb_children =
                   (case snap of
                      None \<Rightarrow> Hidden
                    | Some s \<Rightarrow> Provided \<lparr> snapshot = Some s, live = False,
                        lastUpdate = Some (date (collectedAt s)) \<rparr>) \<rparr>))"

section \<open>Facts\<close>

text \<open>The picker offers every range once, in ascending order.\<close>

lemma range_options_complete:
  "set (map fst (range_options t)) = UNIV" "sorted_wrt (<) (map fst (range_options t))"
proof -
  show "set (map fst (range_options t)) = UNIV"
    using history_range.nchotomy by (fastforce simp: range_options_def)
qed (simp add: range_options_def less_history_range_def)

lemma safe_index_bounds: "0 < n \<Longrightarrow> 0 \<le> safe_index n i \<and> safe_index n i < int n"
  by (auto simp: safe_index_def)

lemma safe_index_inside: "0 \<le> i \<Longrightarrow> i < int n \<Longrightarrow> safe_index n i = i"
  by (auto simp: safe_index_def)

lemma safe_index_le_max: "0 \<le> safe_index n i \<and> safe_index n i \<le> max (int n - 1) 0"
  by (auto simp: safe_index_def)

lemma selected_in_samples: "selected_snapshot xs i = Some s \<Longrightarrow> s \<in> set xs"
  using safe_index_bounds [of "length xs" i]
  by (auto simp: selected_snapshot_def split: if_splits intro!: nth_mem)

lemma selected_None_iff: "selected_snapshot xs i = None \<longleftrightarrow> xs = []"
  by (auto simp: selected_snapshot_def)

text \<open>The hook has sorted the samples already: sorting them again changes nothing.\<close>

lemma resorting_is_idle:
  assumes "hist_reachable date st" and "set (h_samples st) \<subseteq> dated date"
  shows "sortSamplesAsc date (h_samples st) = h_samples st"
  using hist_reachable_inv [OF assms(1)] assms(2)
  by (simp add: sortSamplesAsc_def flags_ok_def sample_order.js_sort_sorted_id)

section \<open>Properties\<close>

text \<open>C33: wherever the slider was left, including after the sample list shrank or was
  replaced, the page shows a sample of the list, at a slider position inside the
  slider's bounds; it shows none exactly when there are no samples.\<close>

theorem selected_sample_in_bounds:
  "let h = useSelectedHistorySnapshot date hv st sel;
       bar = history_time_bar (sh_range h) (sh_index h) (length (sh_samples h))
         (map_option collectedAt (sh_snapshot h))
   in 0 \<le> tb_value bar \<and> tb_value bar \<le> tb_max bar \<and>
     (sh_snapshot h = None \<longleftrightarrow> h_samples st = []) \<and>
     sh_snapshot h = (if h_samples st = [] then None else Some (sh_samples h ! nat (tb_value bar))) \<and>
     set_option (sh_snapshot h) \<subseteq> set (h_samples st)"
proof -
  have "set_option (selected_snapshot (sortSamplesAsc date (h_samples st)) i) \<subseteq> set (h_samples st)" for i
    by (auto dest: selected_in_samples)
  moreover have "sortSamplesAsc date (h_samples st) = [] \<longleftrightarrow> h_samples st = []"
    by (simp add: sortSamplesAsc_def)
  ultimately show ?thesis
    using safe_index_le_max [of "length (h_samples st)" "sampleIndex sel"]
    by (simp add: useSelectedHistorySnapshot_def history_time_bar_def Let_def
        selected_None_iff selected_snapshot_def)
qed

text \<open>In history mode the pages never read the live snapshot: they are hidden, or read
  a sample of the history marked as not live. While they are hidden exactly one of the
  error banner, the loading message and the empty message is shown.\<close>

lemma history_mode_shows_history:
  assumes "hist_reachable date st" and "viewMode hv = History"
    and "h_error st \<noteq> Some []"
  shows "let w = history_workbench date hv st sel in
    (wb_children w = Hidden \<longrightarrow>
       (if wb_error w then wb_messages w = []
        else wb_messages w = [if h_loading st then ''history.loading'' else ''history.empty''])) \<and>
    (wb_children w \<noteq> Hidden \<longrightarrow> (\<exists>s\<in>set (h_samples st).
       wb_children w = Provided \<lparr> snapshot = Some s, live = False,
         lastUpdate = Some (date (collectedAt s)) \<rparr>))"
proof -
  have "h_error st \<noteq> None \<longrightarrow> \<not> h_loading st"
    using hist_reachable_inv [OF assms(1)] by (simp add: flags_ok_def)
  then show ?thesis
    using assms(2,3) selected_in_samples [of "sortSamplesAsc date (h_samples st)" "sampleIndex sel"]
    by (auto simp: history_workbench_def useSelectedHistorySnapshot_def Let_def
        selected_None_iff split: option.splits)
qed

lemma history_mode_shows_history_witness:
  "let w = history_workbench parse_iso \<lparr> viewMode = History, timeRange = Range_24h \<rparr>
       (hist_mount 0 day_deps) (selection_init Range_24h) in
    wb_children w = Hidden \<and> wb_messages w = [''history.loading'']"
  using history_mode_shows_history [OF hist_reachable.mount [of parse_iso 0 day_deps],
      of "\<lparr> viewMode = History, timeRange = Range_24h \<rparr>" "selection_init Range_24h"]
  by (simp add: Let_def hook_defs day_deps_def history_workbench_def
      useSelectedHistorySnapshot_def selected_snapshot_def sortSamplesAsc_def)

end
