(* ===== verification/ProcessViews.thy ===== *)
theory ProcessViews
  imports ServiceTree Navigation Format HistoryView
begin

text \<open>
  The pages of processes and services: \<open>src/components/ProcessSplitView.tsx\<close> (search,
  sort and selection), \<open>ProcessDetailPanel.tsx\<close> and \<open>ServiceDetailPanel.tsx\<close> (the
  related items and their links), \<open>src/routes/processes/ProcessesPage.tsx\<close> and
  \<open>src/routes/services/ServicesPage.tsx\<close> (the selection in the query of the location).
  \<open>str_num\<close> is \<open>Number(text)\<close>, \<open>None\<close> for \<open>NaN\<close>.
\<close>

section \<open>The process table\<close>

datatype sort_key = Sort_Pid | Sort_Cpu | Sort_Mem | Sort_User

record sort_state =
  sortKey :: sort_key
  sortAsc :: bool

definition initial_sort :: sort_state where
  "initial_sort = \<lparr> sortKey = Sort_Cpu, sortAsc = False \<rparr>"

definition toggleSort :: "sort_key \<Rightarrow> sort_state \<Rightarrow> sort_state" where
  "toggleSort key s =
     (if sortKey s = key then s\<lparr> sortAsc := \<not> sortAsc s \<rparr>
      else s\<lparr> sortKey := key, sortAsc := False \<rparr>)"

fun column_cmp ::
  "(string \<Rightarrow> string \<Rightarrow> rat) \<Rightarrow> sort_key \<Rightarrow> process_info \<Rightarrow> process_info \<Rightarrow> rat" where
  "column_cmp collate Sort_Pid a b = of_int (pid a - pid b)"
| "column_cmp collate Sort_Cpu a b = cpuUsage a - cpuUsage b"
| "column_cmp collate Sort_Mem a b = memoryUsage a - memoryUsage b"
| "column_cmp collate Sort_User a b = collate (p_user a) (p_user b)"

definition process_cmp ::
  "(string \<Rightarrow> string \<Rightarrow> rat) \<Rightarrow> sort_state \<Rightarrow> process_info \<Rightarrow> process_info \<Rightarrow> rat" where
  "process_cmp collate s a b =
     (let cmp = column_cmp collate (sortKey s) a b in if sortAsc s then cmp else - cmp)"

definition process_matches :: "string \<Rightarrow> process_info \<Rightarrow> bool" where
  "process_matches q p =
     (contains (show_int (pid p)) q \<or> contains (to_lower (p_user p)) q \<or>
      contains (to_lower (command p)) q)"

definition process_rows ::
  "(string \<Rightarrow> string \<Rightarrow> rat) \<Rightarrow> string \<Rightarrow> sort_state \<Rightarrow> process_info list \<Rightarrow> process_info list" where
  "process_rows collate search s processes =
     (let q = to_lower (trim search);
          rows = (if q \<noteq> [] then filter (process_matches q) processes else processes)
      in js_sort (process_cmp collate s) rows)"

definition selected_process :: "rat option \<Rightarrow> process_info list \<Rightarrow> process_info option" where
  "selected_process selectedPid rows =
     (case selectedPid of None \<Rightarrow> None | Some n \<Rightarrow> find (\<lambda>p. of_int (pid p) = n) rows)"

text \<open>The cells of a row; the narrow table has neither user nor command.\<close>

definition process_cells :: "bool \<Rightarrow> process_info \<Rightarrow> string list" where
  "process_cells narrow p =
     [show_int (pid p)] @ (if narrow then [] else [p_user p]) @
     [to_fixed 1 (cpuUsage p), to_fixed 1 (memoryUsage p)] @ (if narrow then [] else [command p])"

section \<open>Details and their links\<close>

definition service_link :: "string \<Rightarrow> service_info \<Rightarrow> string" where
  "service_link prefix s = prefix @ ''?service='' @ encode_uri_component (serviceName s)"

definition process_link :: "string \<Rightarrow> process_info \<Rightarrow> string" where
  "process_link prefix p = prefix @ ''?pid='' @ show_int (pid p)"

record process_detail =
  pd_values :: "(string \<times> string) list"
  pd_command :: string
  pd_related :: "(string \<times> string) list"

definition process_detail_panel :: "string \<Rightarrow> process_info \<Rightarrow> service_info list \<Rightarrow> process_detail" where
  "process_detail_panel serviceLinkPrefix p services =
     \<lparr> pd_values =
         [(''table.pid'', show_int (pid p)), (''table.user'', p_user p),
          (''table.cpu'', to_fixed 1 (cpuUsage p) @ ''%''),
          (''table.memory'', to_fixed 1 (memoryUsage p) @ ''%'')],
       pd_command = command p,
       pd_related = map (\<lambda>m.
         (service_link serviceLinkPrefix (m_service m),
          (if m_service_likely m then ''~ '' @ serviceName (m_service m) else serviceName (m_service m))))
         (related_services p services) \<rparr>"

text \<open>A related process is its link, its label and its command (the code writes a dash
  between the two).\<close>

record service_detail =
  sd_status :: string
  sd_tone :: tone
  sd_pulse :: bool
  sd_name :: string
  sd_description :: "string option"
  sd_path :: "string list"
  sd_related :: "(string \<times> string \<times> string) list"

definition service_detail_panel :: "string \<Rightarrow> service_info \<Rightarrow> process_info list \<Rightarrow> service_detail" where
  "service_detail_panel processLinkPrefix s processes =
     \<lparr> sd_status = s_status s, sd_tone = serviceStatusTone (s_status s),
       sd_pulse = (s_status s = ''RUNNING''), sd_name = serviceName s,
       sd_description = (if description s = [] then None else Some (description s)),
       sd_path = serviceDomainPath (serviceName s),
       sd_related = map (\<lambda>m.
         (process_link processLinkPrefix (m_proc m),
          (if m_proc_likely m then ''~ PID '' else ''PID '') @ show_int (pid (m_proc m)),
          command (m_proc m)))
         (related_processes s processes) \<rparr>"

section \<open>The pages\<close>

text \<open>The query parameter holds the selection; the links take the default prefixes, the
  pages do not pass others.\<close>

definition page_selectedPid :: "(string \<Rightarrow> rat option) \<Rightarrow> params \<Rightarrow> rat option" where
  "page_selectedPid str_num params =
     (case params_get params ''pid'' of
        None \<Rightarrow> None | Some s \<Rightarrow> if s = [] then None else str_num s)"

definition onSelectPid :: "params \<Rightarrow> int \<Rightarrow> params" where
  "onSelectPid params p = params_set params ''pid'' (show_int p)"

definition onSelectService :: "params \<Rightarrow> string \<Rightarrow> params" where
  "onSelectService params name = params_set params ''service'' name"

datatype 'a page_content = Waiting | Live_Content 'a | History_Content "'a option"

text \<open>\<open>ProcessesContent\<close> and \<open>ServicesContent\<close>: the list, and the detail of the
  selected item when the current list has it.\<close>

definition processes_content ::
  "(string \<Rightarrow> string \<Rightarrow> rat) \<Rightarrow> string \<Rightarrow> sort_state \<Rightarrow> rat option \<Rightarrow> metrics_snapshot \<Rightarrow>
   process_info list \<times> process_detail option" where
  "processes_content collate search s sel snap =
     (let rows = process_rows collate search s (processInfos (payload snap))
      in (rows, map_option (\<lambda>p. process_detail_panel ''/services'' p (serviceInfos (payload snap)))
            (selected_process sel rows)))"

definition services_content ::
  "(string \<Rightarrow> string \<Rightarrow> rat) \<Rightarrow> service_mode \<Rightarrow> expanded \<Rightarrow> string \<Rightarrow> string option \<Rightarrow>
   metrics_snapshot \<Rightarrow> row list \<times> service_detail option" where
  "services_content collate m expanded search sel snap =
     (let services = serviceInfos (payload snap)
      in (service_rows collate m expanded search services,
          map_option (\<lambda>s. service_detail_panel ''/processes'' s (processInfos (payload snap)))
            (selected_service sel (filter_services search services))))"

text \<open>The frame that both pages share: a page of its own has a history mode, whose
  content reads the selected sample instead of the live snapshot.\<close>

definition split_page ::
  "surface \<Rightarrow> bool \<Rightarrow> metrics_snapshot option \<Rightarrow> metrics_snapshot option \<Rightarrow>
   (metrics_snapshot \<Rightarrow> 'a) \<Rightarrow> 'a page_content" where
  "split_page surface history current sample content =
     (let historyMode = (surface = Page_Surface \<and> history) in
      if \<not> historyMode \<and> current = None then Waiting
      else if historyMode then History_Content (map_option content sample)
      else Live_Content (content (the current)))"

section \<open>Facts\<close>

lemma comparator_column:
  assumes "comparator_on UNIV collate"
  shows "comparator_on UNIV (column_cmp collate key)"
proof (cases key)
  case Sort_Pid
  then have "column_cmp collate key = (\<lambda>a b. of_int (pid a) - of_int (pid b))" by (auto simp: fun_eq_iff)
  then show ?thesis using difference.pulled_back [of "\<lambda>p. of_int (pid p)" UNIV] by simp
next
  case Sort_Cpu
  then have "column_cmp collate key = (\<lambda>a b. cpuUsage a - cpuUsage b)" by (auto simp: fun_eq_iff)
  then show ?thesis using difference.pulled_back [of cpuUsage UNIV] by simp
next
  case Sort_Mem
  then have "column_cmp collate key = (\<lambda>a b. memoryUsage a - memoryUsage b)" by (auto simp: fun_eq_iff)
  then show ?thesis using difference.pulled_back [of memoryUsage UNIV] by simp
next
  case Sort_User
  then have "column_cmp collate key = (\<lambda>a b. collate (p_user a) (p_user b))" by (auto simp: fun_eq_iff)
  then show ?thesis using comparator_on.pulled_back [OF assms, of p_user UNIV] by simp
qed

lemma comparator_process:
  assumes "comparator_on UNIV collate"
  shows "comparator_on UNIV (process_cmp collate s)"
proof -
  have "process_cmp collate s =
      (if sortAsc s then column_cmp collate (sortKey s) else (\<lambda>a b. - column_cmp collate (sortKey s) a b))"
    by (auto simp: process_cmp_def fun_eq_iff)
  then show ?thesis
    using comparator_column [OF assms] comparator_on.negated [OF comparator_column [OF assms]] by simp
qed

lemma comparator_subset: "comparator_on UNIV cmp \<Longrightarrow> comparator_on A cmp"
  using comparator_on.pulled_back [of UNIV cmp "\<lambda>x. x" A] by simp

definition link_query :: "string \<Rightarrow> string" where
  "link_query link = drop 1 (dropWhile (\<lambda>c. c \<noteq> CHR ''?'') link)"

lemma link_query_append: "CHR ''?'' \<notin> set prefix \<Longrightarrow> link_query (prefix @ ''?'' @ q) = q"
  by (induction prefix) (auto simp: link_query_def)

lemma service_link_params:
  "CHR ''?'' \<notin> set prefix \<Longrightarrow>
     params_parse (link_query (service_link prefix s)) = Some [(''service'', serviceName s)]"
proof -
  assume "CHR ''?'' \<notin> set prefix"
  then have "link_query (service_link prefix s) = ''service'' @ ''='' @ encode_uri_component (serviceName s)"
    using link_query_append [of prefix "''service='' @ encode_uri_component (serviceName s)"]
    by (simp add: service_link_def)
  moreover have "form_encode ''service'' = ''service''" by code_simp
  ultimately show ?thesis using params_parse_link by (simp del: append.simps)
qed

definition searched_processes :: "string \<Rightarrow> process_info list \<Rightarrow> process_info list" where
  "searched_processes search processes =
     (let q = to_lower (trim search)
      in if q = [] then processes else filter (process_matches q) processes)"

lemma process_rows_eq:
  "process_rows collate search s processes = js_sort (process_cmp collate s) (searched_processes search processes)"
  by (simp add: process_rows_def searched_processes_def Let_def)

lemma sorted_process_rows:
  assumes "comparator_on UNIV collate"
  shows "sorted_wrt (\<lambda>a b. if sortAsc s then column_cmp collate (sortKey s) a b \<le> 0
    else 0 \<le> column_cmp collate (sortKey s) a b) (js_sort (process_cmp collate s) xs)"
proof -
  have "sorted_wrt (\<lambda>a b. process_cmp collate s a b \<le> 0) (js_sort (process_cmp collate s) xs)"
    using comparator_on.sorted_js_sort [OF comparator_process [OF assms], of xs s] by (simp add: sorted_by_def)
  then show ?thesis
    by (rule sorted_wrt_mono_rel [rotated]) (simp add: process_cmp_def Let_def split: if_splits)
qed

lemma stable_process_rows:
  assumes "comparator_on UNIV collate" and "\<And>x. P x \<longleftrightarrow> column_cmp collate (sortKey s) p x = 0"
  shows "filter P (js_sort (process_cmp collate s) xs) = filter P xs"
proof -
  have "P = (\<lambda>x. process_cmp collate s p x = 0)"
    by (simp add: fun_eq_iff assms(2) process_cmp_def Let_def)
  then show ?thesis
    using comparator_on.stable_js_sort [OF comparator_process [OF assms(1)], of xs p s] by (simp add: peers_def)
qed

lemma searched_processes_eq:
  "searched_processes search processes =
     filter (\<lambda>p. contains (show_int (pid p)) (to_lower (trim search)) \<or>
       contains (to_lower (p_user p)) (to_lower (trim search)) \<or>
       contains (to_lower (command p)) (to_lower (trim search))) processes"
proof -
  have "process_matches q = (\<lambda>p. contains (show_int (pid p)) q \<or> contains (to_lower (p_user p)) q \<or>
      contains (to_lower (command p)) q)" for q by (simp add: process_matches_def fun_eq_iff)
  moreover have [simp]: "to_lower [] = []" by simp
  ultimately show ?thesis by (simp add: searched_processes_def Let_def)
qed

lemma filter_eq_single: "distinct xs \<Longrightarrow> a \<in> set xs \<Longrightarrow> filter (\<lambda>x. x = a) xs = [a]"
  by (induction xs) (auto simp: filter_empty_conv)

text \<open>Without ties the order of a sort is the reverse of the opposite sort.\<close>

lemma js_sort_opposite:
  assumes "comparator_on UNIV cmp" and "distinct xs"
    and "\<And>x y. x \<in> set xs \<Longrightarrow> y \<in> set xs \<Longrightarrow> x \<noteq> y \<Longrightarrow> cmp x y \<noteq> 0"
  shows "js_sort (\<lambda>x y. - cmp x y) xs = rev (js_sort cmp xs)"
proof -
  let ?neg = "\<lambda>x y. - cmp x y"
  have cmp: "comparator_on (set xs) cmp" and neg: "comparator_on (set xs) ?neg"
    using assms(1) comparator_on.negated [OF assms(1)] by (blast intro: comparator_subset)+
  have "sorted_by cmp (js_sort cmp xs)" by (rule comparator_on.sorted_js_sort [OF cmp]) simp
  then have "sorted_wrt (\<lambda>x y. cmp y x \<le> 0) (rev (js_sort cmp xs))"
    by (simp add: sorted_by_def sorted_wrt_rev)
  moreover have "?neg x y \<le> 0" if "cmp y x \<le> 0" for x y
    using comparator_on.skew [OF assms(1), of x y] that by fastforce
  ultimately have "sorted_wrt (\<lambda>x y. ?neg x y \<le> 0) (rev (js_sort cmp xs))"
    using sorted_wrt_mono_rel [of "rev (js_sort cmp xs)" "\<lambda>x y. cmp y x \<le> 0" "\<lambda>x y. ?neg x y \<le> 0"]
    by blast
  then have ordered: "sorted_by ?neg (rev (js_sort cmp xs))" by (simp add: sorted_by_def)
  have single: "peers ?neg a ys = [a]" if "a \<in> set xs" "distinct ys" "set ys = set xs" for a ys
  proof -
    have "filter (\<lambda>y. ?neg a y = 0) ys = filter (\<lambda>y. y = a) ys"
      using that assms(3) comparator_on.reflexive [OF assms(1)] by (intro filter_cong) auto
    then show ?thesis using that filter_eq_single [of ys a] by (simp add: peers_def)
  qed
  show ?thesis
  proof (rule comparator_on.stable_sort_unique [OF neg _ ordered])
    show "sorted_by ?neg (js_sort ?neg xs)" by (rule comparator_on.sorted_js_sort [OF neg]) simp
    show "peers ?neg a (js_sort ?neg xs) = peers ?neg a (rev (js_sort cmp xs))" if "a \<in> set xs" for a
      using single [OF that, of "js_sort ?neg xs"] single [OF that, of "rev (js_sort cmp xs)"] assms(2)
      by simp
  qed simp_all
qed

section \<open>Properties\<close>

text \<open>C36: the table shows exactly the processes that match the search, each as often as it is
  reported: those whose identifier, user or command has the trimmed text somewhere, in any
  case, and all when there is no text. The chosen column rises from row to row when the
  order is ascending and falls otherwise, users compared by the collation, and processes
  with the same value in the column keep the order in which the host reports them.\<close>

theorem process_rows_correct:
  assumes "comparator_on UNIV collate"
  shows "let r = process_rows collate search s processes; up = sortAsc s; q = to_lower (trim search);
      has = (\<lambda>text. \<exists>before after. text = before @ q @ after);
      found = filter (\<lambda>p. has (show_int (pid p)) \<or> has (to_lower (p_user p)) \<or> has (to_lower (command p))) processes in
    mset r = mset found \<and>
    (case sortKey s of
       Sort_Pid \<Rightarrow> sorted_wrt (\<lambda>a b. if up then pid a \<le> pid b else pid b \<le> pid a) r \<and>
         (\<forall>x. filter (\<lambda>p. pid p = x) r = filter (\<lambda>p. pid p = x) found)
     | Sort_Cpu \<Rightarrow> sorted_wrt (\<lambda>a b. if up then cpuUsage a \<le> cpuUsage b else cpuUsage b \<le> cpuUsage a) r \<and>
         (\<forall>x. filter (\<lambda>p. cpuUsage p = x) r = filter (\<lambda>p. cpuUsage p = x) found)
     | Sort_Mem \<Rightarrow> sorted_wrt (\<lambda>a b. if up then memoryUsage a \<le> memoryUsage b else memoryUsage b \<le> memoryUsage a) r \<and>
         (\<forall>x. filter (\<lambda>p. memoryUsage p = x) r = filter (\<lambda>p. memoryUsage p = x) found)
     | Sort_User \<Rightarrow> sorted_wrt (\<lambda>a b. if up then collate (p_user a) (p_user b) \<le> 0 else 0 \<le> collate (p_user a) (p_user b)) r \<and>
         (\<forall>u. filter (\<lambda>p. collate u (p_user p) = 0) r = filter (\<lambda>p. collate u (p_user p) = 0) found))"
proof -
  let ?q = "to_lower (trim search)"
  let ?has = "\<lambda>text. \<exists>before after. text = before @ ?q @ after"
  let ?found = "filter (\<lambda>p. ?has (show_int (pid p)) \<or> ?has (to_lower (p_user p)) \<or> ?has (to_lower (command p))) processes"
  let ?r = "process_rows collate search s processes"
  have "searched_processes search processes = ?found"
    unfolding searched_processes_eq contains_iff ..
  then have r: "?r = js_sort (process_cmp collate s) ?found" by (simp only: process_rows_eq)
  have up_down: "sorted_wrt (\<lambda>a b. if sortAsc s then column_cmp collate (sortKey s) a b \<le> 0
      else 0 \<le> column_cmp collate (sortKey s) a b) ?r"
    using sorted_process_rows [OF assms, of s ?found] unfolding r by simp
  note ties = stable_process_rows [OF assms, where xs = ?found and s = s, folded r]
  let ?w = "\<lambda>u i x. \<lparr> p_user = u, pid = i, cpuUsage = x, memoryUsage = x, command = [] \<rparr>"
  have "mset ?r = mset ?found" by (simp add: r)
  moreover have "sortKey s = Sort_Pid \<Longrightarrow> filter (\<lambda>p. pid p = i) ?r = filter (\<lambda>p. pid p = i) ?found" for i
    by (rule ties [where p = "?w [] i 0"]) auto
  moreover have "sortKey s = Sort_Cpu \<Longrightarrow> filter (\<lambda>p. cpuUsage p = x) ?r = filter (\<lambda>p. cpuUsage p = x) ?found" for x
    by (rule ties [where p = "?w [] 0 x"]) auto
  moreover have "sortKey s = Sort_Mem \<Longrightarrow> filter (\<lambda>p. memoryUsage p = x) ?r = filter (\<lambda>p. memoryUsage p = x) ?found" for x
    by (rule ties [where p = "?w [] 0 x"]) auto
  moreover have "sortKey s = Sort_User \<Longrightarrow>
      filter (\<lambda>p. collate u (p_user p) = 0) ?r = filter (\<lambda>p. collate u (p_user p) = 0) ?found" for u
    by (rule ties [where p = "?w u 0 0"]) auto
  ultimately show ?thesis
    unfolding Let_def using up_down by (cases "sortKey s") (simp_all cong: if_cong)
qed

text \<open>A second click on the heading of a column reverses the table, when no two of the
  listed processes are equal in that column.\<close>

lemma second_click_reverses:
  assumes "comparator_on UNIV collate" and "distinct processes"
    and "\<And>p q. p \<in> set processes \<Longrightarrow> q \<in> set processes \<Longrightarrow> p \<noteq> q \<Longrightarrow>
      column_cmp collate (sortKey s) p q \<noteq> 0"
  shows "process_rows collate search (toggleSort (sortKey s) s) processes =
    rev (process_rows collate search s processes)"
proof -
  have "process_cmp collate (toggleSort (sortKey s) s) = (\<lambda>a b. - process_cmp collate s a b)"
    by (auto simp: process_cmp_def toggleSort_def fun_eq_iff Let_def)
  moreover have "process_cmp collate s p q \<noteq> 0" if "p \<in> set processes" "q \<in> set processes" "p \<noteq> q" for p q
    using assms(3) [OF that] by (simp add: process_cmp_def Let_def)
  moreover have "distinct (searched_processes search processes)"
    "set (searched_processes search processes) \<subseteq> set processes"
    using assms(2) by (auto simp: searched_processes_def Let_def)
  ultimately show ?thesis
    unfolding process_rows_eq using assms(1)
    by (simp only:) (intro js_sort_opposite comparator_process, auto)
qed

theorem process_rows_correct_witness:
  "sorted_wrt (\<lambda>a b. cpuUsage b \<le> cpuUsage a)
     (process_rows (\<lambda>_ _. 0) ''A'' initial_sort [sample_process 1 2 ''a'', sample_process 2 3 ''ba''])"
  using process_rows_correct [of "\<lambda>_ _. 0" "''A''" initial_sort
      "[sample_process 1 2 ''a'', sample_process 2 3 ''ba'']"]
  by (simp add: comparator_on_def initial_sort_def Let_def)

lemma second_click_reverses_witness:
  "process_rows (\<lambda>_ _. 0) [] (toggleSort Sort_Cpu initial_sort)
     [sample_process 1 2 ''a'', sample_process 2 3 ''b''] =
   rev (process_rows (\<lambda>_ _. 0) [] initial_sort [sample_process 1 2 ''a'', sample_process 2 3 ''b''])"
proof -
  let ?ps = "[sample_process 1 2 ''a'', sample_process 2 3 ''b'']"
  have "column_cmp (\<lambda>_ _. 0) (sortKey initial_sort) p q \<noteq> 0"
    if "p \<in> set ?ps" "q \<in> set ?ps" "p \<noteq> q" for p q
    using that by (auto simp: initial_sort_def sample_process_def)
  from second_click_reverses [OF _ _ this, of ?ps "[]"] show ?thesis
    by (simp add: comparator_on_def initial_sort_def sample_process_def)
qed

text \<open>C23: the link to a related service selects that service: the name it carries in the
  query is read back unchanged, whatever characters it has, and the page of services,
  opened without a search, finds a service of that name, whose score against the process
  reaches the threshold.\<close>

theorem related_service_link_selects:
  assumes "(link, label) \<in> set (pd_related (process_detail_panel prefix p services))"
    and "CHR ''?'' \<notin> set prefix"
  shows "\<exists>ps s s'. params_parse (link_query link) = Some ps \<and>
    selected_service (params_get ps ''service'') (filter_services [] services) = Some s' \<and>
    s \<in> set services \<and> serviceName s' = serviceName s \<and> 55 \<le> scoreServiceProcess s p"
proof -
  obtain m where m: "m \<in> set (related_services p services)" and link: "link = service_link prefix (m_service m)"
    using assms(1) by (auto simp: process_detail_panel_def)
  let ?s = "m_service m"
  from m have s: "?s \<in> set services" "55 \<le> scoreServiceProcess ?s p"
    unfolding findServices_eq using set_take_slice_subset by (fastforce simp: in_candidates)+
  have "filter_services [] services = services"
    by (simp add: filter_services_def trim_def to_lower_def)
  moreover obtain s' where "find (\<lambda>x. serviceName x = serviceName ?s) services = Some s'"
    using s(1) by (cases "find (\<lambda>x. serviceName x = serviceName ?s) services") (auto simp: find_None_iff_all)
  moreover from this have "serviceName s' = serviceName ?s" by (auto dest: find_Some_D)
  ultimately show ?thesis
    using s service_link_params [OF assms(2), of ?s]
    by (intro exI [of _ "[(''service'', serviceName ?s)]"] exI [of _ ?s] exI [of _ s'])
       (simp add: link selected_service_def)
qed

text \<open>On the hub, the links to the related items of an agent lead away from the agent:
  the pages never pass the prefix of the agent's paths, so a related service of a process
  of an agent is looked up on the page of services of the hub's own host.\<close>

lemma related_links_leave_the_agent:
  assumes "snd (processes_content collate search s sel snap) = Some d"
    and "(link, label) \<in> set (pd_related d)"
  shows "\<not> useIsHubAgentContext link \<and> takeWhile (\<lambda>c. c \<noteq> CHR ''?'') link = ''/services''"
proof -
  obtain x where link: "link = ''/services'' @ ''?'' @ x"
    using assms by (auto simp: processes_content_def Let_def process_detail_panel_def service_link_def)
  have "\<not> useIsHubAgentContext link"
    by (simp add: link useIsHubAgentContext_def)
  then show ?thesis by (simp add: link)
qed

text \<open>A click on a row of the table selects a process with that identifier and keeps
  every other parameter of the location, when \<open>Number\<close> reads back what \<open>String\<close> wrote.\<close>

lemma row_click_selects:
  assumes "\<And>n. str_num (show_int n) = Some (of_int n)" and "p \<in> set rows"
  shows "(\<exists>q\<in>set rows. selected_process (page_selectedPid str_num (onSelectPid ps (pid p))) rows = Some q \<and>
      pid q = pid p) \<and>
    (k = ''pid'' \<or> params_get (onSelectPid ps (pid p)) k = params_get ps k)"
proof -
  have sel: "page_selectedPid str_num (onSelectPid ps (pid p)) = Some (of_int (pid p))"
    using assms(1) by (simp add: page_selectedPid_def onSelectPid_def query.get_put_same)
  obtain q where "find (\<lambda>x. pid x = pid p) rows = Some q"
    using assms(2) by (cases "find (\<lambda>x. pid x = pid p) rows") (auto simp: find_None_iff_all)
  with sel show ?thesis
    using query.get_put_other [of k "''pid''" ps "show_int (pid p)"]
    by (auto simp: selected_process_def onSelectPid_def dest: find_Some_D)
qed

text \<open>A host with a service that runs the process of its name, for the closed instances.\<close>

definition nginx_payload :: metrics_payload where
  "nginx_payload = idle_payload\<lparr> processInfos := [sample_process 7 1 ''nginx''],
     serviceInfos := [sample_service ''nginx''] \<rparr>"

lemma nginx_related:
  "m_service (hd (related_services (sample_process 7 1 ''nginx'') [sample_service ''nginx''])) = sample_service ''nginx''"
  "related_services (sample_process 7 1 ''nginx'') [sample_service ''nginx''] \<noteq> []"
  by code_simp+

lemma nginx_link:
  "\<exists>label. (service_link prefix (sample_service ''nginx''), label)
     \<in> set (pd_related (process_detail_panel prefix (sample_process 7 1 ''nginx'') [sample_service ''nginx'']))"
proof -
  obtain m ms where "related_services (sample_process 7 1 ''nginx'') [sample_service ''nginx''] = m # ms"
    using nginx_related(2) by (meson neq_Nil_conv)
  then show ?thesis using nginx_related(1) by (auto simp: process_detail_panel_def)
qed

theorem related_service_link_selects_witness:
  "\<exists>ps s'. params_parse (link_query (service_link ''/services'' (sample_service ''nginx''))) = Some ps \<and>
     selected_service (params_get ps ''service'') (filter_services [] [sample_service ''nginx'']) = Some s'"
proof -
  obtain label where "(service_link ''/services'' (sample_service ''nginx''), label)
     \<in> set (pd_related (process_detail_panel ''/services'' (sample_process 7 1 ''nginx'') [sample_service ''nginx'']))"
    using nginx_link by blast
  from related_service_link_selects [OF this] show ?thesis by auto
qed

lemma related_links_leave_the_agent_witness:
  "\<not> useIsHubAgentContext (service_link ''/services'' (sample_service ''nginx''))"
proof -
  let ?snap = "\<lparr> collectedAt = [], payload = nginx_payload \<rparr>"
  obtain label where "(service_link ''/services'' (sample_service ''nginx''), label)
     \<in> set (pd_related (process_detail_panel ''/services'' (sample_process 7 1 ''nginx'') [sample_service ''nginx'']))"
    using nginx_link by blast
  moreover have "snd (processes_content (\<lambda>_ _. 0) [] initial_sort (Some 7) ?snap) =
      Some (process_detail_panel ''/services'' (sample_process 7 1 ''nginx'') [sample_service ''nginx''])"
    by (simp add: processes_content_def process_rows_def trim_def to_lower_def selected_process_def
        nginx_payload_def idle_payload_def sample_process_def)
  ultimately show ?thesis using related_links_leave_the_agent by blast
qed

lemma row_click_selects_witness:
  "params_get (onSelectPid [(''tab'', ''x'')] 7) ''tab'' = Some ''x''"
proof -
  have "(\<lambda>s. Some (of_int (read_int s))) (show_int n) = Some (of_int n :: rat)" for n by simp
  from row_click_selects [of "\<lambda>s. Some (of_int (read_int s))", OF this,
      of "sample_process 7 1 ''a''" "[sample_process 7 1 ''a'']" "[(''tab'', ''x'')]" "''tab''"]
  show ?thesis by (simp add: sample_process_def)
qed

end
