(* ===== verification/JsParse.thy ===== *)
theory JsParse
  imports JsDate
begin

text \<open>
  \<open>Number(text)\<close>: the value of a numeric text, \<open>None\<close> for \<open>NaN\<close>. Spaces around it are
  ignored and nothing is the number zero; the forms are the hexadecimal, octal and
  binary ones and decimals with an optional sign, fraction and exponent. \<open>Infinity\<close>,
  which is no rational, is \<open>None\<close> as well: no identifier and no field equals it. The
  lemmas show that the text of an integer is read back.
\<close>

definition radix_digit :: "char \<Rightarrow> nat" where
  "radix_digit c =
     (let n = char_code c in
      if 48 \<le> n \<and> n \<le> 57 then n - 48
      else if 65 \<le> n \<and> n \<le> 90 then n - 55
      else if 97 \<le> n \<and> n \<le> 122 then n - 87
      else 36)"

definition read_radix :: "nat \<Rightarrow> string \<Rightarrow> rat option" where
  "read_radix b s =
     (if s \<noteq> [] \<and> list_all (\<lambda>c. radix_digit c < b) s
      then Some (of_nat (foldl (\<lambda>n c. b * n + radix_digit c) 0 s)) else None)"

definition radix_prefix :: "string \<Rightarrow> nat option" where
  "radix_prefix s =
     (if take 2 s \<in> {''0x'', ''0X''} then Some 16
      else if take 2 s \<in> {''0o'', ''0O''} then Some 8
      else if take 2 s \<in> {''0b'', ''0B''} then Some 2
      else None)"

definition split_sign :: "string \<Rightarrow> bool \<times> string" where
  "split_sign s =
     (case s of
        c # r \<Rightarrow> (if c = CHR ''-'' then (True, r) else if c = CHR ''+'' then (False, r) else (False, s))
      | [] \<Rightarrow> (False, s))"

definition read_exponent :: "string \<Rightarrow> int option" where
  "read_exponent s =
     (case s of
        [] \<Rightarrow> Some 0
      | c # r \<Rightarrow>
          (let (neg, ds) = split_sign r
           in if c \<in> {CHR ''e'', CHR ''E''} \<and> ds \<noteq> [] \<and> list_all is_digit ds
              then Some (if neg then - int (read_nat ds) else int (read_nat ds)) else None))"

definition scale10 :: "int \<Rightarrow> rat" where
  "scale10 e = (if 0 \<le> e then 10 ^ nat e else 1 / 10 ^ nat (- e))"

definition read_decimal :: "string \<Rightarrow> rat option" where
  "read_decimal u =
     (let whole = takeWhile is_digit u; r = dropWhile is_digit u;
          fraction = (if take 1 r = ''.'' then takeWhile is_digit (drop 1 r) else []);
          rest = (if take 1 r = ''.'' then dropWhile is_digit (drop 1 r) else r)
      in if whole = [] \<and> fraction = [] then None
         else map_option (\<lambda>e. of_nat (read_nat (whole @ fraction)) * scale10 (e - int (length fraction)))
           (read_exponent rest))"

definition js_number :: "string \<Rightarrow> rat option" where
  "js_number s =
     (let s' = trim s
      in if s' = [] then Some 0
         else (case radix_prefix s' of
            Some b \<Rightarrow> read_radix b (drop 2 s')
          | None \<Rightarrow>
              (let (neg, u) = split_sign s' in map_option (\<lambda>v. if neg then - v else v) (read_decimal u))))"

section \<open>Facts\<close>

lemma js_number_Nil [simp]: "js_number [] = Some 0"
  by (simp add: js_number_def trim_def)

lemma digit_not_space: "is_digit c \<Longrightarrow> \<not> is_space c"
  by (auto simp: is_digit_def is_space_def Let_def)

lemma trim_no_space:
  assumes "\<forall>c\<in>set s. \<not> is_space c"
  shows "trim s = s"
proof -
  have same: "dropWhile is_space xs = xs" if "\<forall>c\<in>set xs. \<not> is_space c" for xs
    using that by (cases xs) simp_all
  show ?thesis using same [of s] same [of "rev s"] assms by (simp add: trim_def)
qed

lemma show_nat_all_digits: "list_all is_digit (show_nat n)"
  using show_nat_digits by (auto simp: list_all_iff is_digit_iff)

lemma read_decimal_digits:
  assumes "list_all is_digit s" and "s \<noteq> []"
  shows "read_decimal s = Some (of_nat (read_nat s))"
proof -
  have "takeWhile is_digit s = s" "dropWhile is_digit s = []" using assms(1) by (simp_all add: list_all_iff)
  with assms(2) show ?thesis
    by (simp add: read_decimal_def Let_def read_exponent_def scale10_def
        del: takeWhile_eq_all_conv dropWhile_eq_Nil_conv)
qed

lemma digits_no_radix:
  assumes "list_all is_digit s"
  shows "radix_prefix s = None" and "radix_prefix (CHR ''-'' # s) = None"
proof -
  have "\<not> is_digit (CHR ''x'')" "\<not> is_digit (CHR ''X'')" "\<not> is_digit (CHR ''o'')" "\<not> is_digit (CHR ''O'')"
    "\<not> is_digit (CHR ''b'')" "\<not> is_digit (CHR ''B'')"
    by (simp_all add: is_digit_iff char_code_def)
  moreover have "c \<in> set s" if "take 2 s = [b, c]" for b c
    using that by (metis in_set_takeD list.set_intros)
  ultimately show "radix_prefix s = None" and "radix_prefix (CHR ''-'' # s) = None"
    using assms by (auto simp: radix_prefix_def list_all_iff)
qed

lemma js_number_show_int: "js_number (show_int n) = Some (of_int n)"
proof -
  let ?ds = "show_nat (nat \<bar>n\<bar>)"
  have digits: "list_all is_digit ?ds" "?ds \<noteq> []" by (simp_all add: show_nat_all_digits)
  then obtain c cs where ds: "?ds = c # cs" and c: "is_digit c" by (cases ?ds) auto
  have "\<not> is_space (CHR ''-'')" by (simp add: is_space_def char_code_def)
  then have trimmed: "trim ?ds = ?ds" "trim (CHR ''-'' # ?ds) = CHR ''-'' # ?ds"
    using digits(1) digit_not_space by (auto simp: list_all_iff intro!: trim_no_space)
  have "split_sign ?ds = (False, ?ds)"
    using c by (auto simp: ds split_sign_def is_digit_iff char_code_def)
  moreover have "split_sign (CHR ''-'' # ?ds) = (True, ?ds)" by (simp add: split_sign_def)
  ultimately show ?thesis
    using trimmed digits digits_no_radix [OF digits(1)] read_decimal_digits [OF digits]
    by (cases "n < 0") (simp_all add: js_number_def show_int_def Let_def)
qed

text \<open>The text of \<open>toFixed\<close> is read back as the rounded value.\<close>

lemma js_number_plain:
  assumes "\<forall>c\<in>set s. is_digit c \<or> c = CHR ''.''" and "s \<noteq> []"
  shows "js_number s = read_decimal s"
proof -
  have "\<forall>d\<in>set ''xXoObB+-''. \<not> is_digit d \<and> d \<noteq> CHR ''.''" by code_simp
  with assms(1) have free: "d \<notin> set s" if "d \<in> set ''xXoObB+-''" for d using that by blast
  have tail: "c \<in> set s" if "take 2 s = [b, c]" for b c using that by (metis in_set_takeD list.set_intros)
  have "radix_prefix s = None"
    using tail [of "CHR ''0''"] free by (simp add: radix_prefix_def) blast
  moreover have "split_sign s = (False, s)"
    using free [of "CHR ''-''"] free [of "CHR ''+''"] by (auto simp: split_sign_def split: list.split)
  moreover have "\<not> is_space (CHR ''.'')" by code_simp
  then have "trim s = s" using assms(1) digit_not_space by (intro trim_no_space) blast
  ultimately show ?thesis using assms(2) by (simp add: js_number_def option.map_ident)
qed

lemma read_decimal_point:
  assumes "list_all is_digit a" and "list_all is_digit b" and "a \<noteq> []"
  shows "read_decimal (a @ CHR ''.'' # b) = Some (of_nat (read_nat (a @ b)) * scale10 (- int (length b)))"
proof -
  have "\<not> is_digit (CHR ''.'')" by (simp add: is_digit_iff char_code_def)
  then have "takeWhile is_digit (a @ CHR ''.'' # b) = a" "dropWhile is_digit (a @ CHR ''.'' # b) = CHR ''.'' # b"
    "takeWhile is_digit b = b" "dropWhile is_digit b = []"
    using assms(1,2) by (auto simp: list_all_iff takeWhile_append2 dropWhile_append2)
  then show ?thesis
    using assms(3) by (simp add: read_decimal_def read_exponent_def Let_def
        del: takeWhile_eq_all_conv dropWhile_eq_Nil_conv)
qed

lemma js_number_fixed_digits:
  assumes "0 < f"
  shows "js_number (fixed_digits f n) = Some (of_nat n / 10 ^ f)"
    and "\<forall>c\<in>set (fixed_digits f n). is_digit c \<or> c = CHR ''.''"
proof -
  define ps where "ps = replicate (Suc f - length (show_nat n)) (CHR ''0'') @ show_nat n"
  define a b where "a = take (length ps - f) ps" and "b = drop (length ps - f) ps"
  have fixed: "fixed_digits f n = a @ CHR ''.'' # b" and ps: "a @ b = ps"
    using assms unfolding fixed_digits_def Let_def ps_def [symmetric] a_def b_def by simp_all
  have len: "Suc f \<le> length ps" by (simp add: ps_def)
  then have b: "length b = f" and a: "a \<noteq> []" by (auto simp: a_def b_def)
  have "is_digit (CHR ''0'')" by (simp add: is_digit_iff char_code_def)
  then have "list_all is_digit ps" using show_nat_all_digits [of n]
    by (auto simp: ps_def list_all_iff simp del: set_replicate_conv_if dest: in_set_replicate [THEN iffD1])
  then have digits: "list_all is_digit a" "list_all is_digit b" by (simp_all flip: ps)
  then show plain: "\<forall>c\<in>set (fixed_digits f n). is_digit c \<or> c = CHR ''.''" by (auto simp: fixed list_all_iff)
  have "read_nat (a @ b) = n" by (simp add: ps ps_def read_nat_append read_nat_zeros)
  then have "read_decimal (fixed_digits f n) = Some (of_nat n / 10 ^ f)"
    using read_decimal_point [OF digits a] assms by (simp add: fixed b scale10_def)
  then show "js_number (fixed_digits f n) = Some (of_nat n / 10 ^ f)"
    using js_number_plain [OF plain] by (simp add: fixed)
qed

lemma js_number_to_fixed: "0 < f \<Longrightarrow> 0 \<le> x \<Longrightarrow> js_number (to_fixed f x) = Some (of_nat (scaled f x) / 10 ^ f)"
  by (simp add: to_fixed_def js_number_fixed_digits(1))

lemma to_fixed_no_space: "0 < f \<Longrightarrow> c \<in> set (to_fixed f x) \<Longrightarrow> c \<noteq> CHR '' ''"
  using js_number_fixed_digits(2) [of f "scaled f x"]
  by (auto simp: to_fixed_def is_digit_iff char_code_def split: if_splits)

end
