(* ===== verification/Controls.thy ===== *)
theory Controls
  imports HistoryView Format JsParse Layout
begin

text \<open>
  The small controls: \<open>src/components/PillTabs.tsx\<close>, \<open>LiveHistoryToggle.tsx\<close>,
  \<open>SearchInput.tsx\<close>, \<open>LiveIndicator.tsx\<close>, \<open>CopyButton.tsx\<close>, the field of
  \<open>HubAlertSettings.tsx\<close>, the locale of \<open>AppShell.tsx\<close> and \<open>src/i18n/index.ts\<close>, and
  \<open>src/hooks/useScrollDetailOnSelect.ts\<close>. The copy button is a state machine over its
  pending writes and its timers; the clock advances to a timer at most, so that timers
  fire when they are due.
\<close>

section \<open>Tabs\<close>

text \<open>\<open>Array.prototype.findIndex\<close>\<close>

fun find_index :: "('a \<Rightarrow> bool) \<Rightarrow> 'a list \<Rightarrow> int" where
  "find_index P [] = - 1"
| "find_index P (x # xs) =
     (if P x then 0 else (let i = find_index P xs in if i = - 1 then - 1 else i + 1))"

record ('i, 'l) tab_button =
  tb_id :: 'i
  tb_label :: 'l
  tb_active :: bool

record ('i, 'l) pill_tabs =
  pt_columns :: nat
  pt_marker :: int
  pt_buttons :: "('i, 'l) tab_button list"

definition pillTabs :: "('i \<times> 'l) list \<Rightarrow> 'i \<Rightarrow> ('i, 'l) pill_tabs" where
  "pillTabs tabs active =
     \<lparr> pt_columns = length tabs, pt_marker = max (find_index (\<lambda>t. fst t = active) tabs) 0,
       pt_buttons = map (\<lambda>(i, l). \<lparr> tb_id = i, tb_label = l, tb_active = (active = i) \<rparr>) tabs \<rparr>"

text \<open>The marker in a bar that is \<open>w\<close> pixels wide: \<open>calc(idx * (100% / n) + 4px)\<close> and
  \<open>calc(100% / n - 8px)\<close>.\<close>

definition marker_left :: "('i, 'l) pill_tabs \<Rightarrow> rat \<Rightarrow> rat" where
  "marker_left p w = of_int (pt_marker p) * (w / of_nat (pt_columns p)) + 4"

definition marker_width :: "('i, 'l) pill_tabs \<Rightarrow> rat \<Rightarrow> rat" where
  "marker_width p w = w / of_nat (pt_columns p) - 8"

definition segmentedControl :: "('i \<times> 'l) list \<Rightarrow> 'i \<Rightarrow> ('i, 'l) pill_tabs" where
  "segmentedControl options value = pillTabs options value"

definition liveHistoryToggle :: "(string \<Rightarrow> 'l) \<Rightarrow> history_view \<Rightarrow> (view_mode, 'l) pill_tabs" where
  "liveHistoryToggle t hv =
     segmentedControl [(Live, t ''app.live''), (History, t ''app.history'')] (viewMode hv)"

section \<open>Search field, indicator, number field\<close>

record search_input =
  si_value :: string
  si_placeholder :: string
  si_shortcut :: "string option"

definition searchInput :: "string \<Rightarrow> string \<Rightarrow> string option \<Rightarrow> search_input" where
  "searchInput value placeholder shortcut =
     \<lparr> si_value = value, si_placeholder = placeholder,
       si_shortcut = (if shortcut = Some [] then None else shortcut) \<rparr>"

record live_indicator =
  li_pulse :: bool
  li_label :: string
  li_time :: string

text \<open>\<open>Some None\<close> is an invalid date, which prints as such in every locale.\<close>

definition liveIndicator ::
  "(string \<Rightarrow> string) \<Rightarrow> (int \<Rightarrow> string \<Rightarrow> string) \<Rightarrow> string \<Rightarrow> string \<Rightarrow> bool \<Rightarrow> int option option \<Rightarrow>
   live_indicator" where
  "liveIndicator t locale_time dash language is_live lastUpd =
     \<lparr> li_pulse = is_live, li_label = (if is_live then t ''app.live'' else t ''app.offline''),
       li_time = t ''app.lastUpdate'' @ '': '' @
         (if lastUpd = Some None then ''Invalid Date''
          else formatTime locale_time dash (case lastUpd of None \<Rightarrow> None | Some d \<Rightarrow> d) language) \<rparr>"

record number_field =
  nf_label :: string
  nf_value :: rat
  nf_min :: rat
  nf_max :: rat
  nf_step :: rat
  nf_disabled :: bool

text \<open>\<open>onChange(Number(e.target.value))\<close>; the value of a number input is empty or a number.\<close>

definition number_change :: "string \<Rightarrow> rat option" where
  "number_change entered = js_number entered"

section \<open>Copying\<close>

record copy_button =
  cb_copied :: bool
  cb_writes :: "string list"
  cb_timers :: "int list"
  cb_now :: int
  cb_clipboard :: "string option"

definition copy_mount :: copy_button where
  "copy_mount = \<lparr> cb_copied = False, cb_writes = [], cb_timers = [], cb_now = 0, cb_clipboard = None \<rparr>"

definition copy_click :: "string \<Rightarrow> copy_button \<Rightarrow> copy_button" where
  "copy_click v st = st\<lparr> cb_writes := cb_writes st @ [v] \<rparr>"

definition copy_written :: "nat \<Rightarrow> copy_button \<Rightarrow> copy_button" where
  "copy_written i st =
     st\<lparr> cb_writes := drop_nth i (cb_writes st), cb_clipboard := Some (cb_writes st ! i),
         cb_copied := True, cb_timers := cb_timers st @ [cb_now st + 1500] \<rparr>"

definition copy_refused :: "nat \<Rightarrow> copy_button \<Rightarrow> copy_button" where
  "copy_refused i st = st\<lparr> cb_writes := drop_nth i (cb_writes st) \<rparr>"

definition copy_timer :: "nat \<Rightarrow> copy_button \<Rightarrow> copy_button" where
  "copy_timer i st = st\<lparr> cb_timers := drop_nth i (cb_timers st), cb_copied := False \<rparr>"

definition copy_wait :: "int \<Rightarrow> copy_button \<Rightarrow> copy_button" where
  "copy_wait d st = st\<lparr> cb_now := cb_now st + d \<rparr>"

lemmas copy_defs = copy_mount_def copy_click_def copy_written_def copy_refused_def copy_timer_def copy_wait_def

inductive copy_step :: "copy_button \<Rightarrow> copy_button \<Rightarrow> bool" where
  click: "copy_step st (copy_click v st)"
| written: "i < length (cb_writes st) \<Longrightarrow> copy_step st (copy_written i st)"
| refused: "i < length (cb_writes st) \<Longrightarrow> copy_step st (copy_refused i st)"
| timer: "i < length (cb_timers st) \<Longrightarrow> cb_timers st ! i \<le> cb_now st \<Longrightarrow> copy_step st (copy_timer i st)"
| pass: "0 < d \<Longrightarrow> \<forall>due\<in>set (cb_timers st). cb_now st + d \<le> due \<Longrightarrow> copy_step st (copy_wait d st)"

inductive_cases copy_stepE: "copy_step st st'"

definition copy_reachable :: "copy_button \<Rightarrow> bool" where
  "copy_reachable st = copy_step\<^sup>*\<^sup>* copy_mount st"

text \<open>\<open>label ?? t(...)\<close>\<close>

definition copy_label :: "(string \<Rightarrow> string) \<Rightarrow> string option \<Rightarrow> copy_button \<Rightarrow> string" where
  "copy_label t label st =
     (if cb_copied st then t ''containers.detail.copied''
      else case label of Some l \<Rightarrow> l | None \<Rightarrow> t ''containers.detail.copyId'')"

section \<open>Locale\<close>

record locale_state =
  lc_language :: string
  lc_storage :: "string \<rightharpoonup> string"

definition initial_language :: "(string \<rightharpoonup> string) \<Rightarrow> string" where
  "initial_language storage =
     (case storage ''imc.locale'' of None \<Rightarrow> ''en'' | Some l \<Rightarrow> if l = [] then ''en'' else l)"

definition switchLocale :: "string \<Rightarrow> locale_state \<Rightarrow> locale_state" where
  "switchLocale lng st =
     st\<lparr> lc_language := lng, lc_storage := (lc_storage st)(''imc.locale'' \<mapsto> lng) \<rparr>"

text \<open>The two buttons and whether they are marked.\<close>

definition locale_buttons :: "locale_state \<Rightarrow> (string \<times> bool) list" where
  "locale_buttons st = [(''EN'', lc_language st = ''en''), (''TR'', lc_language st = ''tr'')]"

section \<open>Scrolling to the detail\<close>

text \<open>\<open>wide\<close> is the answer to the media query; a frame that runs after the pane is gone
  scrolls nothing.\<close>

record 'e scroll_hook =
  sc_frames :: nat
  sc_scrolled :: "'e option"

definition scroll_init :: "'e scroll_hook" where
  "scroll_init = \<lparr> sc_frames = 0, sc_scrolled = None \<rparr>"

definition afterSelect :: "bool \<Rightarrow> 'e scroll_hook \<Rightarrow> 'e scroll_hook" where
  "afterSelect wide st = (if wide then st else st\<lparr> sc_frames := Suc (sc_frames st) \<rparr>)"

definition scroll_frame :: "'e option \<Rightarrow> 'e scroll_hook \<Rightarrow> 'e scroll_hook" where
  "scroll_frame current st =
     (if sc_frames st = 0 then st
      else st\<lparr> sc_frames := sc_frames st - 1,
        sc_scrolled := (case current of None \<Rightarrow> sc_scrolled st | Some e \<Rightarrow> Some e) \<rparr>)"

section \<open>Facts\<close>

lemma find_index_bounds: "- 1 \<le> find_index P xs \<and> find_index P xs < int (length xs)"
  by (induction xs) (auto simp: Let_def)

lemma find_index_none: "find_index P xs = - 1 \<longleftrightarrow> (\<forall>x\<in>set xs. \<not> P x)"
proof (induction xs)
  case (Cons x xs)
  then show ?case using find_index_bounds [of P xs] by (auto simp: Let_def)
qed simp

lemma find_index_some: "find_index P xs = int k \<Longrightarrow> k < length xs \<and> P (xs ! k)"
proof (induction xs arbitrary: k)
  case (Cons x xs)
  then show ?case by (cases k) (auto simp: Let_def split: if_splits)
qed simp

lemma find_index_key:
  "distinct (map fst ts) \<Longrightarrow> k < length ts \<Longrightarrow> fst (ts ! k) = a \<Longrightarrow> find_index (\<lambda>t. fst t = a) ts = int k"
proof (induction ts arbitrary: k)
  case (Cons x ts)
  show ?case
  proof (cases k)
    case 0
    then show ?thesis using Cons.prems by simp
  next
    case (Suc j)
    then have j: "j < length ts" "fst (ts ! j) = a" using Cons.prems by simp_all
    then have "fst x \<noteq> a" using Cons.prems(1) by (metis distinct.simps(2) image_eqI list.map(2) nth_mem set_map)
    then show ?thesis using Cons.IH [OF _ j] Cons.prems(1) Suc by (simp add: Let_def)
  qed
qed simp

lemma length_filter_key:
  "distinct (map fst ts) \<Longrightarrow> length (filter (\<lambda>t. fst t = a) ts) = (if a \<in> fst ` set ts then 1 else 0)"
  by (induction ts) (force simp: filter_empty_conv)+

lemma copy_step_timers:
  assumes "copy_step st st'"
    and "(cb_copied st \<longrightarrow> cb_timers st \<noteq> []) \<and> (\<forall>d\<in>set (cb_timers st). cb_now st \<le> d \<and> d \<le> cb_now st + 1500)"
  shows "(cb_copied st' \<longrightarrow> cb_timers st' \<noteq> []) \<and> (\<forall>d\<in>set (cb_timers st'). cb_now st' \<le> d \<and> d \<le> cb_now st' + 1500)"
  using assms by cases (auto simp: copy_defs dest: set_drop_nth_subset [THEN subsetD])

lemma copy_reachable_timers:
  assumes "copy_reachable st"
  shows "(cb_copied st \<longrightarrow> cb_timers st \<noteq> []) \<and> (\<forall>d\<in>set (cb_timers st). cb_now st \<le> d \<and> d \<le> cb_now st + 1500)"
  using assms unfolding copy_reachable_def
  by (induction rule: rtranclp_induct) (simp add: copy_mount_def, blast dest: copy_step_timers)

lemma copy_reachable_step: "copy_reachable st \<Longrightarrow> copy_step st st' \<Longrightarrow> copy_reachable st'"
  by (simp add: copy_reachable_def)

section \<open>Properties\<close>

text \<open>A bar of tabs marks the active one: among distinct tabs exactly the active one is
  marked, and the marker lies within its column, four pixels from both ends. For an
  unknown tab no tab is marked, and the marker stands on the first one.\<close>

lemma marker_under_active_tab:
  fixes tabs :: "('i \<times> 'l) list"
  assumes "distinct (map fst tabs)" and "tabs \<noteq> []"
  shows "let p = pillTabs tabs active; column = w / of_nat (length tabs) in
    (\<forall>k < length tabs. tb_active (pt_buttons p ! k) \<longrightarrow>
       marker_left p w = of_nat k * column + 4 \<and>
       marker_left p w + marker_width p w = of_nat (Suc k) * column - 4) \<and>
    (active \<in> fst ` set tabs \<longrightarrow> length (filter tb_active (pt_buttons p)) = 1) \<and>
    (active \<notin> fst ` set tabs \<longrightarrow> filter tb_active (pt_buttons p) = [] \<and> pt_marker p = 0)"
proof -
  let ?p = "pillTabs tabs active"
  have buttons: "tb_active (pt_buttons ?p ! k) \<longleftrightarrow> fst (tabs ! k) = active" if "k < length tabs" for k
    using that by (auto simp: pillTabs_def split: prod.split)
  have marker: "pt_marker ?p = int k" if "k < length tabs" "fst (tabs ! k) = active" for k
    using find_index_key [OF assms(1) that] by (simp add: pillTabs_def)
  have columns: "pt_columns ?p = length tabs" by (simp add: pillTabs_def)
  have "\<forall>k < length tabs. tb_active (pt_buttons ?p ! k) \<longrightarrow>
      marker_left ?p w = of_nat k * (w / of_nat (length tabs)) + 4 \<and>
      marker_left ?p w + marker_width ?p w = of_nat (Suc k) * (w / of_nat (length tabs)) - 4"
    using buttons marker by (auto simp: marker_left_def marker_width_def columns algebra_simps add_divide_distrib)
  moreover have number: "length (filter tb_active (pt_buttons ?p)) = (if active \<in> fst ` set tabs then 1 else 0)"
    using length_filter_key [OF assms(1), of active] by (simp add: pillTabs_def filter_map comp_def split_beta eq_commute)
  moreover have "pt_marker ?p = 0" if "active \<notin> fst ` set tabs"
    using that find_index_none [of "\<lambda>t. fst t = active" tabs] by (force simp: pillTabs_def)
  ultimately show ?thesis unfolding Let_def by auto
qed

text \<open>The confirmation of a copy does not stay: whenever it is shown, a timer that is due
  within a second and a half is running, and the first timer that fires ends it.\<close>

lemma copied_label_ends:
  assumes "copy_reachable st" and "cb_copied st"
  shows "\<exists>i < length (cb_timers st). cb_timers st ! i \<le> cb_now st + 1500 \<and>
    (\<forall>j. copy_label t label (copy_timer j st) = (case label of Some l \<Rightarrow> l | None \<Rightarrow> t ''containers.detail.copyId''))"
proof -
  have "cb_timers st \<noteq> []" and "\<forall>d\<in>set (cb_timers st). d \<le> cb_now st + 1500"
    using copy_reachable_timers [OF assms(1)] assms(2) by auto
  then have "0 < length (cb_timers st) \<and> cb_timers st ! 0 \<le> cb_now st + 1500" by simp
  then show ?thesis by (intro exI [of _ 0]) (simp add: copy_label_def copy_timer_def)
qed

text \<open>The confirmation of a second copy is cut short: a click that comes \<open>d\<close> milliseconds
  after the first, which is still confirmed, sets a timer of its own but keeps the first
  one, so that the label goes back \<open>d\<close> milliseconds too early.\<close>

lemma second_copy_cut_short:
  assumes "0 < d" and "d < 1500"
  shows "\<exists>st. copy_reachable st \<and> cb_writes st = [] \<and> cb_clipboard st = Some v \<and>
    cb_timers st = [cb_now st + d] \<and> \<not> cb_copied st"
proof -
  define once where "once u st = copy_written 0 (copy_click u st)" for u and st :: copy_button
  have once: "copy_reachable (once u st)" if "copy_reachable st" "cb_writes st = []" for u st
    unfolding once_def
    by (rule copy_reachable_step [OF copy_reachable_step [OF that(1) copy_step.click] copy_step.written])
       (simp add: copy_click_def)
  let ?a = "once u copy_mount" let ?b = "copy_wait d ?a" let ?c = "once v ?b" let ?d = "copy_wait (1500 - d) ?c"
  have "copy_reachable ?a" by (rule once) (simp_all add: copy_reachable_def copy_mount_def)
  then have "copy_reachable ?b"
    by (rule copy_reachable_step [OF _ copy_step.pass]) (use assms in \<open>simp_all add: once_def copy_defs drop_nth_def\<close>)
  then have "copy_reachable ?c" by (rule once) (simp add: once_def copy_defs drop_nth_def)
  then have "copy_reachable ?d"
    by (rule copy_reachable_step [OF _ copy_step.pass]) (use assms in \<open>simp_all add: once_def copy_defs drop_nth_def\<close>)
  then have "copy_reachable (copy_timer 0 ?d)"
    by (rule copy_reachable_step [OF _ copy_step.timer]) (use assms in \<open>simp_all add: once_def copy_defs drop_nth_def\<close>)
  then show ?thesis
    by (intro exI [of _ "copy_timer 0 ?d"]) (simp add: once_def copy_defs drop_nth_def)
qed

text \<open>The chosen language survives a reload, and its button is the one that is marked.\<close>

lemma language_survives_reload:
  assumes "lng \<in> {''en'', ''tr''}"
  shows "initial_language (lc_storage (switchLocale lng st)) = lng \<and>
    map snd (locale_buttons (switchLocale lng st)) = [lng = ''en'', lng = ''tr'']"
  using assms by (auto simp: initial_language_def switchLocale_def locale_buttons_def)

text \<open>In live mode the first option of the switch is marked, in history mode the second.\<close>

lemma toggle_marks_mode:
  "pt_marker (liveHistoryToggle t hv) = (if viewMode hv = Live then 0 else 1)"
  by (cases "viewMode hv") (simp_all add: liveHistoryToggle_def segmentedControl_def pillTabs_def Let_def)

text \<open>An emptied number field becomes zero.\<close>

lemma emptied_field_is_zero: "number_change [] = Some 0"
  by (simp add: number_change_def)

lemma marker_under_active_tab_witness:
  "length (filter tb_active (pt_buttons (liveHistoryToggle (\<lambda>k. k) \<lparr> viewMode = History, timeRange = Range_24h \<rparr>))) = 1"
  using marker_under_active_tab [of "[(Live, ''app.live''), (History, ''app.history'')]" History 100]
  by (simp add: liveHistoryToggle_def segmentedControl_def Let_def)

lemma copied_label_ends_witness:
  "copy_label (\<lambda>k. k) None (copy_timer 0 (copy_written 0 (copy_click ''abc'' copy_mount))) = ''containers.detail.copyId''"
proof -
  have "copy_reachable (copy_written 0 (copy_click ''abc'' copy_mount))"
    by (rule copy_reachable_step [OF copy_reachable_step [OF _ copy_step.click] copy_step.written])
       (simp_all add: copy_reachable_def copy_defs)
  moreover have "cb_copied (copy_written 0 (copy_click ''abc'' copy_mount))" by (simp add: copy_written_def)
  ultimately show ?thesis using copied_label_ends [of _ "\<lambda>k. k" None] by fastforce
qed

lemma second_copy_cut_short_witness:
  "\<exists>st. copy_reachable st \<and> cb_clipboard st = Some ''abc'' \<and> cb_timers st = [cb_now st + 1000] \<and> \<not> cb_copied st"
  using second_copy_cut_short [of 1000 "''abc''"] by auto

end
