(* ===== verification/HistorySpec.thy ===== *)
theory HistorySpec
  imports HistoryHook LiveHooks
begin

text \<open>
  What \<open>src/api/useHistorySamples.ts\<close> promises, and that it keeps the promise. The
  contract knows neither effect runs nor \<open>cancelled\<close> flags: its state is what the page
  shows, the present dependencies and the requests made for them; a change of the
  dependencies forgets all requests, and every answer is read with the present
  dependencies. \<open>hist_abs\<close> maps a state of the hook to a state of the contract, and the
  locale \<open>simulation\<close> lifts the step lemmas to runs. The last section shows that an
  unmounted hook comes to rest.
\<close>

section \<open>Functional simulation\<close>

locale simulation =
  fixes stp :: "'s \<Rightarrow> 's \<Rightarrow> bool" and spc :: "'t \<Rightarrow> 't \<Rightarrow> bool"
    and inv :: "'s \<Rightarrow> bool" and abs :: "'s \<Rightarrow> 't"
  assumes inv_step: "inv s \<Longrightarrow> stp s s' \<Longrightarrow> inv s'"
    and forward: "inv s \<Longrightarrow> stp s s' \<Longrightarrow> spc (abs s) (abs s') \<or> abs s' = abs s"
begin

lemma inv_run: "stp\<^sup>*\<^sup>* s s' \<Longrightarrow> inv s \<Longrightarrow> inv s'"
  by (induction rule: rtranclp_induct) (auto intro: inv_step)

lemma run: "stp\<^sup>*\<^sup>* s s' \<Longrightarrow> inv s \<Longrightarrow> spc\<^sup>*\<^sup>* (abs s) (abs s')"
proof (induction rule: rtranclp_induct)
  case (step s' s'')
  then have "inv s'" using inv_run by blast
  then show ?case
    using step forward [of s' s''] by (metis rtranclp.rtrancl_into_rtrancl)
qed simp

end

section \<open>The contract of the history hook\<close>

record hist_spec =
  s_samples :: "metrics_snapshot list"
  s_loading :: bool
  s_error :: "string option"
  s_deps :: hist_deps
  s_pending :: "string list"
  s_mounted :: bool

definition spec_ask :: "int \<Rightarrow> hist_spec \<Rightarrow> hist_spec" where
  "spec_ask now s =
     s\<lparr> s_loading := True, s_error := None,
        s_pending := s_pending s @ [history_path now (s_deps s)] \<rparr>"

definition spec_change :: "int \<Rightarrow> hist_deps \<Rightarrow> hist_spec \<Rightarrow> hist_spec" where
  "spec_change now d s =
     (let s1 = s\<lparr> s_deps := d, s_pending := [] \<rparr>
      in if d_enabled d then spec_ask now s1
         else s1\<lparr> s_samples := [], s_error := None, s_loading := False \<rparr>)"

definition spec_window :: "date_parser \<Rightarrow> int \<Rightarrow> hist_deps \<Rightarrow> metrics_snapshot list \<Rightarrow> metrics_snapshot list" where
  "spec_window date now d xs = (if uses_hub d then xs else filterSamplesByRange date now xs (d_range d))"

definition spec_answer ::
  "date_parser \<Rightarrow> int \<Rightarrow> nat \<Rightarrow> metrics_snapshot list reply \<Rightarrow> hist_spec \<Rightarrow> hist_spec" where
  "spec_answer date now i r s =
     (let s1 = s\<lparr> s_pending := drop_nth i (s_pending s), s_loading := False \<rparr>
      in case or_default [] (apiGet (s_pending s ! i) r) of
           Inr xs \<Rightarrow> s1\<lparr> s_samples := sortSamplesAsc date (spec_window date now (s_deps s) xs) \<rparr>
         | Inl e \<Rightarrow> s1\<lparr> s_error := Some (error_message e), s_samples := [] \<rparr>)"

definition spec_close :: "hist_spec \<Rightarrow> hist_spec" where
  "spec_close s = s\<lparr> s_mounted := False, s_pending := [] \<rparr>"

inductive spec_step :: "date_parser \<Rightarrow> hist_spec \<Rightarrow> hist_spec \<Rightarrow> bool"
  for date where
  change: "s_mounted s \<Longrightarrow> d \<noteq> s_deps s \<Longrightarrow> spec_step date s (spec_change now d s)"
| refresh: "s_mounted s \<Longrightarrow> d_enabled (s_deps s) \<Longrightarrow> spec_step date s (spec_ask now s)"
| answer: "i < length (s_pending s) \<Longrightarrow> spec_step date s (spec_answer date now i r s)"
| close: "s_mounted s \<Longrightarrow> spec_step date s (spec_close s)"

inductive_cases spec_stepE: "spec_step date s s'"

definition spec_start :: "int \<Rightarrow> hist_deps \<Rightarrow> hist_spec" where
  "spec_start now d =
     spec_change now d \<lparr> s_samples = [], s_loading = False, s_error = None, s_deps = d,
       s_pending = [], s_mounted = True \<rparr>"

lemmas spec_defs = spec_ask_def spec_change_def spec_answer_def spec_close_def spec_start_def

definition hist_abs :: "hist_state \<Rightarrow> hist_spec" where
  "hist_abs st =
     \<lparr> s_samples = h_samples st, s_loading = h_loading st, s_error = h_error st,
       s_deps = h_deps st, s_pending = map l_path (filter (live_load st) (h_inflight st)),
       s_mounted = h_mounted st \<rparr>"

section \<open>The hook refines its contract\<close>

definition hist_ok :: "date_parser \<Rightarrow> hist_state \<Rightarrow> bool" where
  "hist_ok date st = (runs_ok st \<and> flags_ok date st)"

lemma polling_iff: "hist_ok date st \<Longrightarrow> h_polling st \<longleftrightarrow> h_mounted st \<and> d_enabled (h_deps st)"
  by (auto simp: hist_ok_def runs_ok_def flags_ok_def)

lemma live_load_eq: "live_load st = (\<lambda>l. l_run l \<notin> set (h_cancelled st))"
  by (simp add: live_load_def fun_eq_iff)

lemma no_live_load: "runs_ok st \<Longrightarrow> \<not> h_polling st \<Longrightarrow> filter (live_load st) (h_inflight st) = []"
  by (auto simp: runs_ok_def filter_empty_conv)

lemma cleanup_cancels: "runs_ok st \<Longrightarrow> filter (live_load (hist_cleanup st)) (h_inflight st) = []"
  using no_live_load [of st] by (auto simp: runs_ok_def live_load_def hist_cleanup_def filter_empty_conv)

lemma abs_begin:
  assumes "h_run st \<notin> set (h_cancelled st)"
  shows "hist_abs (hist_begin now st) = spec_ask now (hist_abs st)"
  using assms by (simp add: hist_abs_def hist_begin_def spec_ask_def live_load_eq)

lemma abs_effect:
  assumes "runs_ok st"
  shows "hist_abs (hist_effect now d st) = spec_change now d (hist_abs st)"
proof -
  let ?st = "hist_cleanup st"
  have "filter (live_load ?st) (h_inflight st) = []" by (rule cleanup_cancels [OF assms])
  moreover have "h_inflight ?st = h_inflight st" "h_run ?st = h_run st" "h_samples ?st = h_samples st"
    "h_mounted ?st = h_mounted st" by (simp_all add: hist_cleanup_def)
  moreover have "Suc (h_run st) \<notin> set (h_cancelled ?st)"
    using assms by (auto simp: runs_ok_def hist_cleanup_def)
  ultimately show ?thesis
    by (simp add: hist_effect_def hist_begin_def spec_change_def spec_ask_def hist_abs_def Let_def live_load_eq)
qed

lemma abs_unmount: "runs_ok st \<Longrightarrow> hist_abs (hist_unmount st) = spec_close (hist_abs st)"
  using cleanup_cancels [of st]
  by (simp add: hist_unmount_def hist_abs_def spec_close_def live_load_eq hist_cleanup_def split: if_splits)

text \<open>The position of the \<open>i\<close>-th load among the loads that count.\<close>

definition live_index :: "hist_state \<Rightarrow> nat \<Rightarrow> nat" where
  "live_index st i = length (filter (live_load st) (take i (h_inflight st)))"

lemma filter_drop_nth:
  assumes "i < length xs"
  shows "filter P (drop_nth i xs) =
      (if P (xs ! i) then drop_nth (length (filter P (take i xs))) (filter P xs) else filter P xs)"
    and "P (xs ! i) \<Longrightarrow> length (filter P (take i xs)) < length (filter P xs) \<and>
      filter P xs ! length (filter P (take i xs)) = xs ! i"
proof -
  have "filter P xs = filter P (take i xs) @ (if P (xs ! i) then [xs ! i] else []) @ filter P (drop (Suc i) xs)"
    using arg_cong [OF id_take_nth_drop [OF assms], of "filter P"] by simp
  then show "filter P (drop_nth i xs) =
      (if P (xs ! i) then drop_nth (length (filter P (take i xs))) (filter P xs) else filter P xs)"
    and "P (xs ! i) \<Longrightarrow> length (filter P (take i xs)) < length (filter P xs) \<and>
      filter P xs ! length (filter P (take i xs)) = xs ! i"
    by (auto simp: drop_nth_def nth_append)
qed

lemma filter_position:
  "j < length (filter P xs) \<Longrightarrow> \<exists>i < length xs. P (xs ! i) \<and> length (filter P (take i xs)) = j"
proof (induction xs arbitrary: j)
  case (Cons x xs)
  show ?case
  proof (cases "P x \<and> j = 0")
    case True
    then show ?thesis by (intro exI [of _ 0]) simp
  next
    case False
    then have "(if P x then j - 1 else j) < length (filter P xs)" using Cons.prems by (auto split: if_splits)
    then obtain i where "i < length xs" "P (xs ! i)" "length (filter P (take i xs)) = (if P x then j - 1 else j)"
      using Cons.IH by blast
    then show ?thesis using False by (intro exI [of _ "Suc i"]) auto
  qed
qed simp

lemma map_drop_nth: "map f (drop_nth i xs) = drop_nth i (map f xs)"
  by (simp add: drop_nth_def take_map drop_map)

lemma abs_stale:
  assumes "i < length (h_inflight st)" and "\<not> live_load st (h_inflight st ! i)"
  shows "hist_abs (hist_arrive date now i r st) = hist_abs st"
  using assms filter_drop_nth(1) [OF assms(1), of "live_load st"]
  by (simp add: hist_arrive_def hist_abs_def live_load_eq Let_def)

lemma abs_answer:
  assumes "runs_ok st" and i: "i < length (h_inflight st)" and live: "live_load st (h_inflight st ! i)"
  shows "live_index st i < length (s_pending (hist_abs st))"
    and "hist_abs (hist_arrive date now i r st) = spec_answer date now (live_index st i) r (hist_abs st)"
proof -
  let ?l = "h_inflight st ! i"
  have "l_deps ?l = h_deps st" using assms by (auto simp: runs_ok_def)
  then have "load_data date now ?l r = map_sum id (spec_window date now (h_deps st)) (or_default [] (apiGet (l_path ?l) r))"
    by (simp add: load_data_def spec_window_def split: sum.split)
  moreover note filter_drop_nth [OF i, of "live_load st"]
  ultimately show "live_index st i < length (s_pending (hist_abs st))"
    and "hist_abs (hist_arrive date now i r st) = spec_answer date now (live_index st i) r (hist_abs st)"
    using live by (simp_all add: hist_arrive_def spec_answer_def hist_abs_def live_load_eq
        live_index_def Let_def map_drop_nth split: sum.split)
qed

lemma hist_ok_step: "hist_ok date st \<Longrightarrow> hist_step date st st' \<Longrightarrow> hist_ok date st'"
  by (auto simp: hist_ok_def intro: runs_ok_step flags_ok_step)

lemma hist_forward:
  assumes "hist_ok date st" and "hist_step date st st'"
  shows "spec_step date (hist_abs st) (hist_abs st') \<or> hist_abs st' = hist_abs st"
proof -
  have runs: "runs_ok st" using assms(1) by (simp add: hist_ok_def)
  have shown [simp]: "s_mounted (hist_abs st) = h_mounted st" "s_deps (hist_abs st) = h_deps st"
    by (simp_all add: hist_abs_def)
  from assms(2) show ?thesis
  proof cases
    case (rerun d now)
    then show ?thesis using runs by (auto simp: abs_effect intro: spec_step.change)
  next
    case (tick now)
    then have "h_run st \<notin> set (h_cancelled st)" using runs by (simp add: runs_ok_def)
    then show ?thesis
      using tick polling_iff [OF assms(1)] by (auto simp: abs_begin intro: spec_step.refresh)
  next
    case (arrive i now r)
    then show ?thesis
      using abs_stale abs_answer [OF runs, of i]
      by (cases "live_load st (h_inflight st ! i)") (auto intro: spec_step.answer)
  next
    case unmount
    then show ?thesis using runs by (auto simp: abs_unmount intro: spec_step.close)
  qed
qed

lemma hist_backward:
  assumes "hist_ok date st" and "spec_step date (hist_abs st) s'"
  shows "\<exists>st'. hist_step date st st' \<and> hist_abs st' = s'"
proof -
  have runs: "runs_ok st" using assms(1) by (simp add: hist_ok_def)
  have shown [simp]: "s_mounted (hist_abs st) = h_mounted st" "s_deps (hist_abs st) = h_deps st"
    by (simp_all add: hist_abs_def)
  from assms(2) show ?thesis
  proof cases
    case (change d now)
    then show ?thesis using runs by (auto simp: abs_effect [symmetric] intro: hist_step.rerun)
  next
    case (refresh now)
    then have p: "h_polling st" using polling_iff [OF assms(1)] by simp
    then have "h_run st \<notin> set (h_cancelled st)" using runs by (simp add: runs_ok_def)
    then show ?thesis using refresh p by (auto simp: abs_begin [symmetric] intro: hist_step.tick)
  next
    case (answer j now r)
    then have "j < length (filter (live_load st) (h_inflight st))" by (simp add: hist_abs_def)
    then obtain i where i: "i < length (h_inflight st)" "live_load st (h_inflight st ! i)" "live_index st i = j"
      unfolding live_index_def using filter_position by blast
    then show ?thesis
      using answer abs_answer(2) [OF runs, of i] by (auto intro: hist_step.arrive)
  next
    case close
    then show ?thesis using runs by (auto simp: abs_unmount [symmetric] intro: hist_step.unmount)
  qed
qed

interpretation history: simulation "hist_step date" "spec_step date" "hist_ok date" hist_abs for date
  by unfold_locales (auto intro: hist_ok_step dest: hist_forward)

lemma hist_mount_ok: "hist_ok date (hist_mount now d)"
  using hist_reachable_inv [OF hist_reachable.mount] by (simp add: hist_ok_def)

lemma abs_mount: "hist_abs (hist_mount now d) = spec_start now d"
proof -
  have "runs_ok \<lparr> h_samples = [], h_loading = False, h_error = None, h_deps = d, h_run = 0,
      h_polling = False, h_cancelled = [], h_inflight = [], h_mounted = True \<rparr>"
    by (simp add: runs_ok_def)
  then show ?thesis
    unfolding hist_mount_def spec_start_def by (simp add: abs_effect) (simp add: hist_abs_def)
qed

lemma hist_reachable_run:
  "hist_reachable date st \<Longrightarrow> \<exists>now d. (hist_step date)\<^sup>*\<^sup>* (hist_mount now d) st"
proof (induction rule: hist_reachable.induct)
  case (step st st')
  then show ?case by (meson rtranclp.rtrancl_into_rtrancl)
qed blast

section \<open>An unmounted hook comes to rest\<close>

text \<open>Every step of an unmounted hook consumes a request that was in flight, and none
  changes the view: the interval is gone, and no request is issued any more.\<close>

lemma poll_rest_step:
  assumes "poll_step h answers st st'" and "\<not> mounted st" and "\<not> ticking st"
  shows "Suc (length (inflight st')) = length (inflight st) \<and> view st' = view st \<and>
    \<not> mounted st' \<and> \<not> ticking st'"
  using assms by cases (auto simp: poll_arrive_def drop_nth_def)

lemma poll_rest:
  "(poll_step h answers ^^ n) st st' \<Longrightarrow> \<not> mounted st \<Longrightarrow> \<not> ticking st \<Longrightarrow>
     length (inflight st') + n = length (inflight st) \<and> view st' = view st \<and>
     \<not> mounted st' \<and> \<not> ticking st'"
proof (induction n arbitrary: st')
  case (Suc n)
  then obtain m where m: "(poll_step h answers ^^ n) st m" and last: "poll_step h answers m st'" by auto
  from Suc.IH [OF m Suc.prems(2,3)] show ?case using poll_rest_step [OF last] by simp
qed simp

lemma hist_rest_step:
  assumes "hist_step date st st'" and "hist_ok date st" and "\<not> h_mounted st"
  shows "Suc (length (h_inflight st')) = length (h_inflight st) \<and> hist_abs st' = hist_abs st"
  using assms(1)
proof cases
  case (tick now)
  then show ?thesis using polling_iff [OF assms(2)] assms(3) by simp
next
  case (arrive i now r)
  have "\<not> h_polling st" using polling_iff [OF assms(2)] assms(3) by simp
  then have "\<not> live_load st (h_inflight st ! i)"
    using assms(2) arrive(2) by (auto simp: hist_ok_def runs_ok_def)
  then show ?thesis
    using arrive abs_stale by (auto simp: hist_arrive_def live_load_def Let_def drop_nth_def)
qed (use assms(3) in simp_all)

section \<open>Outcomes\<close>

definition hist_failed :: "string \<Rightarrow> hist_state \<Rightarrow> bool" where
  "hist_failed m st = (h_error st = Some m \<and> h_samples st = [] \<and> \<not> h_loading st)"

definition hist_shows :: "metrics_snapshot list \<Rightarrow> string option \<Rightarrow> hist_state \<Rightarrow> bool" where
  "hist_shows xs e st = (h_samples st = xs \<and> h_error st = e \<and> \<not> h_loading st)"

section \<open>Properties\<close>

text \<open>C2: the history hook is the contract: every run of the hook is one of the contract,
  every step of it is a step of the contract or invisible, and everything the contract
  allows to happen next the hook can do, with the same result.\<close>

theorem history_hook_meets_contract:
  assumes "hist_reachable date st"
  shows "(\<exists>now d. (spec_step date)\<^sup>*\<^sup>* (spec_start now d) (hist_abs st)) \<and>
    (\<forall>st'. hist_step date st st' \<longrightarrow> spec_step date (hist_abs st) (hist_abs st') \<or> hist_abs st' = hist_abs st) \<and>
    (\<forall>s'. spec_step date (hist_abs st) s' \<longrightarrow> (\<exists>st'. hist_step date st st' \<and> hist_abs st' = s'))"
proof (intro conjI allI impI)
  obtain now d where "(hist_step date)\<^sup>*\<^sup>* (hist_mount now d) st" using hist_reachable_run [OF assms] by blast
  then show "\<exists>now d. (spec_step date)\<^sup>*\<^sup>* (spec_start now d) (hist_abs st)"
    using history.run [OF _ hist_mount_ok] abs_mount by metis
  have ok: "hist_ok date st" using hist_reachable_inv [OF assms] by (simp add: hist_ok_def)
  show "spec_step date (hist_abs st) (hist_abs st') \<or> hist_abs st' = hist_abs st"
    if "hist_step date st st'" for st' by (rule hist_forward [OF ok that])
  show "\<exists>st'. hist_step date st st' \<and> hist_abs st' = s'"
    if "spec_step date (hist_abs st) s'" for s' by (rule hist_backward [OF ok that])
qed

text \<open>A hook whose component was unmounted stops: whatever happens, it makes as many
  steps as it has requests in flight, each of which consumes one, and none of them
  changes what it last showed.\<close>

lemma unmounted_hook_stops:
  assumes "poll_reachable h answers v st" and "\<not> mounted st" and "(poll_step h answers ^^ n) st st'"
  shows "length (inflight st') + n = length (inflight st) \<and> view st' = view st"
  using poll_rest [OF assms(3,2)] poll_reachable_wf [OF assms(1)] assms(2) by blast

text \<open>C35: the history hook stops as well when its component was unmounted: the interval is
  cleared, and each further step is one reply to a request already sent, which changes
  nothing that is shown.\<close>

theorem unmounted_history_stops:
  assumes "hist_reachable date st" and "\<not> h_mounted st" and "(hist_step date ^^ n) st st'"
  shows "length (h_inflight st') + n = length (h_inflight st) \<and> hist_abs st' = hist_abs st"
  using assms(3)
proof (induction n arbitrary: st')
  case (Suc n)
  then obtain m where before: "(hist_step date ^^ n) st m" and last: "hist_step date m st'" by auto
  have "hist_ok date st" using hist_reachable_inv [OF assms(1)] by (simp add: hist_ok_def)
  then have ok: "hist_ok date m" using before history.inv_run by (metis rtranclp_power)
  have same: "length (h_inflight m) + n = length (h_inflight st)" "hist_abs m = hist_abs st"
    using Suc.IH [OF before] by simp_all
  then have "\<not> h_mounted m" using assms(2) by (metis hist_abs_def hist_spec.select_convs(6))
  then show ?case using hist_rest_step [OF last ok] same by simp
qed simp

text \<open>C20: what each reply to a request of the present dependencies leads to: a rejected
  request, a status that is no success and an unreadable body end the loading with their
  message and no samples; no content and \<open>null\<close> are an empty history without a message;
  data is shown sorted, cut to the window unless the hub did so.\<close>

theorem history_reply_outcomes:
  assumes "hist_reachable date st" and "i < length (h_inflight st)" and "live_load st (h_inflight st ! i)"
  shows "let st' = hist_arrive date now i r st; path = l_path (h_inflight st ! i) in
    case r of
      Network_Failure m \<Rightarrow> hist_failed m st'
    | Response code b \<Rightarrow>
        if code = 204 then hist_shows [] (h_error st) st'
        else if \<not> (200 \<le> code \<and> code \<le> 299) then hist_failed (path @ '': '' @ show_nat code) st'
        else (case b of
            Malformed m \<Rightarrow> hist_failed m st'
          | JsonNull \<Rightarrow> hist_shows [] (h_error st) st'
          | Json xs \<Rightarrow> hist_shows (sortSamplesAsc date (spec_window date now (h_deps st) xs)) (h_error st) st')"
proof -
  have "runs_ok st" using hist_reachable_inv [OF assms(1)] by simp
  then have deps: "l_deps (h_inflight st ! i) = h_deps st" using assms(2,3) by (auto simp: runs_ok_def)
  have empty: "sortSamplesAsc date [] = []" "filterSamplesByRange date now [] rng = []" for rng
    by (simp_all add: sortSamplesAsc_def filterSamplesByRange_def Let_def split_beta)
  show ?thesis
    using assms(3) unfolding hist_failed_def hist_shows_def
    by (simp add: hist_arrive_def load_data_def spec_window_def deps live_load_def Let_def is_ok_def empty
        split: reply.split body.split)
qed

theorem history_hook_meets_contract_witness:
  "\<exists>now d. (spec_step parse_iso)\<^sup>*\<^sup>* (spec_start now d) (hist_abs (hist_effect 9 left_deps (hist_mount 0 day_deps)))"
  using history_hook_meets_contract [OF left_reachable [of parse_iso]] by (rule conjunct1)

lemma left_agent_reachable:
  "poll_reachable (useHubAgentMetrics parse_iso) (\<lambda>_ _. True) live_init
     (poll_unmount (poll_mount (useHubAgentMetrics parse_iso) live_init (Some ''a'')))"
  by (rule poll_reachable.step [OF poll_reachable.mount poll_step.unmount])
     (simp add: hook_defs Let_def useHubAgentMetrics_def)

lemma unmounted_hook_stops_witness:
  "let st = poll_unmount (poll_mount (useHubAgentMetrics parse_iso) live_init (Some ''a''))
   in view (poll_arrive (useHubAgentMetrics parse_iso) 0 (Response 200 (Json (snapshot_at ''a''))) st) = view st"
proof -
  let ?h = "useHubAgentMetrics parse_iso" and ?r = "Response 200 (Json (snapshot_at ''a''))"
  let ?st = "poll_unmount (poll_mount ?h live_init (Some ''a''))"
  have "\<not> mounted ?st" and "0 < length (inflight ?st)"
    by (simp_all add: hook_defs Let_def useHubAgentMetrics_def given_def)
  moreover from this(2) have "(poll_step ?h (\<lambda>_ _. True) ^^ 1) ?st (poll_arrive ?h 0 ?r ?st)"
    by (auto intro: poll_step.arrive)
  ultimately show ?thesis
    using unmounted_hook_stops [OF left_agent_reachable] unfolding Let_def by blast
qed

theorem history_reply_outcomes_witness:
  "h_error (hist_arrive parse_iso 5 0 (Response 503 JsonNull) (hist_mount 0 day_deps)) =
   Some ''/api/metrics/history?limit=120: 503''"
proof -
  have "0 < length (h_inflight (hist_mount 0 day_deps))" "live_load (hist_mount 0 day_deps) (h_inflight (hist_mount 0 day_deps) ! 0)"
    "l_path (h_inflight (hist_mount 0 day_deps) ! 0) = ''/api/metrics/history?limit=120''"
    by (simp_all add: hook_defs Let_def day_deps_def live_load_def history_path_def uses_hub_def)
  moreover have "show_nat 503 = ''503''" by code_simp
  ultimately show ?thesis
    using history_reply_outcomes [OF hist_reachable.mount [of parse_iso 0 day_deps], of 0 5 "Response 503 JsonNull"]
    by (simp add: Let_def hist_failed_def)
qed

lemma closed_reachable: "hist_reachable parse_iso (hist_unmount (hist_mount 0 day_deps))"
  by (rule hist_reachable.step [OF hist_reachable.mount hist_step.unmount]) (simp add: hook_defs Let_def)

theorem unmounted_history_stops_witness:
  "hist_abs (hist_arrive parse_iso 5 0 (Network_Failure ''gone'') (hist_unmount (hist_mount 0 day_deps))) =
   hist_abs (hist_unmount (hist_mount 0 day_deps))"
proof -
  let ?st = "hist_unmount (hist_mount 0 day_deps)"
  have "\<not> h_mounted ?st" and "0 < length (h_inflight ?st)"
    by (simp_all add: hook_defs Let_def day_deps_def)
  moreover from this(2) have "(hist_step parse_iso ^^ 1) ?st (hist_arrive parse_iso 5 0 (Network_Failure ''gone'') ?st)"
    by (auto intro: hist_step.arrive)
  ultimately show ?thesis using unmounted_history_stops [OF closed_reachable] by blast
qed

end
