(* ===== verification/SplitViews.thy ===== *)
theory SplitViews
  imports ProcessViews Controls HistorySpec
begin

text \<open>
  The two-pane pages as a whole. \<open>process_handle\<close> and \<open>service_handle\<close> are the state
  machines of \<open>src/components/ProcessSplitView.tsx\<close> and \<open>ServiceSplitView.tsx\<close> inside
  the pages that keep the selection in the query of the location: typing, headings, the
  mode switch, branches, clicks on rows and the animation frames of
  \<open>useScrollDetailOnSelect\<close>. \<open>processSplitView\<close> and \<open>serviceSplitView\<close> are what they
  return, and \<open>workbench_page\<close> is the frame of the pages around
  \<open>src/components/HistoryWorkbench.tsx\<close>.
\<close>

section \<open>The process view\<close>

text \<open>The columns; a heading that sorts has its key. The narrow table has neither user nor
  command.\<close>

definition process_columns :: "bool \<Rightarrow> (string \<times> sort_key option) list" where
  "process_columns narrow =
     [(''table.pid'', Some Sort_Pid)] @ (if narrow then [] else [(''table.user'', Some Sort_User)]) @
     [(''table.cpu'', Some Sort_Cpu), (''table.memory'', Some Sort_Mem)] @
     (if narrow then [] else [(''processes.table.command'', None)])"

datatype process_pane =
    Process_Master search_input "(string \<times> sort_key option) list" "(string list \<times> bool) list"
  | Process_Detail process_detail
  | Pick_Process string

record process_page =
  pp_search :: string
  pp_sort :: sort_state
  pp_params :: params
  pp_scroll :: "process_pane markup scroll_hook"

definition process_page_init :: "params \<Rightarrow> process_page" where
  "process_page_init ps =
     \<lparr> pp_search = [], pp_sort = initial_sort, pp_params = ps, pp_scroll = scroll_init \<rparr>"

definition pp_selected ::
  "(string \<Rightarrow> string \<Rightarrow> rat) \<Rightarrow> process_info list \<Rightarrow> process_page \<Rightarrow> process_info option" where
  "pp_selected collate processes st =
     selected_process (page_selectedPid js_number (pp_params st))
       (process_rows collate (pp_search st) (pp_sort st) processes)"

definition processSplitView ::
  "(string \<Rightarrow> string \<Rightarrow> rat) \<Rightarrow> (string \<Rightarrow> string) \<Rightarrow> surface \<Rightarrow> string \<Rightarrow> process_info list \<Rightarrow>
   service_info list \<Rightarrow> process_page \<Rightarrow> process_pane markup" where
  "processSplitView collate t surface serviceLinkPrefix processes services st =
     (let narrow = (surface = ContainerDetail_Surface);
          rows = process_rows collate (pp_search st) (pp_sort st) processes;
          sel = pp_selected collate processes st;
          master = Process_Master (searchInput (pp_search st) (t ''processes.search'') None)
            (process_columns narrow)
            (map (\<lambda>p. (process_cells narrow p, map_option pid sel = Some (pid p))) rows);
          detail = (case sel of
              Some p \<Rightarrow> Process_Detail (process_detail_panel serviceLinkPrefix p services)
            | None \<Rightarrow> Pick_Process (t ''processes.detail.pick''))
      in masterDetailLayout surface Ratio_60_40 master detail)"

datatype process_event = Typed string | Heading sort_key | Row_Click int | Frame

text \<open>\<open>wide\<close> answers the media query; \<open>screen\<close> is what is displayed when a frame runs.\<close>

fun process_handle ::
  "bool \<Rightarrow> process_pane markup \<Rightarrow> process_event \<Rightarrow> process_page \<Rightarrow> process_page" where
  "process_handle wide screen (Typed s) st = st\<lparr> pp_search := s \<rparr>"
| "process_handle wide screen (Heading k) st = st\<lparr> pp_sort := toggleSort k (pp_sort st) \<rparr>"
| "process_handle wide screen (Row_Click p) st =
     st\<lparr> pp_params := onSelectPid (pp_params st) p, pp_scroll := afterSelect wide (pp_scroll st) \<rparr>"
| "process_handle wide screen Frame st = st\<lparr> pp_scroll := scroll_frame (ref_target screen) (pp_scroll st) \<rparr>"

section \<open>The service view\<close>

datatype service_pane =
    Service_Master search_input "(service_mode, string) pill_tabs" "(row \<times> bool) list"
  | Service_Detail service_detail
  | Pick_Service string

record service_page =
  sp_search :: string
  sp_mode :: service_mode
  sp_expanded :: expanded
  sp_params :: params
  sp_scroll :: "service_pane markup scroll_hook"

definition service_page_init :: "surface \<Rightarrow> params \<Rightarrow> service_page" where
  "service_page_init surface ps =
     \<lparr> sp_search = [], sp_mode = initial_mode surface, sp_expanded = (\<lambda>_. None), sp_params = ps,
       sp_scroll = scroll_init \<rparr>"

definition sp_selected :: "service_info list \<Rightarrow> service_page \<Rightarrow> service_info option" where
  "sp_selected services st =
     selected_service (params_get (sp_params st) ''service'') (filter_services (sp_search st) services)"

definition row_marked :: "service_info option \<Rightarrow> row \<Rightarrow> bool" where
  "row_marked sel r = (\<not> is_branch r \<and> map_option serviceName sel = Some (serviceName (row_service r)))"

definition serviceSplitView ::
  "(string \<Rightarrow> string \<Rightarrow> rat) \<Rightarrow> (string \<Rightarrow> string) \<Rightarrow> surface \<Rightarrow> string \<Rightarrow> service_info list \<Rightarrow>
   process_info list \<Rightarrow> service_page \<Rightarrow> service_pane markup" where
  "serviceSplitView collate t surface processLinkPrefix services processes st =
     (let sel = sp_selected services st;
          master = Service_Master (searchInput (sp_search st) (t ''services.search'') None)
            (segmentedControl [(Tree_Mode, t ''services.view.tree''), (List_Mode, t ''services.view.list'')]
              (sp_mode st))
            (map (\<lambda>r. (r, row_marked sel r))
              (service_rows collate (sp_mode st) (sp_expanded st) (sp_search st) services));
          detail = (case sel of
              Some s \<Rightarrow> Service_Detail (service_detail_panel processLinkPrefix s processes)
            | None \<Rightarrow> Pick_Service (t ''services.detail.pick''))
      in masterDetailLayout surface Ratio_60_40 master detail)"

datatype service_event =
  Service_Typed string | Mode_Click service_mode | Branch_Click nat tree_node | Service_Click string | Service_Frame

fun service_handle ::
  "bool \<Rightarrow> service_pane markup \<Rightarrow> service_event \<Rightarrow> service_page \<Rightarrow> service_page" where
  "service_handle wide screen (Service_Typed s) st = st\<lparr> sp_search := s \<rparr>"
| "service_handle wide screen (Mode_Click m) st = st\<lparr> sp_mode := m \<rparr>"
| "service_handle wide screen (Branch_Click depth c) st =
     st\<lparr> sp_expanded := toggle_branch (sp_expanded st) depth c \<rparr>"
| "service_handle wide screen (Service_Click n) st =
     st\<lparr> sp_params := onSelectService (sp_params st) n, sp_scroll := afterSelect wide (sp_scroll st) \<rparr>"
| "service_handle wide screen Service_Frame st =
     st\<lparr> sp_scroll := scroll_frame (ref_target screen) (sp_scroll st) \<rparr>"

section \<open>Pages around the workbench\<close>

text \<open>A page waits, shows its content alone (inside the detail of a container), or shows
  title, time bar, banner, messages and, when there is a snapshot, its content.\<close>

datatype 'a page_view =
    Page_Waiting string
  | Page_Embedded 'a
  | Page_Workbench "string option" "time_bar option" bool "string list" "'a option"

definition workbench_page ::
  "surface \<Rightarrow> string option \<Rightarrow> date_parser \<Rightarrow> history_view \<Rightarrow> hist_state \<Rightarrow> selection \<Rightarrow> metrics_context \<Rightarrow>
   (metrics_context \<Rightarrow> 'a) \<Rightarrow> 'a page_view" where
  "workbench_page surface title date hv st sel ctx content =
     (let isWorkbench = (surface = Page_Surface);
          historyMode = (isWorkbench \<and> viewMode hv = History) in
      if \<not> historyMode \<and> snapshot ctx = None then Page_Waiting ''app.waiting''
      else if \<not> isWorkbench then Page_Embedded (content ctx)
      else (let w = history_workbench date hv st sel
            in Page_Workbench title (wb_bar w) (wb_error w) (wb_messages w)
              (case wb_children w of
                 Hidden \<Rightarrow> None
               | Inherited \<Rightarrow> Some (content ctx)
               | Provided c \<Rightarrow> Some (content c))))"

text \<open>The content reads the snapshot of its context and renders nothing without one; it passes
  no prefix for the links.\<close>

definition processesContent ::
  "(string \<Rightarrow> string \<Rightarrow> rat) \<Rightarrow> (string \<Rightarrow> string) \<Rightarrow> surface \<Rightarrow> metrics_context \<Rightarrow> process_page \<Rightarrow>
   process_pane markup option" where
  "processesContent collate t surface ctx pst =
     map_option (\<lambda>s. processSplitView collate t surface ''/services''
       (processInfos (payload s)) (serviceInfos (payload s)) pst) (snapshot ctx)"

definition servicesContent ::
  "(string \<Rightarrow> string \<Rightarrow> rat) \<Rightarrow> (string \<Rightarrow> string) \<Rightarrow> surface \<Rightarrow> metrics_context \<Rightarrow> service_page \<Rightarrow>
   service_pane markup option" where
  "servicesContent collate t surface ctx sst =
     map_option (\<lambda>s. serviceSplitView collate t surface ''/processes''
       (serviceInfos (payload s)) (processInfos (payload s)) sst) (snapshot ctx)"

definition processesPage ::
  "(string \<Rightarrow> string \<Rightarrow> rat) \<Rightarrow> (string \<Rightarrow> string) \<Rightarrow> surface \<Rightarrow> bool \<Rightarrow> date_parser \<Rightarrow> history_view \<Rightarrow> hist_state \<Rightarrow>
   selection \<Rightarrow> metrics_context \<Rightarrow> process_page \<Rightarrow> process_pane markup option page_view" where
  "processesPage collate t surface showTitle date hv st sel ctx pst =
     workbench_page surface (if showTitle then Some (t ''processes.pageTitle'') else None) date hv st sel ctx
       (\<lambda>c. processesContent collate t surface c pst)"

definition servicesPage ::
  "(string \<Rightarrow> string \<Rightarrow> rat) \<Rightarrow> (string \<Rightarrow> string) \<Rightarrow> surface \<Rightarrow> bool \<Rightarrow> date_parser \<Rightarrow> history_view \<Rightarrow> hist_state \<Rightarrow>
   selection \<Rightarrow> metrics_context \<Rightarrow> service_page \<Rightarrow> service_pane markup option page_view" where
  "servicesPage collate t surface showTitle date hv st sel ctx sst =
     workbench_page surface (if showTitle then Some (t ''services.pageTitle'') else None) date hv st sel ctx
       (\<lambda>c. servicesContent collate t surface c sst)"

section \<open>Facts\<close>

lemma set_process_rows: "set (process_rows collate search s processes) \<subseteq> set processes"
  by (auto simp: process_rows_def Let_def)

lemma other_params: "k = key \<or> params_get (params_set ps key v) k = params_get ps k"
  using query.get_put_other by blast

lemma find_key_subset:
  assumes "inj_on f (set ys)" and "set xs \<subseteq> set ys" and "x \<in> set xs"
  shows "find (\<lambda>y. f y = f x) xs = Some x"
proof -
  obtain y where y: "find (\<lambda>y. f y = f x) xs = Some y"
    using assms(3) by (cases "find (\<lambda>y. f y = f x) xs") (auto simp: find_None_iff_all)
  then show ?thesis using assms by (auto dest!: find_Some_D dest: inj_onD)
qed

lemma clicked_process:
  assumes "distinct (map pid processes)" and "p \<in> set (process_rows collate (pp_search st) (pp_sort st) processes)"
  shows "pp_selected collate processes (process_handle wide screen (Row_Click (pid p)) st) = Some p"
proof -
  have "page_selectedPid js_number (onSelectPid (pp_params st) (pid p)) = Some (of_int (pid p))"
    by (simp add: page_selectedPid_def onSelectPid_def query.get_put_same js_number_show_int)
  moreover have "inj_on pid (set processes)" using assms(1) by (simp add: distinct_map)
  ultimately show ?thesis
    using find_key_subset [OF _ set_process_rows assms(2)]
    by (simp add: pp_selected_def selected_process_def)
qed

lemma set_filter_services: "set (filter_services search services) \<subseteq> set services"
  by (auto simp: filter_services_def Let_def)

lemma clicked_service:
  assumes "distinct (map serviceName services)" and "s \<in> set (filter_services (sp_search st) services)"
  shows "sp_selected services (service_handle wide screen (Service_Click (serviceName s)) st) = Some s"
proof -
  have "inj_on serviceName (set services)" using assms(1) by (simp add: distinct_map)
  then show ?thesis
    using find_key_subset [OF _ set_filter_services assms(2)]
    by (simp add: sp_selected_def selected_service_def onSelectService_def query.get_put_same)
qed

lemma shown_services:
  assumes "r \<in> set (service_rows collate m expanded search services)" and "\<not> is_branch r"
  shows "row_service r \<in> set (filter_services search services)"
proof -
  have "row_service r \<in># shown (service_rows collate m expanded search services)"
    using assms by (simp add: shown_def)
  moreover have "set_mset (shown (service_rows collate m expanded search services)) \<subseteq> set (filter_services search services)"
  proof (cases m)
    case Tree_Mode
    then show ?thesis
      using set_mset_mono [OF tree_shows_matching_only [of collate expanded search services]] by auto
  next
    case List_Mode
    then show ?thesis by (auto simp: service_rows_def Let_def shown_def)
  qed
  ultimately show ?thesis by blast
qed

section \<open>Properties\<close>

text \<open>C18: a click on a row shows that process: whatever the search and the order, exactly
  its row is marked and the other pane is its detail; every other parameter of the
  location stays; and on a narrow screen the frame that is then requested scrolls to the
  pane of the detail.\<close>

theorem clicked_process_is_shown:
  fixes st :: process_page
  assumes "distinct (map pid processes)"
    and "p \<in> set (process_rows collate (pp_search st) (pp_sort st) processes)"
  shows "let st' = process_handle wide screen (Row_Click (pid p)) st;
             detail = Process_Detail (process_detail_panel prefix p services);
             screen' = processSplitView collate t surface prefix processes services st' in
    (\<exists>inp cols rows. slots screen' = [Process_Master inp cols rows, detail] \<and>
       map snd rows = map (\<lambda>q. q = p) (process_rows collate (pp_search st) (pp_sort st) processes)) \<and>
    (k = ''pid'' \<or> params_get (pp_params st') k = params_get (pp_params st) k) \<and>
    (if wide then pp_scroll st' = pp_scroll st
     else \<exists>x. sc_scrolled (pp_scroll (process_handle wide screen' Frame st')) = Some x \<and> slots x = [detail])"
proof -
  let ?st = "process_handle wide screen (Row_Click (pid p)) st"
  let ?rows = "process_rows collate (pp_search st) (pp_sort st) processes"
  let ?detail = "Process_Detail (process_detail_panel prefix p services)"
  let ?screen = "processSplitView collate t surface prefix processes services ?st"
  have sel: "pp_selected collate processes ?st = Some p" by (rule clicked_process [OF assms])
  have "q = p" if "q \<in> set ?rows" "pid p = pid q" for q
    using that assms set_process_rows by (metis distinct_map inj_onD subsetD)
  then have marks: "map (\<lambda>q. pid p = pid q) ?rows = map (\<lambda>q. q = p) ?rows" by auto
  obtain master where view: "?screen = masterDetailLayout surface Ratio_60_40 master ?detail"
    and master: "\<exists>inp cols rows. master = Process_Master inp cols rows \<and> map snd rows = map (\<lambda>q. q = p) ?rows"
    unfolding processSplitView_def Let_def sel using marks by (auto simp: comp_def)
  obtain x where "ref_target ?screen = Some x" "slots x = [?detail]"
    unfolding view using masterDetailLayout_panes(2) [of surface Ratio_60_40 master ?detail] by blast
  then have "sc_scrolled (pp_scroll (process_handle wide ?screen Frame ?st)) = Some x" if "\<not> wide"
    using that by (simp add: afterSelect_def scroll_frame_def)
  with \<open>slots x = [?detail]\<close> show ?thesis
    unfolding Let_def view masterDetailLayout_panes(1) using master other_params [of k "''pid''"]
    by (auto simp: onSelectPid_def afterSelect_def)
qed

text \<open>C30: a click on a service shows that service, in the tree and in the list: among
  services with different names exactly its rows are marked, the other pane is its
  detail, and every other parameter of the location stays.\<close>

theorem clicked_service_is_shown:
  fixes st :: service_page
  assumes "distinct (map serviceName services)" and "s \<in> set (filter_services (sp_search st) services)"
  shows "let st' = service_handle wide screen (Service_Click (serviceName s)) st in
    (\<exists>inp tabs rows. slots (serviceSplitView collate t surface prefix services processes st') =
         [Service_Master inp tabs rows, Service_Detail (service_detail_panel prefix s processes)] \<and>
       map fst rows = service_rows collate (sp_mode st) (sp_expanded st) (sp_search st) services \<and>
       (\<forall>(r, m)\<in>set rows. m = (\<not> is_branch r \<and> row_service r = s))) \<and>
    (k = ''service'' \<or> params_get (sp_params st') k = params_get (sp_params st) k)"
proof -
  let ?st = "service_handle wide screen (Service_Click (serviceName s)) st"
  let ?rows = "service_rows collate (sp_mode st) (sp_expanded st) (sp_search st) services"
  have sel: "sp_selected services ?st = Some s" by (rule clicked_service [OF assms])
  have "row_service r = s" if "r \<in> set ?rows" "\<not> is_branch r" "serviceName (row_service r) = serviceName s" for r
    using that assms shown_services set_filter_services by (metis distinct_map inj_onD subsetD)
  then have marks: "\<forall>(r, m)\<in>set (map (\<lambda>r. (r, row_marked (Some s) r)) ?rows). m = (\<not> is_branch r \<and> row_service r = s)"
    by (auto simp: row_marked_def)
  show ?thesis
    unfolding Let_def serviceSplitView_def sel masterDetailLayout_panes(1)
    using marks other_params [of k "''service''"] by (auto simp: comp_def onSelectService_def)
qed

text \<open>C9: a page follows the mode: live it waits exactly without a snapshot and shows the
  current one otherwise; in history mode a page of its own shows a sample of the history
  or, when there is none, exactly one of the banner, the loading and the empty message,
  and never the live snapshot.\<close>

theorem pages_follow_mode:
  assumes "hist_reachable date st"
  shows "case workbench_page surface title date hv st sel ctx content of
      Page_Waiting m \<Rightarrow> snapshot ctx = None \<and> (surface = Page_Surface \<longrightarrow> viewMode hv = Live)
    | Page_Embedded x \<Rightarrow> surface \<noteq> Page_Surface \<and> snapshot ctx \<noteq> None \<and> x = content ctx
    | Page_Workbench h bar banner ms (Some x) \<Rightarrow>
        if viewMode hv = Live then snapshot ctx \<noteq> None \<and> x = content ctx \<and> \<not> banner \<and> ms = []
        else \<exists>s\<in>set (h_samples st). x = content
          \<lparr> snapshot = Some s, live = False, lastUpdate = Some (date (collectedAt s)) \<rparr>
    | Page_Workbench h bar banner ms None \<Rightarrow>
        viewMode hv = History \<and> (if banner then ms = [] else ms = [if h_loading st then ''history.loading'' else ''history.empty''])"
proof -
  have "h_error st \<noteq> None \<longrightarrow> \<not> h_loading st"
    using hist_reachable_inv [OF assms] by (simp add: flags_ok_def)
  moreover have "viewMode hv = Live \<longleftrightarrow> viewMode hv \<noteq> History" by (cases "viewMode hv") simp_all
  ultimately show ?thesis
    using selected_in_samples [of "sortSamplesAsc date (h_samples st)" "sampleIndex sel"]
    by (auto simp: workbench_page_def history_workbench_def useSelectedHistorySnapshot_def Let_def
        selected_None_iff split: option.splits)
qed

text \<open>C11: from a reply to what is displayed: when data of the present dependencies arrives,
  the page in history mode shows the sample at the slider's position in the ascending
  order of instants. When the number of samples is another than before, which a refresh
  that finds a new sample makes it, the slider is at its start, wherever the user had
  moved it, and the sample shown is one of the earliest.\<close>

theorem refresh_shows_sample:
  assumes "hist_reachable date st" and "i < length (h_inflight st)" and "live_load st (h_inflight st ! i)"
    and "viewMode hv = History" and "is_ok code" and "code \<noteq> 204"
    and "w = spec_window date now (h_deps st) xs" and "w \<noteq> []" and "set w \<subseteq> dated date"
  shows "let st' = hist_arrive date now i (Response code (Json xs)) st;
             sel' = selection_effect (timeRange hv) (length w) sel;
             s = sortSamplesAsc date w ! nat (safe_index (length w) (sampleIndex sel'))
    in (\<exists>bar banner. workbench_page Page_Surface title date hv st' sel' ctx content =
          Page_Workbench title (Some bar) banner [] (Some (content
            \<lparr> snapshot = Some s, live = False, lastUpdate = Some (date (collectedAt s)) \<rparr>)) \<and>
          tb_value bar = safe_index (length w) (sampleIndex sel') \<and> tb_max bar = int (length w) - 1) \<and>
       (length w \<noteq> sel_count sel \<longrightarrow> sampleIndex sel' = 0 \<and>
          (\<forall>x\<in>set w. the (date (collectedAt s)) \<le> the (date (collectedAt x))))"
proof -
  let ?st = "hist_arrive date now i (Response code (Json xs)) st"
  let ?sel = "selection_effect (timeRange hv) (length w) sel"
  let ?ordered = "sortSamplesAsc date w"
  have "runs_ok st" using hist_reachable_inv [OF assms(1)] by simp
  then have "l_deps (h_inflight st ! i) = h_deps st" using assms(2,3) by (auto simp: runs_ok_def)
  then have arrived: "h_samples ?st = ?ordered" "\<not> h_loading ?st"
    using assms(3,5-7) by (simp_all add: hist_arrive_def load_data_def spec_window_def live_load_def Let_def)
  have ordered: "sortSamplesAsc date ?ordered = ?ordered" using assms(9) by (rule sortSamplesAsc_idem)
  have "sorted (map (\<lambda>s. the (date (collectedAt s))) ?ordered)"
    using assms(9) sorted_samples_iff [of ?ordered date]
    by (simp add: sortSamplesAsc_def sample_order.sorted_js_sort)
  then have least: "the (date (collectedAt (?ordered ! 0))) \<le> the (date (collectedAt x))" if "x \<in> set w" for x
    using that assms(8) by (cases ?ordered) (auto simp: set_sortSamplesAsc [of date w, symmetric] simp del: set_sortSamplesAsc)
  have reset: "sampleIndex ?sel = 0" if "length w \<noteq> sel_count sel"
    using that by (simp add: selection_effect_def)
  have "0 < length w" using assms(8) by simp
  then have "int (length w) - 1 = max (int (length w) - 1) 0" by simp
  moreover have "?ordered \<noteq> []" using assms(8) by (metis length_0_conv length_sortSamplesAsc)
  ultimately show ?thesis
    using assms(4,8) arrived reset least
    by (auto simp: Let_def workbench_page_def history_workbench_def useSelectedHistorySnapshot_def ordered
        selected_snapshot_def history_time_bar_def safe_index_def)
qed

theorem clicked_process_is_shown_witness:
  "let procs = [sample_process 1 2 ''nginx'', sample_process 2 5 ''sshd''];
       st = process_handle False (Plain []) (Row_Click 1) (process_page_init [(''tab'', ''x'')])
   in \<exists>inp cols rows. slots (processSplitView (\<lambda>_ _. 0) (\<lambda>k. k) Page_Surface ''/services'' procs [] st) =
        [Process_Master inp cols rows,
         Process_Detail (process_detail_panel ''/services'' (sample_process 1 2 ''nginx'') [])]"
proof -
  let ?procs = "[sample_process 1 2 ''nginx'', sample_process 2 5 ''sshd'']"
  have "sample_process 1 2 ''nginx'' \<in> set (process_rows (\<lambda>_ _. 0) [] initial_sort ?procs)"
    by (simp add: process_rows_def trim_def to_lower_def)
  moreover have "pid (sample_process 1 2 ''nginx'') = 1" "distinct (map pid ?procs)"
    by (simp_all add: sample_process_def)
  ultimately show ?thesis
    using clicked_process_is_shown [of ?procs "sample_process 1 2 ''nginx''" "\<lambda>_ _. 0"
        "process_page_init [(''tab'', ''x'')]" False "Plain []" "''/services''" "[]" "\<lambda>k. k" Page_Surface]
    by (fastforce simp: Let_def process_page_init_def)
qed

theorem clicked_service_is_shown_witness:
  "let services = [sample_service ''com.acme.a'', sample_service ''com.acme.b''];
       st = service_handle True (Plain []) (Service_Click ''com.acme.b'') (service_page_init Page_Surface [])
   in \<exists>inp tabs rows. slots (serviceSplitView (\<lambda>_ _. 0) (\<lambda>k. k) Page_Surface ''/processes'' services [] st) =
        [Service_Master inp tabs rows,
         Service_Detail (service_detail_panel ''/processes'' (sample_service ''com.acme.b'') [])]"
proof -
  let ?services = "[sample_service ''com.acme.a'', sample_service ''com.acme.b'']"
  have "sample_service ''com.acme.b'' \<in> set (filter_services [] ?services)"
    by (simp add: filter_services_def trim_def to_lower_def)
  moreover have "serviceName (sample_service n) = n" for n by (simp add: sample_service_def)
  ultimately show ?thesis
    using clicked_service_is_shown [of ?services "sample_service ''com.acme.b''"
        "service_page_init Page_Surface []" True "Plain []" "\<lambda>_ _. 0" "\<lambda>k. k" Page_Surface "''/processes''" "[]"]
    by (fastforce simp: Let_def service_page_init_def)
qed

theorem pages_follow_mode_witness:
  "\<exists>h bar. processesPage (\<lambda>_ _. 0) (\<lambda>k. k) Page_Surface True parse_iso \<lparr> viewMode = History, timeRange = Range_24h \<rparr>
     (hist_mount 0 day_deps) (selection_init Range_24h)
     \<lparr> snapshot = Some (snapshot_at ''1970-01-01T00:00:00Z''), live = True, lastUpdate = None \<rparr> (process_page_init []) =
   Page_Workbench h bar False [''history.loading''] None"
proof -
  let ?page = "processesPage (\<lambda>_ _. 0) (\<lambda>k. k) Page_Surface True parse_iso \<lparr> viewMode = History, timeRange = Range_24h \<rparr>
     (hist_mount 0 day_deps) (selection_init Range_24h)
     \<lparr> snapshot = Some (snapshot_at ''1970-01-01T00:00:00Z''), live = True, lastUpdate = None \<rparr> (process_page_init [])"
  have "\<exists>h bar. ?page = Page_Workbench h bar False
      (wb_messages (history_workbench parse_iso \<lparr> viewMode = History, timeRange = Range_24h \<rparr>
        (hist_mount 0 day_deps) (selection_init Range_24h))) None"
    by (simp add: processesPage_def workbench_page_def history_workbench_def useSelectedHistorySnapshot_def
        Let_def hook_defs day_deps_def selected_snapshot_def sortSamplesAsc_def)
  then obtain h bar ms where page: "?page = Page_Workbench h bar False ms None" by blast
  moreover have "h_loading (hist_mount 0 day_deps)" by (simp add: hook_defs Let_def day_deps_def)
  ultimately have "ms = [''history.loading'']"
    using pages_follow_mode [OF hist_reachable.mount [of parse_iso 0 day_deps], where surface = Page_Surface
        and title = "Some ''processes.pageTitle''" and hv = "\<lparr> viewMode = History, timeRange = Range_24h \<rparr>"
        and sel = "selection_init Range_24h"
        and ctx = "\<lparr> snapshot = Some (snapshot_at ''1970-01-01T00:00:00Z''), live = True, lastUpdate = None \<rparr>"
        and content = "\<lambda>c. processesContent (\<lambda>_ _. 0) (\<lambda>k. k) Page_Surface c (process_page_init [])"]
    by (simp add: processesPage_def)
  with page show ?thesis by blast
qed

theorem refresh_shows_sample_witness:
  "let st' = hist_arrive (\<lambda>_. Some 5) 7 0 (Response 200 (Json [snapshot_at ''a''])) (hist_mount 0 day_deps) in
   \<exists>bar banner s. workbench_page Page_Surface None (\<lambda>_. Some 5) \<lparr> viewMode = History, timeRange = Range_24h \<rparr> st'
     (selection_effect Range_24h 1 (selection_init Range_24h))
     \<lparr> snapshot = None, live = False, lastUpdate = None \<rparr> snapshot =
   Page_Workbench None (Some bar) banner [] (Some (Some s))"
proof -
  let ?date = "\<lambda>_. Some 5" and ?st = "hist_mount 0 day_deps" and ?w = "[snapshot_at ''a'']"
  have load: "0 < length (h_inflight ?st)" "live_load ?st (h_inflight ?st ! 0)" and deps: "h_deps ?st = day_deps"
    by (simp_all add: hook_defs Let_def day_deps_def live_load_def)
  have w: "?w = spec_window ?date 7 (h_deps ?st) ?w" unfolding deps
    by (simp add: spec_window_def uses_hub_def day_deps_def filterSamplesByRange_def historyRangeBounds_def)
  have hyps: "is_ok 200" "(200::nat) \<noteq> 204" "?w \<noteq> []" "set ?w \<subseteq> dated ?date"
    and mode: "viewMode \<lparr> viewMode = History, timeRange = Range_24h \<rparr> = History"
    by (simp_all add: dated_def is_ok_def)
  from refresh_shows_sample [OF hist_reachable.mount load mode hyps(1,2) w hyps(3,4), of "selection_init Range_24h" None
      "\<lparr> snapshot = None, live = False, lastUpdate = None \<rparr>" snapshot]
  have "\<exists>bar banner s. workbench_page Page_Surface None ?date \<lparr> viewMode = History, timeRange = Range_24h \<rparr>
      (hist_arrive ?date 7 0 (Response 200 (Json ?w)) ?st)
      (selection_effect (timeRange \<lparr> viewMode = History, timeRange = Range_24h \<rparr>) (length ?w) (selection_init Range_24h))
      \<lparr> snapshot = None, live = False, lastUpdate = None \<rparr> snapshot =
    Page_Workbench None (Some bar) banner [] (Some (Some s))"
    unfolding Let_def metrics_context.select_convs by blast
  then show ?thesis by simp
qed

end
