(* ===== verification/Diagnostics.thy ===== *)
theory Diagnostics
  imports Format JsStore JsSort JsDate
begin

text \<open>
  \<open>src/components/DiagnosticPanel.tsx\<close>: the insights of an agent, listed once per cause,
  each with the text of its reason and its metrics. The details of an insight are an
  unvalidated JSON object. Two conversions of the language that depend on the binary
  representation of numbers are arguments: \<open>num_str\<close>, the decimal text of a number, and
  \<open>str_num\<close>, the number a text denotes (\<open>None\<close> for \<open>NaN\<close>). \<open>collate\<close> is
  \<open>localeCompare\<close>, whose order depends on the locale, and \<open>t\<close> the translation
  function.
\<close>

section \<open>JSON values\<close>

datatype json =
    JNull
  | JBool bool
  | JNum rat
  | JStr string
  | JArr "json list"
  | JObj "(string \<times> json) list"

text \<open>\<open>String(v)\<close>; an array joins its elements, \<open>null\<close> being the empty text there.\<close>

fun js_String :: "(rat \<Rightarrow> string) \<Rightarrow> json \<Rightarrow> string" where
  "js_String num_str JNull = ''null''"
| "js_String num_str (JBool b) = (if b then ''true'' else ''false'')"
| "js_String num_str (JNum r) = num_str r"
| "js_String num_str (JStr s) = s"
| "js_String num_str (JArr vs) =
     join '','' (map (\<lambda>v. if v = JNull then [] else js_String num_str v) vs)"
| "js_String num_str (JObj kvs) = ''[object Object]''"

text \<open>\<open>Number(v)\<close>; an array is converted through its text.\<close>

fun js_Number :: "(rat \<Rightarrow> string) \<Rightarrow> (string \<Rightarrow> rat option) \<Rightarrow> json \<Rightarrow> rat option" where
  "js_Number num_str str_num JNull = Some 0"
| "js_Number num_str str_num (JBool b) = Some (if b then 1 else 0)"
| "js_Number num_str str_num (JNum r) = Some r"
| "js_Number num_str str_num (JStr s) = str_num s"
| "js_Number num_str str_num (JArr vs) = str_num (js_String num_str (JArr vs))"
| "js_Number num_str str_num (JObj kvs) = None"

type_synonym details = "(string \<times> json) list"

text \<open>\<open>d.k ?? ...\<close>: a missing and a \<open>null\<close> field are the same.\<close>

definition field :: "details \<Rightarrow> string \<Rightarrow> json option" where
  "field d k = (case map_of d k of Some JNull \<Rightarrow> None | v \<Rightarrow> v)"

record diagnostic_item =
  i_id :: string
  i_type :: string
  severity :: string
  detectedAt :: string
  summaryKey :: string
  details :: "details option"

definition item_details :: "diagnostic_item \<Rightarrow> details" where
  "item_details item = (case details item of None \<Rightarrow> [] | Some d \<Rightarrow> d)"

section \<open>One insight per cause\<close>

text \<open>\<open>String(d.k ?? '')\<close>\<close>

definition key_part :: "(rat \<Rightarrow> string) \<Rightarrow> json option \<Rightarrow> string" where
  "key_part num_str v = (case v of None \<Rightarrow> [] | Some j \<Rightarrow> js_String num_str j)"

definition or_field :: "json option \<Rightarrow> json option \<Rightarrow> json option" where
  "or_field a b = (case a of None \<Rightarrow> b | Some v \<Rightarrow> Some v)"

definition diagnosticDedupeKey :: "(rat \<Rightarrow> string) \<Rightarrow> diagnostic_item \<Rightarrow> string" where
  "diagnosticDedupeKey num_str item =
     (let d = item_details item in
      if i_type item = ''DISK_FILLING''
      then i_type item @ ''|'' @ key_part num_str (field d ''mount'')
      else if i_type item = ''CONTAINER_FLAP''
      then i_type item @ ''|'' @
        key_part num_str (or_field (field d ''containerId'') (field d ''containerName''))
      else if i_type item = ''CONNECTIVITY_FAIL''
      then i_type item @ ''|'' @ key_part num_str (field d ''target'')
      else i_type item)"

type_synonym seen = "(string \<times> diagnostic_item) list"

definition dedupe_step :: "(rat \<Rightarrow> string) \<Rightarrow> seen \<Rightarrow> diagnostic_item \<Rightarrow> seen" where
  "dedupe_step num_str m item =
     (let key = diagnosticDedupeKey num_str item in
      case map_get m key of
        None \<Rightarrow> map_set m key item
      | Some e \<Rightarrow> if code_less (detectedAt e) (detectedAt item) then map_set m key item else m)"

definition dedupe_map :: "(rat \<Rightarrow> string) \<Rightarrow> diagnostic_item list \<Rightarrow> seen" where
  "dedupe_map num_str items = foldl (dedupe_step num_str) [] items"

definition newest_first :: "(string \<Rightarrow> string \<Rightarrow> rat) \<Rightarrow> diagnostic_item \<Rightarrow> diagnostic_item \<Rightarrow> rat" where
  "newest_first collate a b = collate (detectedAt b) (detectedAt a)"

definition dedupeInsights ::
  "(rat \<Rightarrow> string) \<Rightarrow> (string \<Rightarrow> string \<Rightarrow> rat) \<Rightarrow> diagnostic_item list \<Rightarrow> diagnostic_item list" where
  "dedupeInsights num_str collate items =
     js_sort (newest_first collate) (map_values (dedupe_map num_str items))"

section \<open>Texts\<close>

definition severityTone :: "string \<Rightarrow> tone" where
  "severityTone sev =
     (if sev = ''critical'' then Warning else if sev = ''warning'' then Warning else Neutral)"

definition strVal :: "(rat \<Rightarrow> string) \<Rightarrow> json option \<Rightarrow> string option" where
  "strVal num_str v =
     (case v of
        None \<Rightarrow> None
      | Some JNull \<Rightarrow> None
      | Some j \<Rightarrow> (let s = trim (js_String num_str j) in if s = [] then None else Some s))"

datatype opt = Text string | Number "rat option"

type_synonym translate = "string \<Rightarrow> (string \<times> opt) list \<Rightarrow> string"

text \<open>\<open>Number(d.k ?? x)\<close>\<close>

definition number_or ::
  "(rat \<Rightarrow> string) \<Rightarrow> (string \<Rightarrow> rat option) \<Rightarrow> rat \<Rightarrow> json option \<Rightarrow> rat option" where
  "number_or num_str str_num x v = (case v of None \<Rightarrow> Some x | Some j \<Rightarrow> js_Number num_str str_num j)"

definition percent_text :: "rat option \<Rightarrow> string" where
  "percent_text n = (case n of None \<Rightarrow> ''NaN%'' | Some r \<Rightarrow> formatPercent r)"

text \<open>\<open>formatBytes\<close> on an arbitrary number: \<open>NaN\<close> fails both comparisons.\<close>

definition bytes_text :: "(rat \<Rightarrow> string) \<Rightarrow> rat option \<Rightarrow> string" where
  "bytes_text num_str n =
     (case n of
        None \<Rightarrow> ''NaN KB''
      | Some r \<Rightarrow>
          (if r < 1024 then num_str r @ '' B''
           else (let (v, i) = scale_loop r (- 1) in to_fixed 1 v @ '' '' @ byte_units ! nat i)))"

definition number_text :: "(rat \<Rightarrow> string) \<Rightarrow> rat option \<Rightarrow> string" where
  "number_text num_str n = (case n of None \<Rightarrow> ''NaN'' | Some r \<Rightarrow> num_str r)"

definition times_100 :: "rat option \<Rightarrow> rat option" where
  "times_100 n = map_option (\<lambda>r. r * 100) n"

definition container_label :: "(rat \<Rightarrow> string) \<Rightarrow> details \<Rightarrow> string option" where
  "container_label num_str d =
     (case strVal num_str (field d ''containerName'') of
        None \<Rightarrow> strVal num_str (field d ''containerId'')
      | Some s \<Rightarrow> Some s)"

definition or_text :: "string option \<Rightarrow> string \<Rightarrow> string" where
  "or_text s alt = (case s of None \<Rightarrow> alt | Some x \<Rightarrow> x)"

definition reasonText ::
  "(rat \<Rightarrow> string) \<Rightarrow> (string \<Rightarrow> rat option) \<Rightarrow> translate \<Rightarrow> diagnostic_item \<Rightarrow> string" where
  "reasonText num_str str_num t item =
     (let d = item_details item; num = (\<lambda>x k. number_or num_str str_num x (field d k)) in
      if i_type item = ''CPU_SPIKE'' then
        t ''diagnostics.reason.cpuSpike''
          [(''current'', Text (percent_text (num 0 ''cpuLoad''))),
           (''previous'', Text (percent_text (num 0 ''previousCpu''))),
           (''threshold'', Text (percent_text (num 50 ''threshold'')))]
      else if i_type item = ''MEMORY_PRESSURE'' then
        t ''diagnostics.reason.memoryPressure''
          [(''used'', Text (bytes_text num_str (num 0 ''usedMemory''))),
           (''total'', Text (bytes_text num_str (num 0 ''totalMemory''))),
           (''percent'', Text (percent_text (times_100 (num 0 ''ratio'')))),
           (''threshold'', Text (percent_text (num 85 ''thresholdPct'')))]
      else if i_type item = ''DISK_FILLING'' then
        (let percent = Text (percent_text (num 0 ''usePercent''));
             threshold = Text (percent_text (num 85 ''thresholdPct'')) in
         case strVal num_str (field d ''mount'') of
           Some m \<Rightarrow> t ''diagnostics.reason.diskFilling''
             [(''mount'', Text m), (''percent'', percent), (''threshold'', threshold)]
         | None \<Rightarrow> t ''diagnostics.reason.diskFillingGeneric''
             [(''percent'', percent), (''threshold'', threshold)])
      else if i_type item = ''CONTAINER_FLAP'' then
        t ''diagnostics.reason.containerFlap''
          [(''name'', Text (or_text (container_label num_str d) (t ''diagnostics.unknownContainer'' []))),
           (''count'', Number (num 0 ''restartCount'')),
           (''threshold'', Number (num 3 ''threshold''))]
      else if i_type item = ''CONNECTIVITY_FAIL'' then
        t ''diagnostics.reason.connectivityFail''
          [(''target'', Text (or_text (strVal num_str (field d ''target'')) (t ''diagnostics.unknownTarget'' []))),
           (''error'', Text (or_text (strVal num_str (field d ''error''))
              (t ''diagnostics.reason.unknownError'' [])))]
      else t ''diagnostics.reason.generic'' [(''type'', Text (i_type item))])"

text \<open>\<open>push(label, value)\<close>: nothing for \<open>null\<close> and the empty text.\<close>

definition push :: "string \<Rightarrow> string option \<Rightarrow> (string \<times> string) list" where
  "push label v = (case v of None \<Rightarrow> [] | Some s \<Rightarrow> if s = [] then [] else [(label, s)])"

definition metricsForItem ::
  "(rat \<Rightarrow> string) \<Rightarrow> (string \<Rightarrow> rat option) \<Rightarrow> translate \<Rightarrow> diagnostic_item \<Rightarrow> (string \<times> string) list" where
  "metricsForItem num_str str_num t item =
     (let d = item_details item; num = (\<lambda>x k. number_or num_str str_num x (field d k));
          str = (\<lambda>k. strVal num_str (field d k)); label = (\<lambda>k. t k []) in
      if i_type item = ''CPU_SPIKE'' then
        push (label ''diagnostics.metric.cpuCurrent'') (Some (percent_text (num 0 ''cpuLoad''))) @
        push (label ''diagnostics.metric.cpuPrevious'') (Some (percent_text (num 0 ''previousCpu''))) @
        push (label ''diagnostics.metric.threshold'') (Some (percent_text (num 50 ''threshold'')))
      else if i_type item = ''MEMORY_PRESSURE'' then
        push (label ''diagnostics.metric.memory'') (Some (percent_text (times_100 (num 0 ''ratio'')))) @
        push (label ''diagnostics.metric.memoryBytes'')
          (Some (bytes_text num_str (num 0 ''usedMemory'') @ '' / '' @ bytes_text num_str (num 0 ''totalMemory''))) @
        push (label ''diagnostics.metric.threshold'') (Some (percent_text (num 85 ''thresholdPct'')))
      else if i_type item = ''DISK_FILLING'' then
        push (label ''diagnostics.metric.mount'') (str ''mount'') @
        push (label ''diagnostics.metric.diskUsed'') (Some (percent_text (num 0 ''usePercent''))) @
        push (label ''diagnostics.metric.threshold'') (Some (percent_text (num 85 ''thresholdPct'')))
      else if i_type item = ''CONTAINER_FLAP'' then
        push (label ''diagnostics.metric.container'') (container_label num_str d) @
        push (label ''diagnostics.metric.restarts'') (Some (number_text num_str (num 0 ''restartCount''))) @
        push (label ''diagnostics.metric.threshold'') (Some (number_text num_str (num 3 ''threshold'')))
      else if i_type item = ''CONNECTIVITY_FAIL'' then
        push (label ''diagnostics.metric.target'') (str ''target'') @
        push (label ''diagnostics.metric.error'') (str ''error'') @
        (case field d ''latency'' of
           None \<Rightarrow> []
         | Some j \<Rightarrow> push (label ''diagnostics.metric.latency'')
             (Some (number_text num_str (js_Number num_str str_num j) @ '' ms'')))
      else concat (map (\<lambda>(k, v). push k (strVal num_str (Some v))) d))"

section \<open>Cards\<close>

record diagnostic_card =
  card_key :: string
  card_title :: string
  card_severity :: string
  card_tone :: tone
  card_reason :: string
  card_metrics :: "(string \<times> string) list"
  card_accent :: string
  card_detectedAt :: string   \<comment> \<open>printed as a local date\<close>

text \<open>The class of the card's left edge.\<close>

definition card_edge :: "string \<Rightarrow> string" where
  "card_edge sev =
     (if sev = ''critical'' then ''border-l-error''
      else if sev = ''warning'' then ''border-l-amber-400'' else ''border-l-outline-variant'')"

definition diagnostic_card_of ::
  "(rat \<Rightarrow> string) \<Rightarrow> (string \<Rightarrow> rat option) \<Rightarrow> translate \<Rightarrow> diagnostic_item \<Rightarrow> diagnostic_card" where
  "diagnostic_card_of num_str str_num t item =
     \<lparr> card_key = diagnosticDedupeKey num_str item,
       card_title = t (summaryKey item) [(''defaultValue'', Text (i_type item))],
       card_severity = severity item, card_tone = severityTone (severity item),
       card_reason = reasonText num_str str_num t item,
       card_metrics = metricsForItem num_str str_num t item,
       card_accent = card_edge (severity item), card_detectedAt = detectedAt item \<rparr>"

text \<open>\<open>DiagnosticPanel\<close> renders nothing for no insights.\<close>

definition diagnostic_panel ::
  "(rat \<Rightarrow> string) \<Rightarrow> (string \<Rightarrow> rat option) \<Rightarrow> (string \<Rightarrow> string \<Rightarrow> rat) \<Rightarrow> translate \<Rightarrow>
   diagnostic_item list \<Rightarrow> diagnostic_card list option" where
  "diagnostic_panel num_str str_num collate t items =
     (let unique = dedupeInsights num_str collate items
      in if unique = [] then None else Some (map (diagnostic_card_of num_str str_num t) unique))"

section \<open>The deduplication\<close>

text \<open>The map holds, under its own key, an item no earlier (by code unit) than any seen.\<close>

definition seen_ok :: "(rat \<Rightarrow> string) \<Rightarrow> diagnostic_item list \<Rightarrow> seen \<Rightarrow> bool" where
  "seen_ok num_str items m =
     (distinct (map_keys m) \<and>
      (\<forall>(k, e)\<in>set m. e \<in> set items \<and> diagnosticDedupeKey num_str e = k) \<and>
      (\<forall>i\<in>set items. \<exists>e. map_get m (diagnosticDedupeKey num_str i) = Some e \<and>
         \<not> code_less (detectedAt e) (detectedAt i)))"

lemma seen_ok_step:
  assumes "seen_ok num_str items m"
  shows "seen_ok num_str (items @ [i]) (dedupe_step num_str m i)"
proof -
  let ?k = "diagnosticDedupeKey num_str i"
  let ?key = "diagnosticDedupeKey num_str"
  have dist: "distinct (map_keys m)" and owned: "\<forall>(k, e)\<in>set m. e \<in> set items \<and> ?key e = k"
    and newest: "\<forall>j\<in>set items. \<exists>e. map_get m (?key j) = Some e \<and> \<not> code_less (detectedAt e) (detectedAt j)"
    using assms by (auto simp: seen_ok_def)
  have put: "seen_ok num_str (items @ [i]) (map_set m ?k i)"
    if old: "\<forall>e. map_get m ?k = Some e \<longrightarrow> code_less (detectedAt e) (detectedAt i)"
  proof -
    have "\<forall>j\<in>set (items @ [i]). \<exists>e. map_get (map_set m ?k i) (?key j) = Some e \<and>
        \<not> code_less (detectedAt e) (detectedAt j)"
    proof
      fix j
      assume j: "j \<in> set (items @ [i])"
      show "\<exists>e. map_get (map_set m ?k i) (?key j) = Some e \<and> \<not> code_less (detectedAt e) (detectedAt j)"
      proof (cases "?key j = ?k")
        case True
        moreover have "\<not> code_less (detectedAt i) (detectedAt j)"
        proof (cases "j = i")
          case False
          with j newest True obtain e where e: "map_get m ?k = Some e"
            "\<not> code_less (detectedAt e) (detectedAt j)" by (metis Un_iff empty_iff insert_iff list.set set_append)
          with old have "code_less (detectedAt e) (detectedAt i)" by blast
          with e show ?thesis using code_less_trans by blast
        qed simp
        ultimately show ?thesis by (simp add: jsmap.get_put_same)
      next
        case False
        with j newest show ?thesis by (auto simp: jsmap.get_put_other)
      qed
    qed
    moreover have "distinct (map_keys (map_set m ?k i))"
      using dist by (rule jsmap.distinct_keys_put)
    moreover have "\<forall>(k, e)\<in>set (map_set m ?k i). e \<in> set (items @ [i]) \<and> ?key e = k"
      using owned set_map_set_subset [of m ?k i] by fastforce
    ultimately show ?thesis by (simp add: seen_ok_def)
  qed
  have keep: "seen_ok num_str (items @ [i]) m"
    if "map_get m ?k = Some e" "\<not> code_less (detectedAt e) (detectedAt i)" for e
    using that dist owned newest by (fastforce simp: seen_ok_def)
  show ?thesis
    using put keep by (auto simp: dedupe_step_def Let_def split: option.split)
qed

lemma seen_ok_map: "seen_ok num_str items (dedupe_map num_str items)"
proof (induction items rule: rev_induct)
  case Nil
  then show ?case by (simp add: seen_ok_def dedupe_map_def map_keys_def)
next
  case (snoc i items)
  then show ?case using seen_ok_step by (simp add: dedupe_map_def)
qed

lemma set_dedupeInsights:
  "set (dedupeInsights num_str collate items) = set (map_values (dedupe_map num_str items))"
  by (simp add: dedupeInsights_def)

lemma keys_of_values:
  assumes "seen_ok num_str items m"
  shows "map (diagnosticDedupeKey num_str) (map_values m) = map_keys m"
  using assms by (auto simp: seen_ok_def map_values_def map_keys_def)

section \<open>Properties\<close>

text \<open>C16: the panel lists every cause once: its insights are among the given ones, no two
  share a key, every given insight is represented by one of its key that is not
  earlier as text, and the list is ordered by the collation of the detection times,
  latest first.\<close>

theorem dedupeInsights_newest_per_cause:
  assumes "comparator_on UNIV collate"
  shows "let r = dedupeInsights num_str collate items in
    set r \<subseteq> set items \<and> distinct (map (diagnosticDedupeKey num_str) r) \<and>
    (\<forall>i\<in>set items. \<exists>e\<in>set r. diagnosticDedupeKey num_str e = diagnosticDedupeKey num_str i \<and>
       \<not> code_less (detectedAt e) (detectedAt i)) \<and>
    sorted_wrt (\<lambda>a b. collate (detectedAt b) (detectedAt a) \<le> 0) r"
proof -
  let ?m = "dedupe_map num_str items" and ?r = "dedupeInsights num_str collate items"
  have ok: "seen_ok num_str items ?m" by (rule seen_ok_map)
  have cmp: "comparator_on UNIV (newest_first collate)"
  proof unfold_locales
    fix x y z
    show "newest_first collate x y < 0 \<longleftrightarrow> 0 < newest_first collate y x"
      using comparator_on.skew [OF assms, of "detectedAt y" "detectedAt x"] by (simp add: newest_first_def)
    assume "newest_first collate x y \<le> 0" and "newest_first collate y z \<le> 0"
    then show "newest_first collate x z \<le> 0"
      using comparator_on.transitive [OF assms, of "detectedAt z" "detectedAt y" "detectedAt x"]
      by (simp add: newest_first_def)
  qed
  have "set ?r \<subseteq> set items"
    using ok by (auto simp: set_dedupeInsights seen_ok_def map_values_def)
  moreover have "distinct (map_keys ?m)"
    using ok unfolding seen_ok_def by blast
  then have "distinct (map (diagnosticDedupeKey num_str) (map_values ?m))"
    by (simp only: keys_of_values [OF ok])
  then have "distinct (map (diagnosticDedupeKey num_str) ?r)"
    unfolding dedupeInsights_def by (metis mset_js_sort mset_map mset_eq_imp_distinct_iff)
  moreover have "\<forall>i\<in>set items. \<exists>e\<in>set ?r. diagnosticDedupeKey num_str e = diagnosticDedupeKey num_str i \<and>
       \<not> code_less (detectedAt e) (detectedAt i)"
  proof
    fix i
    assume "i \<in> set items"
    then obtain e where "map_get ?m (diagnosticDedupeKey num_str i) = Some e"
      and "\<not> code_less (detectedAt e) (detectedAt i)" using ok by (auto simp: seen_ok_def)
    moreover from this have mem: "(diagnosticDedupeKey num_str i, e) \<in> set ?m" by (simp add: map_of_SomeD)
    moreover from mem have "e \<in> set ?r" by (force simp: set_dedupeInsights map_values_def)
    moreover from mem ok have "diagnosticDedupeKey num_str e = diagnosticDedupeKey num_str i"
      unfolding seen_ok_def by blast
    ultimately show "\<exists>e\<in>set ?r. diagnosticDedupeKey num_str e = diagnosticDedupeKey num_str i \<and>
       \<not> code_less (detectedAt e) (detectedAt i)" by blast
  qed
  moreover have "sorted_wrt (\<lambda>a b. collate (detectedAt b) (detectedAt a) \<le> 0) ?r"
    using comparator_on.sorted_js_sort [OF cmp, of "map_values ?m"]
    by (simp add: dedupeInsights_def sorted_by_def newest_first_def)
  ultimately show ?thesis by (simp only: Let_def simp_thms)
qed

text \<open>The detection times are compared as text, which does not follow the time: the
  server writes no fraction for a whole second, and the letter that ends such a time
  sorts after the point that starts a fraction. Of two insights of one cause in the
  same second the panel keeps the one at the whole second, although the other one is
  later, in whatever order they come.\<close>

lemma whole_second_hides_fraction:
  assumes "diagnosticDedupeKey num_str a = diagnosticDedupeKey num_str b"
    and "detectedAt a = p @ ''Z''" and "detectedAt b = p @ CHR ''.'' # f"
  shows "dedupeInsights num_str collate [a, b] = [a] \<and> dedupeInsights num_str collate [b, a] = [a]"
proof -
  have cut: "code_less (p @ u) (p @ v) = code_less u v" for u v
    by (induction p) auto
  have "code_less (CHR ''.'' # f) ''Z'' \<and> \<not> code_less ''Z'' (CHR ''.'' # f)"
    by (simp add: char_code_def)
  then have "code_less (detectedAt b) (detectedAt a)" "\<not> code_less (detectedAt a) (detectedAt b)"
    by (simp_all only: assms(2,3) cut simp_thms)
  with assms(1) show ?thesis
    by (simp add: dedupeInsights_def dedupe_map_def dedupe_step_def map_values_def)
qed

definition sample_insight :: "string \<Rightarrow> diagnostic_item" where
  "sample_insight at_time =
     \<lparr> i_id = ''1'', i_type = ''CPU_SPIKE'', severity = ''warning'', detectedAt = at_time,
       summaryKey = ''diagnostics.cpuSpike'', details = None \<rparr>"

lemma whole_second_hides_fraction_witness:
  "dedupeInsights (\<lambda>_. []) (\<lambda>_ _. 0)
     [sample_insight ''2026-07-24T10:00:00Z'', sample_insight ''2026-07-24T10:00:00.5Z''] =
     [sample_insight ''2026-07-24T10:00:00Z''] \<and>
   parse_iso ''2026-07-24T10:00:00.5Z'' = Some (500 + the (parse_iso ''2026-07-24T10:00:00Z''))"
proof
  have "diagnosticDedupeKey (\<lambda>_. []) (sample_insight u) = ''CPU_SPIKE''" for u
    by (simp add: diagnosticDedupeKey_def sample_insight_def)
  then show "dedupeInsights (\<lambda>_. []) (\<lambda>_ _. 0)
     [sample_insight ''2026-07-24T10:00:00Z'', sample_insight ''2026-07-24T10:00:00.5Z''] =
     [sample_insight ''2026-07-24T10:00:00Z'']"
    using whole_second_hides_fraction [of "\<lambda>_. []" "sample_insight ''2026-07-24T10:00:00Z''"
        "sample_insight ''2026-07-24T10:00:00.5Z''" "''2026-07-24T10:00:00''" "''5Z''" "\<lambda>_ _. 0"]
    by (simp add: sample_insight_def)
qed code_simp

theorem dedupeInsights_newest_per_cause_witness:
  "let r = dedupeInsights (\<lambda>_. []) (\<lambda>_ _. 0) [sample_insight ''a'', sample_insight ''b''] in
    set r \<subseteq> {sample_insight ''a'', sample_insight ''b''}"
  using dedupeInsights_newest_per_cause [of "\<lambda>_ _. 0" "\<lambda>_. []"
      "[sample_insight ''a'', sample_insight ''b'']"]
  by (simp add: Let_def comparator_on_def)

text \<open>No card lists an empty metric, whatever the type of its insight and whatever its
  details hold; the card of a flapping container lists the container's name, or its
  identifier when it has no name, and has at most the two other metrics when the
  details give neither.\<close>

lemma card_metrics_shown:
  "(\<forall>(label, v)\<in>set (metricsForItem num_str str_num t item). v \<noteq> []) \<and>
    (i_type item = ''CONTAINER_FLAP'' \<longrightarrow>
      (case container_label num_str (item_details item) of
         None \<Rightarrow> length (metricsForItem num_str str_num t item) \<le> 2
       | Some name \<Rightarrow> (t ''diagnostics.metric.container'' [], name)
           \<in> set (metricsForItem num_str str_num t item)))"
proof -
  have push: "(a, []) \<notin> set (push l x)" for a l x
    by (cases x) (auto simp: push_def)
  have label: "container_label num_str d \<noteq> Some []" for d
    by (auto simp: container_label_def strVal_def Let_def split: option.split json.split)
  have short: "length (push l x) \<le> 1" for l x
    by (simp add: push_def split: option.split)
  have "\<forall>(label, v)\<in>set (metricsForItem num_str str_num t item). v \<noteq> []"
    unfolding metricsForItem_def Let_def
    by (auto simp: push split: option.split)
  moreover have "case container_label num_str (item_details item) of
         None \<Rightarrow> length (metricsForItem num_str str_num t item) \<le> 2
       | Some name \<Rightarrow> (t ''diagnostics.metric.container'' [], name)
           \<in> set (metricsForItem num_str str_num t item)"
    if "i_type item = ''CONTAINER_FLAP''"
    using that label [of "item_details item"] short
    by (auto simp: metricsForItem_def Let_def push_def split: option.split)
  ultimately show ?thesis by blast
qed

lemma card_metrics_shown_witness:
  "let item = (sample_insight ''a'')\<lparr> i_type := ''CONTAINER_FLAP'',
        details := Some [(''containerName'', JStr ''web'')] \<rparr>
   in (''diagnostics.metric.container'', ''web'')
      \<in> set (metricsForItem (\<lambda>_. []) (\<lambda>_. None) (\<lambda>k _. k) item)"
proof -
  have "container_label (\<lambda>_. []) [(''containerName'', JStr ''web'')] = Some ''web''" by code_simp
  then show ?thesis
    using card_metrics_shown [of "\<lambda>_. []" "\<lambda>_. None" "\<lambda>k _. k" "(sample_insight ''a'')\<lparr> i_type := ''CONTAINER_FLAP'',
        details := Some [(''containerName'', JStr ''web'')] \<rparr>"]
    by (simp add: Let_def item_details_def)
qed

end
