(* ===== verification/DashboardViews.thy ===== *)
theory DashboardViews
  imports HistoryView Format Diagnostics Navigation JsParse
begin

text \<open>
  The dashboard of a host: \<open>src/routes/dashboard/DashboardPage.tsx\<close> and
  \<open>DashboardHistoryView.tsx\<close>, \<open>src/components/MetricCard.tsx\<close> and
  \<open>MetricTrendChart.tsx\<close>. A component is the record of the values it displays; the
  coordinates of a chart are computed as in the code, and printed with \<open>toFixed\<close>.
\<close>

section \<open>Metric cards\<close>

record metric_card =
  mc_label :: string
  mc_value :: string
  mc_bar :: "(tone \<times> rat) option"
  mc_subtitle :: "string option"

definition metricCard :: "string \<Rightarrow> string \<Rightarrow> rat option \<Rightarrow> string option \<Rightarrow> metric_card" where
  "metricCard label value pct subtitle =
     \<lparr> mc_label = label, mc_value = value,
       mc_bar = map_option (\<lambda>p. (barTone p, bar_width p)) pct,
       mc_subtitle = (if subtitle = Some [] then None else subtitle) \<rparr>"

section \<open>The live dashboard\<close>

definition mem_percent :: "metrics_payload \<Rightarrow> rat" where
  "mem_percent p =
     (if 0 < totalMemory p then of_int (usedMemory p) / of_int (totalMemory p) * 100 else 0)"

definition healthy_count :: "metrics_payload \<Rightarrow> nat" where
  "healthy_count p = length (filter (\<lambda>c. health c = ''healthy'') (containers p))"

definition healthy_percent :: "metrics_payload \<Rightarrow> rat" where
  "healthy_percent p =
     (if length (containers p) \<noteq> 0
      then of_nat (healthy_count p) / of_nat (length (containers p)) * 100 else 0)"

definition load_percent :: "metrics_payload \<Rightarrow> rat" where
  "load_percent p =
     (if 0 < availableProcessors p
      then systemLoadAverage p / of_int (availableProcessors p) * 100 else 0)"

text \<open>The three cards that the dashboard and the overview of a container share.\<close>

definition summary_cards :: "translate \<Rightarrow> metrics_payload \<Rightarrow> metric_card list" where
  "summary_cards t p =
     [metricCard (t ''card.cpu'' []) (formatPercent (cpuLoad p)) (Some (cpuLoad p)) None,
      metricCard (t ''card.memory'' []) (formatPercent (mem_percent p)) (Some (mem_percent p))
        (Some (formatBytes (usedMemory p) @ '' / '' @ formatBytes (totalMemory p))),
      metricCard (t ''card.containers'' []) (show_nat (length (containers p)))
        (Some (healthy_percent p)) (Some (show_nat (healthy_count p) @ '' '' @ t ''card.healthy'' []))]"

definition dashboard_cards :: "translate \<Rightarrow> metrics_payload \<Rightarrow> metric_card list" where
  "dashboard_cards t p =
     summary_cards t p @
     [metricCard (t ''card.load'' []) (to_fixed 2 (systemLoadAverage p)) (Some (load_percent p))
        (Some (t ''cpu.coresActive''
          [(''active'', Number (Some (of_int (availableProcessors p)))),
           (''total'', Number (Some (of_int (availableProcessors p))))]))]"

record disk_row =
  dr_mount :: string
  dr_filesystem :: string
  dr_bar :: "tone \<times> rat"
  dr_used :: string
  dr_total :: string

definition disk_row_of :: "disk_usage_info \<Rightarrow> disk_row" where
  "disk_row_of d =
     \<lparr> dr_mount = mount d, dr_filesystem = filesystem d,
       dr_bar = (barTone (usePercent d), bar_width (usePercent d)),
       dr_used = formatPercent (usePercent d), dr_total = formatBytes (totalBytes d) \<rparr>"

definition network_row_of :: "network_usage_info \<Rightarrow> string \<times> string \<times> string" where
  "network_row_of n = (n_name n, formatBytes (bytesReceived n), formatBytes (bytesSent n))"

record container_tile =
  ct_link :: string
  ct_name :: string
  ct_agent :: bool
  ct_label :: string
  ct_tone :: tone

definition container_state_label :: "container_info \<Rightarrow> string" where
  "container_state_label c = (if health c \<noteq> [] then health c else c_status c)"

definition container_state_tone :: "container_info \<Rightarrow> tone" where
  "container_state_tone c = (if health c = ''healthy'' then Success else Neutral)"

definition container_tile_of :: "string \<Rightarrow> container_info \<Rightarrow> container_tile" where
  "container_tile_of href c =
     \<lparr> ct_link = href @ ''?id='' @ encode_uri_component (c_id c), ct_name = c_name c,
       ct_agent = isAgentContainer c, ct_label = container_state_label c,
       ct_tone = container_state_tone c \<rparr>"

text \<open>The section of containers shows the first six, or is absent.\<close>

definition container_tiles :: "string \<Rightarrow> metrics_payload \<Rightarrow> container_tile list" where
  "container_tiles href p = map (container_tile_of href) (take_slice 6 (containers p))"

record dashboard =
  db_cards :: "metric_card list"
  db_disks :: "disk_row list"
  db_networks :: "(string \<times> string \<times> string) list"
  db_tiles :: "container_tile list"

definition live_dashboard :: "translate \<Rightarrow> string \<Rightarrow> metrics_payload \<Rightarrow> dashboard" where
  "live_dashboard t containersHref p =
     \<lparr> db_cards = dashboard_cards t p, db_disks = map disk_row_of (diskUsage p),
       db_networks = map network_row_of (networkUsage p),
       db_tiles = container_tiles containersHref p \<rparr>"

section \<open>Trend charts\<close>

definition chart_width :: rat where "chart_width = 640"
definition chart_height :: rat where "chart_height = 140"
definition pad_top :: rat where "pad_top = 12"
definition pad_right :: rat where "pad_right = 12"
definition pad_bottom :: rat where "pad_bottom = 28"
definition pad_left :: rat where "pad_left = 44"

definition inner_w :: rat where "inner_w = chart_width - pad_left - pad_right"
definition inner_h :: rat where "inner_h = chart_height - pad_top - pad_bottom"

lemmas chart_frame = chart_width_def chart_height_def pad_top_def pad_right_def pad_bottom_def
  pad_left_def inner_w_def inner_h_def

text \<open>\<open>Math.max(max, ...values, 1)\<close>\<close>

definition y_max :: "rat \<Rightarrow> rat list \<Rightarrow> rat" where
  "y_max m values = max_of m (values @ [1])"

definition x_at :: "nat \<Rightarrow> nat \<Rightarrow> rat" where
  "x_at n i = pad_left + (of_nat i / max (of_nat n - 1) 1) * inner_w"

definition y_at :: "rat \<Rightarrow> rat \<Rightarrow> rat" where
  "y_at ymax v = pad_top + inner_h - (v / ymax) * inner_h"

definition line_point :: "nat \<Rightarrow> rat \<Rightarrow> nat \<times> rat \<Rightarrow> string" where
  "line_point n ymax = (\<lambda>(i, v).
     (if i = 0 then ''M'' else ''L'') @ '' '' @ to_fixed 1 (x_at n i) @ '' '' @ to_fixed 1 (y_at ymax v))"

record trend_chart =
  ch_line :: string
  ch_area :: string
  ch_last :: history_point
  ch_ymax :: rat
  ch_firstLabel :: string
  ch_lastLabel :: string
  ch_ytop :: rat
  ch_ymid :: rat

text \<open>\<open>toLocaleString\<close> is an argument, given the time value.\<close>

definition formatAxisTime :: "date_parser \<Rightarrow> (int \<Rightarrow> string) \<Rightarrow> string \<Rightarrow> string" where
  "formatAxisTime date locale_string instant =
     (case date instant of None \<Rightarrow> instant | Some ms \<Rightarrow> locale_string ms)"

definition metricTrendChart ::
  "date_parser \<Rightarrow> (int \<Rightarrow> string) \<Rightarrow> rat \<Rightarrow> history_point list \<Rightarrow> trend_chart option" where
  "metricTrendChart date locale_string m points =
     (if length points = 0 then None else
      let n = length points; values = map point_value points; ymax = y_max m values;
          line = join '' '' (map (line_point n ymax) (zip [0..<n] values));
          bottom = to_fixed 1 (pad_top + inner_h);
          area = line @ '' L '' @ to_fixed 1 (x_at n (n - 1)) @ '' '' @ bottom @ '' L '' @
            to_fixed 1 (x_at n 0) @ '' '' @ bottom @ '' Z'';
          lst = points ! (n - 1)
      in Some \<lparr> ch_line = line, ch_area = area, ch_last = lst, ch_ymax = ymax,
           ch_firstLabel = formatAxisTime date locale_string (point_at (points ! 0)),
           ch_lastLabel = formatAxisTime date locale_string (point_at lst),
           ch_ytop = y_at ymax ymax, ch_ymid = y_at ymax (ymax / 2) \<rparr>)"

section \<open>The dashboard in history mode\<close>

record history_charts =
  hc_cpu :: "history_point list"
  hc_memory :: "history_point list"
  hc_disk :: "history_point list option"
  hc_containers :: "(history_point list \<times> rat) option"

record history_dashboard =
  hd_range :: history_range
  hd_count :: nat
  hd_error :: bool
  hd_messages :: "string list"
  hd_charts :: "history_charts option"

definition charts_of :: "metrics_snapshot list \<Rightarrow> history_charts" where
  "charts_of samples =
     (let disk = diskSeries samples; cs = containerSeries samples in
      \<lparr> hc_cpu = cpuSeries samples, hc_memory = memorySeries samples,
        hc_disk = (if 0 < length disk then Some disk else None),
        hc_containers =
          (if list_ex (\<lambda>p. 0 < point_value p) cs
           then Some (cs, max_of 1 (map point_value cs)) else None) \<rparr>)"

definition dashboard_history :: "history_range \<Rightarrow> hist_state \<Rightarrow> history_dashboard" where
  "dashboard_history r st =
     (let samples = h_samples st; n = length samples; failed = given (h_error st) in
      \<lparr> hd_range = r, hd_count = n, hd_error = failed,
        hd_messages =
          (if h_loading st \<and> n = 0 then [''history.loading''] else []) @
          (if \<not> h_loading st \<and> n = 0 \<and> \<not> failed then [''history.empty''] else []),
        hd_charts = (if 0 < n then Some (charts_of samples) else None) \<rparr>)"

datatype dashboard_view =
  Dash_History history_dashboard | Dash_Waiting | Dash_Live dashboard

definition dashboard_page ::
  "translate \<Rightarrow> string \<Rightarrow> history_view \<Rightarrow> hist_state \<Rightarrow> metrics_context \<Rightarrow> dashboard_view" where
  "dashboard_page t containersHref hv st ctx =
     (if viewMode hv = History then Dash_History (dashboard_history (timeRange hv) st)
      else (case snapshot ctx of
              None \<Rightarrow> Dash_Waiting
            | Some s \<Rightarrow> Dash_Live (live_dashboard t containersHref (payload s))))"

section \<open>Facts\<close>

lemma y_max_ge:
  "1 \<le> y_max m values" "m \<le> y_max m values" "v \<in> set values \<Longrightarrow> v \<le> y_max m values"
  unfolding y_max_def using max_of_ge by fastforce+

text \<open>The position as a share of the plot area.\<close>

definition x_share :: "nat \<Rightarrow> nat \<Rightarrow> rat" where
  "x_share n i = of_nat i / max (of_nat n - 1) 1"

lemma x_at_share: "x_at n i = 44 + x_share n i * 584"
  by (simp add: x_at_def x_share_def chart_frame)

lemma y_at_share: "y_at ymax v = 112 - (v / ymax) * 100"
  by (simp add: y_at_def chart_frame)

lemma share_le_1: "0 \<le> (a :: rat) \<Longrightarrow> a \<le> b \<Longrightarrow> 0 < b \<Longrightarrow> 0 \<le> a / b \<and> a / b \<le> 1"
  by (simp add: divide_le_eq)

lemma scale_share: "0 \<le> (x :: rat) \<and> x \<le> 1 \<Longrightarrow> 0 \<le> x * 100 \<and> x * 100 \<le> 100"
  by simp

lemma x_share_bounds:
  assumes "i < n"
  shows "0 \<le> x_share n i \<and> x_share n i \<le> 1"
proof -
  have "of_nat (Suc i) \<le> (of_nat n :: rat)" using assms by (simp only: of_nat_le_iff Suc_le_eq)
  then have "(of_nat i :: rat) \<le> max (of_nat n - 1) 1" by simp
  then show ?thesis unfolding x_share_def by (intro share_le_1) simp_all
qed

lemma x_at_bounds: "i < n \<Longrightarrow> pad_left \<le> x_at n i \<and> x_at n i \<le> chart_width - pad_right"
  using x_share_bounds [of i n] by (simp add: x_at_share chart_frame)

lemma x_at_less:
  assumes "i < j"
  shows "x_at n i < x_at n j"
proof -
  have "x_share n i < x_share n j"
    using assms unfolding x_share_def by (intro divide_strict_right_mono) auto
  then show ?thesis by (simp add: x_at_share)
qed

lemma sub_share: "0 \<le> (x :: rat) \<and> x \<le> 100 \<Longrightarrow> 12 \<le> 112 - x \<and> 112 - x \<le> 112"
  by simp

lemma y_at_bounds:
  assumes "0 \<le> v" and "v \<le> ymax" and "1 \<le> ymax"
  shows "pad_top \<le> y_at ymax v \<and> y_at ymax v \<le> pad_top + inner_h"
proof -
  have "0 \<le> v / ymax \<and> v / ymax \<le> 1" using assms by (intro share_le_1) simp_all
  from scale_share [OF this] have "12 \<le> y_at ymax v \<and> y_at ymax v \<le> 112"
    unfolding y_at_share by (intro sub_share)
  then show ?thesis by (simp add: chart_frame)
qed

lemma y_at_less: "v < w \<Longrightarrow> 1 \<le> ymax \<Longrightarrow> y_at ymax w < y_at ymax v"
proof -
  assume "v < w" and "1 \<le> ymax"
  then have "v / ymax < w / ymax" by (intro divide_strict_right_mono) simp_all
  then have "v / ymax * 100 < w / ymax * 100" by (rule mult_strict_right_mono) simp
  then show "y_at ymax w < y_at ymax v" unfolding y_at_share by (rule diff_strict_left_mono)
qed

text \<open>The commands of the data of a path: a letter and two numbers each, with spaces between.\<close>

fun path_commands :: "string list \<Rightarrow> (string \<times> rat option \<times> rat option) list" where
  "path_commands (c # x # y # r) = (c, js_number x, js_number y) # path_commands r"
| "path_commands r = []"

definition drawn :: "string \<Rightarrow> (string \<times> rat option \<times> rat option) list" where
  "drawn d = path_commands (split_on (\<lambda>c. c = CHR '' '') d)"

lemma split_on_join_words:
  "ws \<noteq> [] \<Longrightarrow> split_on (\<lambda>c. c = d) (join [d] ws) = concat (map (split_on (\<lambda>c. c = d)) ws)"
  by (induction "[d]" ws rule: join.induct) (simp_all add: split_on_append_sep)

text \<open>What is left of a coordinate with one decimal.\<close>

definition rounded :: "rat \<Rightarrow> rat" where
  "rounded x = of_nat (scaled 1 x) / 10"

lemma rounded_near: "0 \<le> x \<Longrightarrow> \<bar>rounded x - x\<bar> \<le> 1 / 20"
  using scaled_nearest [of 1 x] by (simp add: rounded_def abs_le_iff field_simps)

lemma rounded_mono: "0 \<le> x \<Longrightarrow> x \<le> y \<Longrightarrow> rounded x \<le> rounded y"
  by (auto simp: rounded_def scaled_def intro!: divide_right_mono nat_mono floor_mono)

lemma rounded_less: "0 \<le> x \<Longrightarrow> x + 1 / 10 < y \<Longrightarrow> rounded x < rounded y"
  using rounded_near [of x] rounded_near [of y] by linarith

lemma rounded_frame: "rounded 44 = 44" "rounded 628 = 628" "rounded 12 = 12" "rounded 112 = 112"
  by (simp_all add: rounded_def scaled_def floor_eq_iff)

lemma coordinate_read: "0 \<le> x \<Longrightarrow> js_number (to_fixed 1 x) = Some (rounded x)"
  by (simp add: js_number_to_fixed rounded_def)

lemma words_of_pair:
  "split_on (\<lambda>c. c = CHR '' '') (k # CHR '' '' # to_fixed 1 x @ '' '' @ to_fixed 1 y) =
    split_on (\<lambda>c. c = CHR '' '') [k] @ [to_fixed 1 x, to_fixed 1 y]"
proof -
  have "split_on (\<lambda>c. c = CHR '' '') (to_fixed 1 v) = [to_fixed 1 v]" for v
    using to_fixed_no_space by (intro split_on_no_sep) auto
  then show "split_on (\<lambda>c. c = CHR '' '') (k # CHR '' '' # to_fixed 1 x @ '' '' @ to_fixed 1 y) =
      split_on (\<lambda>c. c = CHR '' '') [k] @ [to_fixed 1 x, to_fixed 1 y]"
    using split_on_append_sep [of "\<lambda>c. c = CHR '' ''" "CHR '' ''" "[k]" "to_fixed 1 x @ '' '' @ to_fixed 1 y"]
      split_on_append_sep [of "\<lambda>c. c = CHR '' ''" "CHR '' ''" "to_fixed 1 x" "to_fixed 1 y"] by simp
qed

lemma rounded_between: "0 \<le> a \<Longrightarrow> a \<le> x \<Longrightarrow> x \<le> b \<Longrightarrow> rounded a \<le> rounded x \<and> rounded x \<le> rounded b"
  by (simp add: rounded_mono)

lemma y_at_le: "v \<le> w \<Longrightarrow> 1 \<le> ymax \<Longrightarrow> y_at ymax w \<le> y_at ymax v"
  using y_at_less [of v w ymax] by (cases "v = w") simp_all

lemma x_at_step:
  assumes "i < j" and "j < n" and "n \<le> 5000"
  shows "x_at n i + 1 / 10 < x_at n j"
proof -
  have m: "max (of_nat n - 1) 1 = (of_nat (n - 1) :: rat)" "0 < (of_nat (n - 1) :: rat)" "of_nat (n - 1) < (5000 :: rat)"
    using assms by (auto simp: of_nat_diff)
  have "1 / 5000 < 1 / (of_nat (n - 1) :: rat)" using m(2,3) by (intro divide_strict_left_mono) simp_all
  also have "\<dots> \<le> (of_nat j - of_nat i) / of_nat (n - 1)"
    using assms(1) m(2) by (intro divide_right_mono) (simp_all flip: of_nat_diff)
  finally have "1 / 5000 < x_share n j - x_share n i" unfolding x_share_def m(1) diff_divide_distrib .
  then show ?thesis unfolding x_at_share by linarith
qed

text \<open>The commands of the line and of the area.\<close>

lemma path_commands_append: "path_commands (c # x # y # r) = path_commands [c, x, y] @ path_commands r"
  by simp

lemma words_of_point:
  "split_on (\<lambda>c. c = CHR '' '') (line_point n ymax (i, v)) =
     [if i = 0 then ''M'' else ''L'', to_fixed 1 (x_at n i), to_fixed 1 (y_at ymax v)]"
  using words_of_pair [of "CHR ''M''"] words_of_pair [of "CHR ''L''"]
  by (cases "i = 0") (auto simp: line_point_def simp del: One_nat_def)

lemma coordinates_of_point:
  "i < n \<Longrightarrow> js_number (to_fixed 1 (x_at n i)) = Some (rounded (x_at n i))"
  "0 \<le> v \<Longrightarrow> v \<le> ymax \<Longrightarrow> 1 \<le> ymax \<Longrightarrow>
     js_number (to_fixed 1 (y_at ymax v)) = Some (rounded (y_at ymax v))"
  using x_at_bounds [of i n] y_at_bounds [of v ymax] by (simp_all add: coordinate_read chart_frame del: One_nat_def)

lemma path_commands_points:
  assumes "\<forall>i\<in>set is. i < n \<and> 0 \<le> v i \<and> v i \<le> ymax" and "1 \<le> ymax"
  shows "path_commands (concat (map (\<lambda>i. split_on (\<lambda>c. c = CHR '' '') (line_point n ymax (i, v i))) is) @ r) =
    map (\<lambda>i. (if i = 0 then ''M'' else ''L'', Some (rounded (x_at n i)), Some (rounded (y_at ymax (v i))))) is @
      path_commands r"
  using assms(1) by (induction "is") (simp_all add: words_of_point coordinates_of_point assms(2) del: One_nat_def)

lemma chart_commands:
  assumes "\<forall>p\<in>set points. 0 \<le> point_value p"
    and "metricTrendChart date locale_string m points = Some ch"
  defines "n \<equiv> length points" and "ymax \<equiv> y_max m (map point_value points)"
  shows "drawn (ch_line ch) = map (\<lambda>i. (if i = 0 then ''M'' else ''L'', Some (rounded (x_at n i)),
      Some (rounded (y_at ymax (point_value (points ! i)))))) [0..<n]"
    and "drawn (ch_area ch) = drawn (ch_line ch) @
      [(''L'', Some (rounded (x_at n (n - 1))), Some 112), (''L'', Some (rounded (x_at n 0)), Some 112)]"
proof -
  let ?v = "\<lambda>i. point_value (points ! i)" and ?words = "split_on (\<lambda>c. c = CHR '' '')"
  let ?line = "join '' '' (map (\<lambda>i. line_point n ymax (i, ?v i)) [0..<n])"
  let ?b = "to_fixed 1 (pad_top + inner_h)"
  let ?tail = "''L '' @ to_fixed 1 (x_at n (n - 1)) @ '' '' @ ?b @ '' L '' @ to_fixed 1 (x_at n 0) @ '' '' @ ?b @ '' Z''"
  have n: "0 < n" using assms(2) by (auto simp: metricTrendChart_def n_def)
  have points: "zip [0..<n] (map point_value points) = map (\<lambda>i. (i, ?v i)) [0..<n]"
    by (rule nth_equalityI) (simp_all add: n_def)
  have ch: "ch_line ch = ?line" "ch_area ch = ?line @ '' '' @ ?tail"
    using assms(2) by (auto simp: metricTrendChart_def Let_def points [unfolded n_def ymax_def] n_def ymax_def o_def split: if_splits)
  have line: "?words ?line = concat (map (\<lambda>i. ?words (line_point n ymax (i, ?v i))) [0..<n])"
    using split_on_join_words [of "map (\<lambda>i. line_point n ymax (i, ?v i)) [0..<n]" "CHR '' ''"] n by (simp add: o_def)
  have ok: "\<forall>i\<in>set [0..<n]. i < n \<and> 0 \<le> ?v i \<and> ?v i \<le> ymax" and top: "1 \<le> ymax"
    using assms(1) y_max_ge by (auto simp: n_def ymax_def)
  show line_commands: "drawn (ch_line ch) = map (\<lambda>i. (if i = 0 then ''M'' else ''L'', Some (rounded (x_at n i)),
      Some (rounded (y_at ymax (?v i))))) [0..<n]"
    using path_commands_points [OF ok top, of "[]"] by (simp add: drawn_def ch(1) line)
  have b: "?words (x @ CHR '' '' # y) = ?words x @ ?words y" for x y by (rule split_on_append_sep) simp
  have fixed: "?words (to_fixed 1 z) = [to_fixed 1 z]" for z using to_fixed_no_space by (intro split_on_no_sep) auto
  have "?words ?tail = [''L'', to_fixed 1 (x_at n (n - 1)), ?b, ''L'', to_fixed 1 (x_at n 0), ?b, ''Z'']"
    using b [of "''L''"] b [of "to_fixed 1 z" for z] b [of ?b] by (simp add: fixed del: One_nat_def)
  moreover have "?words (ch_area ch) = ?words ?line @ ?words ?tail" using b [of ?line ?tail] by (simp add: ch(2))
  moreover have "js_number (to_fixed 1 (x_at n i)) = Some (rounded (x_at n i))" if "i < n" for i
    using that by (rule coordinates_of_point(1))
  moreover have "js_number ?b = Some 112"
    using rounded_frame(4) by (simp add: js_number_to_fixed rounded_def chart_frame)
  ultimately show "drawn (ch_area ch) = drawn (ch_line ch) @
      [(''L'', Some (rounded (x_at n (n - 1))), Some 112), (''L'', Some (rounded (x_at n 0)), Some 112)]"
    using n path_commands_points [OF ok top] unfolding line_commands by (simp add: drawn_def line)
qed

section \<open>Properties\<close>

text \<open>C40: a chart draws its data inside of its frame: for non-negative values the line has a
  command for every sample, in their order, that first moves and then draws; the coordinates
  read from its text are in the plot area and within a twentieth of the exact position; later
  points are not further left, and further right up to 5000 points; larger values are not
  lower; the area is closed along the bottom, and the top label is at the top of the plot.\<close>

theorem chart_inside_frame:
  assumes "\<forall>p\<in>set points. 0 \<le> point_value p"
    and "metricTrendChart date locale_string m points = Some ch"
  shows "let n = length points; v = (\<lambda>i. point_value (points ! i)) in
    \<exists>x y. drawn (ch_line ch) = map (\<lambda>i. (if i = 0 then ''M'' else ''L'', Some (x i), Some (y i))) [0..<n] \<and>
      drawn (ch_area ch) = drawn (ch_line ch) @ [(''L'', Some (x (n - 1)), Some 112), (''L'', Some (x 0), Some 112)] \<and>
      (\<forall>i<n. 44 \<le> x i \<and> x i \<le> 628 \<and> 12 \<le> y i \<and> y i \<le> 112 \<and> v i \<le> ch_ymax ch \<and>
        \<bar>x i - (44 + of_nat i / max (of_nat n - 1) 1 * 584)\<bar> \<le> 1 / 20 \<and>
        \<bar>y i - (112 - v i / ch_ymax ch * 100)\<bar> \<le> 1 / 20) \<and>
      (\<forall>i<n. \<forall>j<n. (i < j \<longrightarrow> x i \<le> x j) \<and> (i < j \<and> n \<le> 5000 \<longrightarrow> x i < x j) \<and> (v i \<le> v j \<longrightarrow> y j \<le> y i)) \<and>
      ch_ytop ch = 12"
proof -
  let ?n = "length points" and ?v = "\<lambda>i. point_value (points ! i)"
  let ?top = "y_max m (map point_value points)"
  let ?x = "\<lambda>i. rounded (x_at ?n i)" and ?y = "\<lambda>i. rounded (y_at ?top (?v i))"
  have ch: "ch_ymax ch = ?top" "ch_ytop ch = y_at ?top ?top"
    using assms(2) by (auto simp: metricTrendChart_def Let_def split: if_splits)
  have x: "44 \<le> x_at ?n i" "x_at ?n i \<le> 628" if "i < ?n" for i
    using x_at_bounds [OF that] by (simp_all add: chart_frame)
  have v: "0 \<le> ?v i" "?v i \<le> ?top" if "i < ?n" for i using assms(1) that by (auto intro!: y_max_ge(3))
  have y: "12 \<le> y_at ?top (?v i)" "y_at ?top (?v i) \<le> 112" if "i < ?n" for i
    using y_at_bounds [OF v [OF that] y_max_ge(1)] by (simp_all add: chart_frame)
  have "44 \<le> ?x i \<and> ?x i \<le> 628 \<and> 12 \<le> ?y i \<and> ?y i \<le> 112 \<and> ?v i \<le> ch_ymax ch \<and>
      \<bar>?x i - (44 + of_nat i / max (of_nat ?n - 1) 1 * 584)\<bar> \<le> 1 / 20 \<and>
      \<bar>?y i - (112 - ?v i / ch_ymax ch * 100)\<bar> \<le> 1 / 20" if "i < ?n" for i
    using rounded_between [OF _ x [OF that]] rounded_between [OF _ y [OF that]] v [OF that]
      rounded_near [of "x_at ?n i"] rounded_near [of "y_at ?top (?v i)"] x(1) [OF that] y(1) [OF that]
    by (simp add: ch(1) rounded_frame y_at_share x_at_share x_share_def)
  moreover have "(i < j \<longrightarrow> ?x i \<le> ?x j) \<and> (i < j \<and> ?n \<le> 5000 \<longrightarrow> ?x i < ?x j) \<and> (?v i \<le> ?v j \<longrightarrow> ?y j \<le> ?y i)"
    if "i < ?n" "j < ?n" for i j
    using x(1) [OF that(1)] y(1) [OF that(2)] y_max_ge(1) [of m "map point_value points"]
    by (auto intro!: rounded_mono rounded_less x_at_less [THEN less_imp_le] x_at_step [OF _ that(2)] y_at_le)
  moreover have "ch_ytop ch = 12" using y_max_ge(1) [of m "map point_value points"] by (simp add: ch(2) y_at_share)
  ultimately show ?thesis
    unfolding Let_def using chart_commands [OF assms] by (intro exI [of _ ?x] exI [of _ ?y]) simp
qed

theorem chart_inside_frame_witness:
  "let pts = [\<lparr> point_at = ''a'', point_value = 20 \<rparr>, \<lparr> point_at = ''b'', point_value = 70 \<rparr>] in
   case metricTrendChart (\<lambda>_. None) (\<lambda>_. []) 100 pts of
     None \<Rightarrow> False | Some ch \<Rightarrow> length (drawn (ch_line ch)) = 2 \<and> length (drawn (ch_area ch)) = 4"
proof -
  let ?pts = "[\<lparr> point_at = ''a'', point_value = 20 \<rparr>, \<lparr> point_at = ''b'', point_value = 70 \<rparr>]"
  obtain ch where ch: "metricTrendChart (\<lambda>_. None) (\<lambda>_. []) 100 ?pts = Some ch"
    by (simp add: metricTrendChart_def Let_def)
  from chart_inside_frame [OF _ ch] have "length (drawn (ch_line ch)) = 2 \<and> length (drawn (ch_area ch)) = 4"
    by (auto simp: Let_def)
  then show ?thesis by (simp only: Let_def ch option.case)
qed

text \<open>The card of the containers is truthful: its bar is between empty and full, it is
  full exactly when every container is healthy. Its colour is that of a load, so that a
  host whose containers are all healthy shows a full bar in the colour of an error.\<close>

lemma healthy_share:
  assumes "containers p \<noteq> []"
  shows "0 \<le> healthy_percent p \<and> healthy_percent p \<le> 100 \<and>
    (healthy_percent p = 100 \<longleftrightarrow> (\<forall>c\<in>set (containers p). health c = ''healthy'')) \<and>
    mc_bar (dashboard_cards t p ! 2) = Some (barTone (healthy_percent p), healthy_percent p) \<and>
    (healthy_percent p = 100 \<longrightarrow> barTone (healthy_percent p) = Error_Tone)"
proof -
  let ?n = "length (containers p)" and ?k = "healthy_count p"
  have le: "?k \<le> ?n" by (simp add: healthy_count_def)
  have n: "0 < (of_nat ?n :: rat)" using assms by simp
  have pct: "healthy_percent p = of_nat ?k / of_nat ?n * 100" using assms by (simp add: healthy_percent_def)
  have "0 \<le> of_nat ?k / (of_nat ?n :: rat) \<and> of_nat ?k / of_nat ?n \<le> (1 :: rat)"
    using le n by (intro share_le_1) simp_all
  then have le100: "0 \<le> healthy_percent p" "healthy_percent p \<le> 100" unfolding pct using scale_share by blast+
  have "healthy_percent p = 100 \<longleftrightarrow> ?k = ?n" using n by (simp add: pct divide_eq_eq)
  also have "\<dots> \<longleftrightarrow> (\<forall>c\<in>set (containers p). health c = ''healthy'')"
    unfolding healthy_count_def by (rule length_filter_full)
  finally have full: "healthy_percent p = 100 \<longleftrightarrow> (\<forall>c\<in>set (containers p). health c = ''healthy'')" .
  have "mc_bar (dashboard_cards t p ! 2) = Some (barTone (healthy_percent p), healthy_percent p)"
    using le100 by (simp add: dashboard_cards_def summary_cards_def metricCard_def bar_width_def)
  moreover have "healthy_percent p = 100 \<longrightarrow> barTone (healthy_percent p) = Error_Tone"
    by (simp add: barTone_def)
  ultimately show ?thesis using le100 full by blast
qed

definition sample_container :: "string \<Rightarrow> string \<Rightarrow> string \<Rightarrow> container_info" where
  "sample_container i name h =
     \<lparr> c_id = i, c_name = name, c_image = ''img'', c_status = ''running'', health = h,
       restartCount = 0, composeProject = ''p'', composeService = [], ports = [] \<rparr>"

lemma healthy_share_witness:
  "healthy_percent (idle_payload\<lparr> containers := [sample_container ''1'' ''a'' ''healthy''] \<rparr>) = 100"
  using healthy_share [of "idle_payload\<lparr> containers := [sample_container ''1'' ''a'' ''healthy''] \<rparr>"]
  by (simp add: sample_container_def)

text \<open>In history mode the dashboard always shows something, and one thing for one
  situation: charts when there are samples (the memory and CPU charts with one point per
  sample), and otherwise exactly one of the error banner, the loading message and the
  empty message.\<close>

lemma dashboard_history_states:
  assumes "hist_reachable date st" and "h_error st \<noteq> Some []"
  shows "let d = dashboard_history r st in
    (hd_charts d = None \<longleftrightarrow> h_samples st = []) \<and>
    (case hd_charts d of
       Some c \<Rightarrow> hd_messages d = [] \<and> length (hc_cpu c) = hd_count d \<and> length (hc_memory c) = hd_count d
     | None \<Rightarrow> (if hd_error d then hd_messages d = []
         else hd_messages d = [if h_loading st then ''history.loading'' else ''history.empty'']))"
  using hist_reachable_inv [OF assms(1)] assms(2)
  by (auto simp: dashboard_history_def charts_of_def cpuSeries_def memorySeries_def given_def
      flags_ok_def Let_def)

lemma dashboard_history_states_witness:
  "hd_messages (dashboard_history Range_24h (hist_mount 0 day_deps)) = [''history.loading'']"
  using dashboard_history_states [OF hist_reachable.mount [of parse_iso 0 day_deps], of Range_24h]
  by (simp add: hook_defs Let_def day_deps_def dashboard_history_def given_def)

end
