(* ===== verification/ContainerViews.thy ===== *)
theory ContainerViews
  imports DashboardViews ProcessViews
begin

text \<open>
  The pages of containers: \<open>src/routes/containers/ContainersPage.tsx\<close> (the list with its
  search and selection, and the detail of a container), and
  \<open>src/routes/container-metrics/ContainerMetricsPage.tsx\<close> and
  \<open>ContainerMetricsOverview.tsx\<close> (the page of a container that runs an agent itself).
\<close>

section \<open>The list of containers\<close>

record containers_state =
  cs_search :: string
  cs_selected :: "string option"
  cs_mobileDetail :: bool

definition containers_init :: "params \<Rightarrow> containers_state" where
  "containers_init ps =
     (let initialId = params_get ps ''id'' in
      \<lparr> cs_search = [], cs_selected = initialId, cs_mobileDetail = given initialId \<rparr>)"

definition filter_containers :: "string \<Rightarrow> container_info list \<Rightarrow> container_info list" where
  "filter_containers search cs =
     (let q = to_lower (trim search)
      in if q = [] then cs
         else filter (\<lambda>c. contains (to_lower (c_name c)) q \<or> contains (to_lower (c_image c)) q) cs)"

text \<open>\<open>filtered.find(...) ?? filtered[0] ?? null\<close>\<close>

definition selected_container :: "string option \<Rightarrow> container_info list \<Rightarrow> container_info option" where
  "selected_container sel filtered =
     (case find (\<lambda>c. Some (c_id c) = sel) filtered of
        Some c \<Rightarrow> Some c
      | None \<Rightarrow> (case filtered of [] \<Rightarrow> None | c # _ \<Rightarrow> Some c))"

definition selectContainer :: "bool \<Rightarrow> string \<Rightarrow> containers_state \<Rightarrow> containers_state" where
  "selectContainer wide i st =
     (let st1 = st\<lparr> cs_selected := Some i \<rparr> in if wide then st1 else st1\<lparr> cs_mobileDetail := True \<rparr>)"

record container_row =
  cr_name :: string
  cr_agent :: bool
  cr_status :: "string \<times> tone \<times> bool"
  cr_health :: "(string \<times> tone) option"
  cr_restarts :: int
  cr_image :: string
  cr_ports :: "string list"
  cr_selected :: bool

definition containerRow :: "container_info option \<Rightarrow> container_info \<Rightarrow> container_row" where
  "containerRow sel c =
     \<lparr> cr_name = c_name c, cr_agent = isAgentContainer c,
       cr_status = (c_status c, (if c_status c = ''running'' then Success else Neutral),
         c_status c = ''running''),
       cr_health = (if health c \<noteq> [] \<and> health c \<noteq> ''none''
         then Some (health c, if health c = ''healthy'' then Success else Warning) else None),
       cr_restarts = restartCount c, cr_image = c_image c, cr_ports = ports c,
       cr_selected = (map_option c_id sel = Some (c_id c)) \<rparr>"

section \<open>The detail of a container\<close>

definition composePeers :: "container_info list \<Rightarrow> container_info \<Rightarrow> container_info list" where
  "composePeers cs c =
     filter (\<lambda>x. composeProject x \<noteq> [] \<and> composeProject x = composeProject c \<and> c_id x \<noteq> c_id c) cs"

text \<open>The memory card divides unless the total is zero.\<close>

definition own_memory_percent :: "metrics_payload \<Rightarrow> rat" where
  "own_memory_percent m =
     (if totalMemory m \<noteq> 0 then of_int (usedMemory m) / of_int (totalMemory m) * 100 else 0)"

definition own_cards :: "translate \<Rightarrow> metrics_payload \<Rightarrow> metric_card list" where
  "own_cards t m =
     [metricCard (t ''card.cpu'' []) (formatPercent (cpuLoad m)) (Some (cpuLoad m)) None,
      metricCard (t ''card.memory'' []) (formatPercent (own_memory_percent m))
        (Some (own_memory_percent m)) (Some (formatBytes (usedMemory m))),
      metricCard (t ''section.processes'' []) (show_nat (length (processInfos m))) None None]"

text \<open>A missing value is shown as a dash, here \<open>None\<close>.\<close>

definition or_dash :: "string \<Rightarrow> string option" where
  "or_dash s = (if s = [] then None else Some s)"

record container_overview =
  co_short_id :: string
  co_values :: "(string \<times> string option) list"
  co_compose :: "string option \<times> string option"
  co_cards :: "metric_card list option"
  co_peers :: "container_info list"
  co_link :: "string option"

definition containerOverview ::
  "translate \<Rightarrow> metrics_context \<Rightarrow> container_info \<Rightarrow> container_view \<Rightarrow> string \<Rightarrow> container_overview" where
  "containerOverview t host c own metricsPath =
     (let agent = isAgentContainer c in
      \<lparr> co_short_id = take 12 (c_id c),
        co_values =
          [(''container.image'', Some (c_image c)), (''table.status'', Some (c_status c)),
           (''container.health'', or_dash (health c)),
           (''table.restarts'', Some (show_int (restartCount c)))],
        co_compose = (or_dash (composeProject c), or_dash (composeService c)),
        co_cards =
          (case cv_snapshot own of
             None \<Rightarrow> None
           | Some s \<Rightarrow> if agent then Some (own_cards t (payload s)) else None),
        co_peers =
          composePeers (case snapshot host of None \<Rightarrow> [] | Some s \<Rightarrow> containers (payload s)) c,
        co_link = (if agent then Some metricsPath else None) \<rparr>)"

datatype container_tab = Overview_Tab | Processes_Tab | Services_Tab

datatype detail_content =
    Show_Overview container_overview
  | Show_Processes metrics_context
  | Show_Services metrics_context
  | No_Agent_Metrics

text \<open>The dependency of \<open>useContainerMetrics\<close> in the detail, and the context that its
  answer provides to the pages inside.\<close>

definition detail_metrics_dep :: "bool \<Rightarrow> container_info \<Rightarrow> string option" where
  "detail_metrics_dep hubContext c = (if isAgentContainer c \<and> \<not> hubContext then Some (c_id c) else None)"

definition own_context :: "date_parser \<Rightarrow> container_view \<Rightarrow> metrics_context option" where
  "own_context date own =
     map_option (\<lambda>s. \<lparr> snapshot = Some s, live = \<not> cv_unavailable own,
       lastUpdate = Some (date (collectedAt s)) \<rparr>) (cv_snapshot own)"

definition container_detail_content ::
  "date_parser \<Rightarrow> translate \<Rightarrow> metrics_context \<Rightarrow> container_info \<Rightarrow> container_view \<Rightarrow> string \<Rightarrow>
   container_tab \<Rightarrow> detail_content" where
  "container_detail_content date t host c own metricsPath tab =
     (if tab = Overview_Tab then Show_Overview (containerOverview t host c own metricsPath)
      else (case own_context date own of
              Some ctx \<Rightarrow>
                if isAgentContainer c
                then (if tab = Processes_Tab then Show_Processes ctx else Show_Services ctx)
                else No_Agent_Metrics
            | None \<Rightarrow> No_Agent_Metrics))"

record container_detail =
  cd_label :: string
  cd_tone :: tone
  cd_pulse :: bool
  cd_name :: string
  cd_id :: string
  cd_dashboard_link :: "string option"
  cd_content :: detail_content

text \<open>Every call of \<open>useAgentBasePath\<close> has its own answer to the request for the mode of the server:
  \<open>test_base\<close> is that of the test for the hub, \<open>base\<close> that of the link.\<close>

definition containerDetail ::
  "date_parser \<Rightarrow> translate \<Rightarrow> string \<Rightarrow> string \<Rightarrow> metrics_context \<Rightarrow> container_info \<Rightarrow> container_view \<Rightarrow>
   container_tab \<Rightarrow> container_detail" where
  "containerDetail date t test_base base host c own tab =
     (let metricsPath = useAgentHref base (Some ''container-metrics'') (Some [(''id'', c_id c)]) in
      \<lparr> cd_label = container_state_label c, cd_tone = container_state_tone c,
        cd_pulse = (c_status c = ''running''), cd_name = c_name c, cd_id = c_id c,
        cd_dashboard_link =
          (if isAgentContainer c \<and> \<not> useIsHubAgentContext test_base then Some metricsPath else None),
        cd_content = container_detail_content date t host c own metricsPath tab \<rparr>)"

text \<open>The master list and the container whose detail is shown; \<open>None\<close> without a snapshot.\<close>

definition containers_workbench ::
  "metrics_context \<Rightarrow> containers_state \<Rightarrow> (container_row list \<times> container_info option) option" where
  "containers_workbench ctx st =
     (case snapshot ctx of
        None \<Rightarrow> None
      | Some s \<Rightarrow>
          (let filtered = filter_containers (cs_search st) (containers (payload s));
               sel = selected_container (cs_selected st) filtered
           in Some (map (containerRow sel) filtered, sel)))"

section \<open>The page of a container with an agent\<close>

definition same_container :: "string \<Rightarrow> container_info \<Rightarrow> bool" where
  "same_container i c = (c_id c = i \<or> starts_with (c_id c) i \<or> starts_with i (c_id c))"

definition page_tab :: "params \<Rightarrow> string" where
  "page_tab ps = (case params_get ps ''tab'' of
     None \<Rightarrow> ''overview'' | Some s \<Rightarrow> if s = [] then ''overview'' else s)"

definition page_id :: "params \<Rightarrow> string" where
  "page_id ps = (case params_get ps ''id'' of None \<Rightarrow> [] | Some s \<Rightarrow> s)"

definition setTab :: "params \<Rightarrow> string \<Rightarrow> params" where
  "setTab ps next_tab = params_set ps ''tab'' next_tab"

definition page_metrics_dep :: "bool \<Rightarrow> params \<Rightarrow> string option" where
  "page_metrics_dep hubContext ps =
     (if hubContext then None else if page_id ps = [] then None else Some (page_id ps))"

definition containerMetricsLink :: "string \<Rightarrow> params \<Rightarrow> string \<Rightarrow> string" where
  "containerMetricsLink base ps i =
     (let q = params_to_string [(''id'', i), (''tab'', page_tab ps)]
      in if base \<noteq> [] then base @ ''/container-metrics?'' @ q else ''/container-metrics?'' @ q)"

record overview =
  ov_cards :: "metric_card list"
  ov_disks :: "(string \<times> string \<times> string \<times> string) list"
  ov_networks :: "(string \<times> string \<times> string) list"
  ov_tiles :: "container_tile list"

definition containerMetricsOverview :: "translate \<Rightarrow> metrics_context \<Rightarrow> overview option" where
  "containerMetricsOverview t ctx =
     map_option (\<lambda>s. let p = payload s in
       \<lparr> ov_cards = summary_cards t p,
         ov_disks = map (\<lambda>d. (mount d, filesystem d, formatPercent (usePercent d), formatBytes (totalBytes d)))
           (diskUsage p),
         ov_networks = map network_row_of (networkUsage p),
         ov_tiles = container_tiles ''/container-metrics'' p \<rparr>) (snapshot ctx)"

datatype metrics_content =
    Content_Overview "overview option"
  | Content_Processes metrics_context
  | Content_Services metrics_context
  | Content_Nothing
  | Content_Waiting

record metrics_page =
  mp_back :: string
  mp_container :: container_info
  mp_unavailable :: bool
  mp_switch :: "(string \<times> string \<times> bool) list"
  mp_tab :: string
  mp_content :: metrics_content

datatype metrics_page_view = Metrics_Message string | Metrics_Page metrics_page

definition metrics_tab_content ::
  "date_parser \<Rightarrow> translate \<Rightarrow> container_view \<Rightarrow> string \<Rightarrow> metrics_content" where
  "metrics_tab_content date t own tab =
     (case own_context date own of
        Some ctx \<Rightarrow>
          (if tab = ''overview'' then Content_Overview (containerMetricsOverview t ctx)
           else if tab = ''processes'' then Content_Processes ctx
           else if tab = ''services'' then Content_Services ctx
           else Content_Nothing)
      | None \<Rightarrow> if cv_unavailable own then Content_Nothing else Content_Waiting)"

definition container_metrics_page ::
  "date_parser \<Rightarrow> translate \<Rightarrow> string \<Rightarrow> string \<Rightarrow> string \<Rightarrow> params \<Rightarrow> metrics_context \<Rightarrow> container_view \<Rightarrow>
   metrics_page_view" where
  "container_metrics_page date t test_base back_base base ps host own =
     (let i = page_id ps; tab = page_tab ps;
          cs = (case snapshot host of None \<Rightarrow> [] | Some s \<Rightarrow> containers (payload s))
      in if i = [] then Metrics_Message ''containers.metrics.missingId''
         else (case find (same_container i) cs of
            None \<Rightarrow> Metrics_Message ''containers.metrics.containerNotFound''
          | Some c \<Rightarrow>
              if \<not> isAgentContainer c then Metrics_Message ''containers.metrics.notAgent''
              else if useIsHubAgentContext test_base then Metrics_Message ''containers.metrics.hubUnavailable''
              else Metrics_Page
                \<lparr> mp_back = useAgentHref back_base (Some ''containers'') None, mp_container = c,
                  mp_unavailable = cv_unavailable own,
                  mp_switch = map (\<lambda>x. (containerMetricsLink base ps (c_id x), c_name x, c_id x = c_id c))
                    (filter isAgentContainer cs),
                  mp_tab = tab, mp_content = metrics_tab_content date t own tab \<rparr>))"

section \<open>Properties of the list\<close>

text \<open>C37: whenever a container matches the search, the detail shows one of the matching
  ones: the selected one when it matches, and the first one otherwise; and exactly its
  row is marked, when the identifiers differ.\<close>

theorem selection_follows_search:
  assumes "containers_workbench ctx st = Some (rows, sel)" and "snapshot ctx = Some s"
    and "distinct (map c_id (containers (payload s)))"
  shows "let filtered = filter_containers (cs_search st) (containers (payload s)) in
    (sel = None \<longleftrightarrow> filtered = []) \<and> set_option sel \<subseteq> set filtered \<and>
    (\<forall>c\<in>set filtered. cs_selected st = Some (c_id c) \<longrightarrow> sel = Some c) \<and>
    map cr_selected rows = map (\<lambda>c. sel = Some c) filtered"
proof -
  let ?f = "filter_containers (cs_search st) (containers (payload s))"
  have sub: "set ?f \<subseteq> set (containers (payload s))" and dist: "distinct (map c_id ?f)"
    using assms(3) by (auto simp: filter_containers_def Let_def distinct_map_filter)
  have sel: "sel = selected_container (cs_selected st) ?f" and rows: "rows = map (containerRow sel) ?f"
    using assms(1,2) by (auto simp: containers_workbench_def Let_def)
  have inside: "set_option sel \<subseteq> set ?f" "sel = None \<longleftrightarrow> ?f = []"
    unfolding sel selected_container_def by (auto split: option.split list.split dest: find_Some_D)
  have same: "c = d" if "c \<in> set ?f" "d \<in> set ?f" "c_id c = c_id d" for c d
    using dist that by (auto simp: distinct_map inj_on_def)
  have "sel = Some c" if "c \<in> set ?f" "cs_selected st = Some (c_id c)" for c
  proof -
    have "find (\<lambda>x. Some (c_id x) = cs_selected st) ?f \<noteq> None"
      unfolding find_None_iff_all using that by force
    then obtain d where d: "find (\<lambda>x. Some (c_id x) = cs_selected st) ?f = Some d" by blast
    from find_Some_D [OF d] that(2) have "d \<in> set ?f" "c_id d = c_id c" by simp_all
    with same that(1) have "d = c" by blast
    with d show ?thesis by (simp add: sel selected_container_def)
  qed
  moreover have "map cr_selected rows = map (\<lambda>c. sel = Some c) ?f"
  proof -
    have "cr_selected (containerRow sel c) = (sel = Some c)" if "c \<in> set ?f" for c
    proof (cases sel)
      case (Some d)
      then have "d \<in> set ?f" using inside(1) by simp
      then have "c_id d = c_id c \<longleftrightarrow> d = c" using same that by blast
      with Some show ?thesis by (simp add: containerRow_def)
    qed (simp add: containerRow_def)
    then show ?thesis by (simp add: rows)
  qed
  ultimately show ?thesis using inside by (simp add: Let_def)
qed

text \<open>A click on a peer of a compose project does not lead to the peer when the search
  hides it: the detail then shows the first container that matches the search.\<close>

lemma hidden_peer_not_shown:
  assumes "x \<in> set (composePeers cs c)" and "c_id x \<notin> c_id ` set (filter_containers (cs_search st) cs)"
  shows "selected_container (cs_selected (selectContainer wide (c_id x) st))
      (filter_containers (cs_search st) cs) =
    (case filter_containers (cs_search st) cs of [] \<Rightarrow> None | y # _ \<Rightarrow> Some y)"
proof -
  have "find (\<lambda>y. Some (c_id y) = cs_selected (selectContainer wide (c_id x) st))
      (filter_containers (cs_search st) cs) = None"
    using assms(2) by (auto simp: find_None_iff_all selectContainer_def Let_def) (metis imageI)
  then show ?thesis by (simp add: selected_container_def)
qed

definition compose_pair :: "container_info list" where
  "compose_pair = [sample_container ''1'' ''web'' ''healthy'', sample_container ''2'' ''db'' ''none'']"

definition host_with :: "container_info list \<Rightarrow> metrics_context" where
  "host_with cs =
     \<lparr> snapshot = Some \<lparr> collectedAt = [], payload = idle_payload\<lparr> containers := cs \<rparr> \<rparr>,
       live = True, lastUpdate = None \<rparr>"

theorem selection_follows_search_witness:
  "map cr_selected (fst (the (containers_workbench (host_with compose_pair)
     (containers_init [(''id'', ''2'')])))) = [False, True]"
proof -
  let ?w = "containers_workbench (host_with compose_pair) (containers_init [(''id'', ''2'')])"
  obtain rows sel where w: "?w = Some (rows, sel)"
    by (simp add: containers_workbench_def host_with_def Let_def)
  have f: "filter_containers (cs_search (containers_init [(''id'', ''2'')])) compose_pair = compose_pair"
    by (simp add: filter_containers_def containers_init_def Let_def trim_def to_lower_def)
  have sel: "cs_selected (containers_init [(''id'', ''2'')]) = Some ''2''"
    by (simp add: containers_init_def Let_def)
  have "distinct (map c_id compose_pair)" "sample_container ''2'' ''db'' ''none'' \<in> set compose_pair"
    by (simp_all add: compose_pair_def sample_container_def)
  with selection_follows_search [OF w, of "the (snapshot (host_with compose_pair))"]
  have "sel = Some (sample_container ''2'' ''db'' ''none'')"
    "map cr_selected rows = map (\<lambda>c. sel = Some c) compose_pair"
    by (simp_all add: host_with_def f sel Let_def) (simp add: sample_container_def)
  then have "map cr_selected rows = [False, True]"
    by (simp add: compose_pair_def sample_container_def)
  then show ?thesis by (simp only: w option.sel fst_conv)
qed

lemma hidden_peer_not_shown_witness:
  "selected_container (cs_selected (selectContainer True ''2'' ((containers_init [])\<lparr> cs_search := ''web'' \<rparr>)))
     (filter_containers ''web'' compose_pair) = Some (sample_container ''1'' ''web'' ''healthy'')"
proof -
  let ?st = "(containers_init [])\<lparr> cs_search := ''web'' \<rparr>"
  have f: "filter_containers (cs_search ?st) compose_pair = [sample_container ''1'' ''web'' ''healthy'']"
    by code_simp
  have x: "sample_container ''2'' ''db'' ''none''
      \<in> set (composePeers compose_pair (sample_container ''1'' ''web'' ''healthy''))"
    by (simp add: composePeers_def compose_pair_def sample_container_def)
  have "c_id (sample_container ''2'' ''db'' ''none'') \<notin> c_id ` set (filter_containers (cs_search ?st) compose_pair)"
    unfolding f by (simp add: sample_container_def)
  from hidden_peer_not_shown [OF x this, of True] show ?thesis
    by (simp add: f [simplified]) (simp add: sample_container_def)
qed

section \<open>Properties of the page of a container\<close>

text \<open>The links of the page that switch to another container keep the tab and carry the
  container: read back, the query gives the identifier and the tab, and opened on the
  page they lead to that container when no two identifiers of the host are prefixes of
  one another.\<close>

lemma switch_link_leads_to_container:
  assumes "(link, name, current) \<in> set (map (\<lambda>x. (containerMetricsLink base ps (c_id x), c_name x, c_id x = c_id c))
      (filter isAgentContainer cs))"
    and "CHR ''?'' \<notin> set base"
    and "\<And>x y. x \<in> set cs \<Longrightarrow> y \<in> set cs \<Longrightarrow> starts_with (c_id x) (c_id y) \<Longrightarrow> x = y"
  shows "\<exists>x ps'. params_parse (link_query link) = Some ps' \<and> page_tab ps' = page_tab ps \<and>
    isAgentContainer x \<and> c_name x = name \<and> find (same_container (page_id ps')) cs = Some x"
proof -
  obtain x where x: "x \<in> set cs" "isAgentContainer x" "name = c_name x"
    and link: "link = containerMetricsLink base ps (c_id x)"
    using assms(1) by auto
  let ?ps = "[(''id'', c_id x), (''tab'', page_tab ps)]"
  obtain pre where pre: "link = pre @ ''?'' @ params_to_string ?ps" and free: "CHR ''?'' \<notin> set pre"
    using assms(2) by (auto simp: link containerMetricsLink_def Let_def intro: that
        [of "''/container-metrics''"] that [of "base @ ''/container-metrics''"])
  have "params_parse (link_query link) = Some ?ps"
    unfolding pre link_query_append [OF free] by simp
  moreover have "page_tab ?ps = page_tab ps"
    by (auto simp: page_tab_def split: option.split)
  moreover have "find (same_container (page_id ?ps)) cs = Some x"
  proof -
    have only: "y = x" if "y \<in> set cs" "same_container (c_id x) y" for y
      using that assms(3) x(1) by (auto simp: same_container_def dest: assms(3))
    have "find (same_container (c_id x)) cs \<noteq> None"
      using x(1) by (auto simp: find_None_iff_all same_container_def)
    then obtain y where "find (same_container (c_id x)) cs = Some y" by blast
    with only find_Some_D [OF this] show ?thesis by (auto simp: page_id_def)
  qed
  ultimately show ?thesis using x by blast
qed

text \<open>In history mode the tabs of processes and services show the history of the host,
  not of the container whose page it is: they are pages of their own inside the page,
  which read the selected sample of the host's history, and what the container's agent
  answered has no influence on them.\<close>

lemma container_tabs_show_host_history:
  assumes "metrics_tab_content date t own tab = Content_Processes ctx"
    and "metrics_tab_content date t own' tab = Content_Processes ctx'"
  shows "split_page Page_Surface True (snapshot ctx) sample content =
      split_page Page_Surface True (snapshot ctx') sample content \<and>
    split_page Page_Surface True (snapshot ctx) sample content = History_Content (map_option content sample) \<and>
    split_page Page_Surface False (snapshot ctx) sample content =
      Live_Content (content (the (cv_snapshot own)))"
proof -
  have "ctx = the (own_context date own)" "cv_snapshot own \<noteq> None"
    using assms(1) by (auto simp: metrics_tab_content_def own_context_def split: option.splits if_splits)
  then have "snapshot ctx = cv_snapshot own \<and> cv_snapshot own \<noteq> None"
    by (auto simp: own_context_def)
  then show ?thesis by (auto simp: split_page_def)
qed

text \<open>A host with two containers that run agents.\<close>

definition agent_pair :: "container_info list" where
  "agent_pair = [sample_container ''1'' ''metrics-collector'' ''healthy'',
     sample_container ''2'' ''metrics-collector'' ''none'']"

lemma switch_link_leads_to_container_witness:
  "\<exists>x. find (same_container ''2'') agent_pair = Some x \<and>
     params_parse (link_query (containerMetricsLink [] [(''tab'', ''services'')] ''2'')) \<noteq> None"
proof -
  let ?ps = "[(''tab'', ''services'')]" and ?c = "hd agent_pair"
  let ?x = "sample_container ''2'' ''metrics-collector'' ''none''"
  have "isAgentContainer ?x" by code_simp
  then have mem: "(containerMetricsLink [] ?ps (c_id ?x), c_name ?x, c_id ?x = c_id ?c)
      \<in> set (map (\<lambda>x. (containerMetricsLink [] ?ps (c_id x), c_name x, c_id x = c_id ?c))
          (filter isAgentContainer agent_pair))"
    by (auto simp: agent_pair_def)
  have "x = y" if "x \<in> set agent_pair" "y \<in> set agent_pair" "starts_with (c_id x) (c_id y)" for x y
    using that by (auto simp: agent_pair_def sample_container_def)
  from switch_link_leads_to_container [OF mem _ this]
  obtain x ps' where *: "params_parse (link_query (containerMetricsLink [] ?ps (c_id ?x))) = Some ps'"
    "find (same_container (page_id ps')) agent_pair = Some x" by auto
  have "find (same_container ''2'') agent_pair \<noteq> None" by code_simp
  with * show ?thesis by (auto simp: sample_container_def)
qed

lemma container_tabs_show_host_history_witness:
  "split_page Page_Surface True (Some (snapshot_at ''own'')) (Some (snapshot_at ''host'')) collectedAt =
     History_Content (Some ''host'')"
proof -
  let ?own = "container_init\<lparr> cv_snapshot := Some (snapshot_at ''own'') \<rparr>"
  have "metrics_tab_content (\<lambda>_. None) (\<lambda>k _. k) ?own ''processes'' =
      Content_Processes \<lparr> snapshot = Some (snapshot_at ''own''), live = True, lastUpdate = Some None \<rparr>"
    by (simp add: metrics_tab_content_def own_context_def container_init_def)
  from container_tabs_show_host_history [OF this this, of "Some (snapshot_at ''host'')" collectedAt]
  show ?thesis by simp
qed

end
