(* ===== verification/AlertConfig.thy ===== *)
theory AlertConfig
  imports LiveHooks
begin

text \<open>
  The editor of the hub's alert thresholds: \<open>src/api/useHubAlertConfig.ts\<close> and
  \<open>src/routes/hub/HubAlertSettings.tsx\<close> as one state machine. Its steps are the reply
  to the load, the clicks and edits that the rendered controls allow (nothing while
  loading, the fields only in the open editor, the save button only when no save is
  under way) and the reply to a save. \<open>settings_inv\<close> holds in every reachable state.
\<close>

section \<open>The configuration\<close>

record alert_config =
  cpuPercent :: rat
  ac_memoryPercent :: rat
  diskPercent :: rat
  cooldownMinutes :: rat
  staleMultiplier :: rat
  cpuSpikeMinPercent :: rat
  memoryPressurePercent :: rat
  diskFillingPercent :: rat
  containerRestartCount :: rat

definition alert_defaults :: alert_config where
  "alert_defaults =
     \<lparr> cpuPercent = 90, ac_memoryPercent = 90, diskPercent = 90, cooldownMinutes = 10,
       staleMultiplier = 2, cpuSpikeMinPercent = 50, memoryPressurePercent = 85,
       diskFillingPercent = 85, containerRestartCount = 3 \<rparr>"

datatype config_field =
    Cpu_Percent | Memory_Percent | Disk_Percent | Cooldown_Minutes | Stale_Multiplier
  | Cpu_Spike_Min | Memory_Pressure | Disk_Filling | Restart_Count

fun set_field :: "config_field \<Rightarrow> rat \<Rightarrow> alert_config \<Rightarrow> alert_config" where
  "set_field Cpu_Percent v c = c\<lparr> cpuPercent := v \<rparr>"
| "set_field Memory_Percent v c = c\<lparr> ac_memoryPercent := v \<rparr>"
| "set_field Disk_Percent v c = c\<lparr> diskPercent := v \<rparr>"
| "set_field Cooldown_Minutes v c = c\<lparr> cooldownMinutes := v \<rparr>"
| "set_field Stale_Multiplier v c = c\<lparr> staleMultiplier := v \<rparr>"
| "set_field Cpu_Spike_Min v c = c\<lparr> cpuSpikeMinPercent := v \<rparr>"
| "set_field Memory_Pressure v c = c\<lparr> memoryPressurePercent := v \<rparr>"
| "set_field Disk_Filling v c = c\<lparr> diskFillingPercent := v \<rparr>"
| "set_field Restart_Count v c = c\<lparr> containerRestartCount := v \<rparr>"

text \<open>The fields an answer has.\<close>

type_synonym alert_json = "config_field \<Rightarrow> rat option"

definition all_fields :: "config_field list" where
  "all_fields =
     [Cpu_Percent, Memory_Percent, Disk_Percent, Cooldown_Minutes, Stale_Multiplier,
      Cpu_Spike_Min, Memory_Pressure, Disk_Filling, Restart_Count]"

text \<open>\<open>{ ...defaults, ...data }\<close>\<close>

definition merge_alert_config :: "alert_json \<Rightarrow> alert_config" where
  "merge_alert_config j =
     foldl (\<lambda>c f. case j f of None \<Rightarrow> c | Some v \<Rightarrow> set_field f v c) alert_defaults all_fields"

fun get_field :: "config_field \<Rightarrow> alert_config \<Rightarrow> rat" where
  "get_field Cpu_Percent c = cpuPercent c"
| "get_field Memory_Percent c = ac_memoryPercent c"
| "get_field Disk_Percent c = diskPercent c"
| "get_field Cooldown_Minutes c = cooldownMinutes c"
| "get_field Stale_Multiplier c = staleMultiplier c"
| "get_field Cpu_Spike_Min c = cpuSpikeMinPercent c"
| "get_field Memory_Pressure c = memoryPressurePercent c"
| "get_field Disk_Filling c = diskFillingPercent c"
| "get_field Restart_Count c = containerRestartCount c"

section \<open>The state of the hook and of the editor\<close>

record settings =
  config :: alert_config
  loading :: bool
  saving :: bool
  settings_error :: "string option"
  saved :: bool
  editor_open :: bool
  draft :: alert_config
  pending :: "alert_config option"

definition settings_mount :: settings where
  "settings_mount =
     \<lparr> config = alert_defaults, loading = True, saving = False, settings_error = None,
       saved = False, editor_open = False, draft = alert_defaults, pending = None \<rparr>"

definition load_reply :: "alert_json reply \<Rightarrow> settings \<Rightarrow> settings" where
  "load_reply r st =
     (case apiGet ''/api/v1/hub/alert-config'' r of
        Inr (Some j) \<Rightarrow> st\<lparr> config := merge_alert_config j, loading := False \<rparr>
      | Inr None \<Rightarrow> st\<lparr> loading := False \<rparr>
      | Inl e \<Rightarrow> st\<lparr> settings_error := Some ''load'', loading := False \<rparr>)"

definition handleOpen :: "settings \<Rightarrow> settings" where
  "handleOpen st = st\<lparr> draft := config st, editor_open := True \<rparr>"

definition handleCancel :: "settings \<Rightarrow> settings" where
  "handleCancel st = st\<lparr> editor_open := False \<rparr>"

definition patch :: "config_field \<Rightarrow> rat \<Rightarrow> settings \<Rightarrow> settings" where
  "patch f v st = st\<lparr> draft := set_field f v (draft st) \<rparr>"

text \<open>\<open>handleSave\<close> up to the request, whose body is the draft.\<close>

definition save_begin :: "settings \<Rightarrow> settings" where
  "save_begin st =
     st\<lparr> saving := True, settings_error := None, saved := False, pending := Some (draft st) \<rparr>"

definition save_request :: "settings \<Rightarrow> alert_config request" where
  "save_request st = put_request ''/api/v1/hub/alert-config'' (draft st)"

text \<open>The rest of \<open>save\<close>, which catches the error, and of \<open>handleSave\<close>; spreading
  \<open>null\<close> adds nothing.\<close>

definition save_reply :: "alert_json reply \<Rightarrow> settings \<Rightarrow> settings" where
  "save_reply r st =
     (let st1 =
        (case apiPut ''/api/v1/hub/alert-config'' r of
           Inr (Some j) \<Rightarrow> st\<lparr> config := merge_alert_config j, saved := True \<rparr>
         | Inr None \<Rightarrow> st\<lparr> config := alert_defaults, saved := True \<rparr>
         | Inl e \<Rightarrow> st\<lparr> settings_error := Some ''save'' \<rparr>)
      in st1\<lparr> saving := False, pending := None, editor_open := False \<rparr>)"

lemmas [hook_defs] = settings_mount_def load_reply_def handleOpen_def handleCancel_def patch_def
  save_begin_def save_reply_def

inductive settings_step :: "settings \<Rightarrow> settings \<Rightarrow> bool" where
  loaded: "loading st \<Longrightarrow> settings_step st (load_reply r st)"
| opened: "\<not> loading st \<Longrightarrow> \<not> editor_open st \<Longrightarrow> settings_step st (handleOpen st)"
| cancelled: "\<not> loading st \<Longrightarrow> editor_open st \<Longrightarrow> settings_step st (handleCancel st)"
| edited: "\<not> loading st \<Longrightarrow> editor_open st \<Longrightarrow> settings_step st (patch f v st)"
| clicked: "\<not> loading st \<Longrightarrow> editor_open st \<Longrightarrow> \<not> saving st \<Longrightarrow> settings_step st (save_begin st)"
| answered: "pending st \<noteq> None \<Longrightarrow> settings_step st (save_reply r st)"

inductive settings_reachable :: "settings \<Rightarrow> bool" where
  mounted: "settings_reachable settings_mount"
| step: "settings_reachable st \<Longrightarrow> settings_step st st' \<Longrightarrow> settings_reachable st'"

inductive_cases settings_stepE: "settings_step st st'"

section \<open>What is shown\<close>

record settings_view =
  sv_values :: alert_config
  sv_edit :: bool
  sv_save_disabled :: bool
  sv_error :: "string option"
  sv_saved :: bool

definition view_settings :: "settings \<Rightarrow> settings_view option" where
  "view_settings st =
     (if loading st then None
      else Some \<lparr> sv_values = (if editor_open st then draft st else config st),
        sv_edit = editor_open st, sv_save_disabled = saving st,
        sv_error = (if given (settings_error st)
          then Some (if settings_error st = Some ''save'' then ''hub.settings.saveError''
                     else ''hub.settings.loadError'') else None),
        sv_saved = (saved st \<and> \<not> editor_open st) \<rparr>)"

section \<open>Facts\<close>

lemma get_set_field: "get_field f (set_field g v c) = (if f = g then v else get_field f c)"
  by (cases f; cases g) simp_all

lemma config_eq_iff: "c = d \<longleftrightarrow> (\<forall>f. get_field f c = get_field f d)"
proof
  assume "\<forall>f. get_field f c = get_field f d"
  note all = this [rule_format]
  show "c = d"
    using all [of Cpu_Percent] all [of Memory_Percent] all [of Disk_Percent] all [of Cooldown_Minutes]
      all [of Stale_Multiplier] all [of Cpu_Spike_Min] all [of Memory_Pressure] all [of Disk_Filling]
      all [of Restart_Count]
    by (cases c; cases d) simp
qed simp

interpretation fields: keyed_store "\<lambda>c f. Some (get_field f c)" "\<lambda>c f v. set_field f v c"
  by unfold_locales (simp_all add: get_set_field)

lemma merge_field: "get_field f (merge_alert_config j) = over (get_field f alert_defaults) (j f)"
  by (cases f) (simp_all add: merge_alert_config_def all_fields_def get_set_field over_def split: option.split)

text \<open>What is sent is what was entered: the fields' limits are hints of the input element.\<close>

lemma entered_value_is_sent:
  "req_body (save_request (patch f v st)) = Some (set_field f v (draft st))"
  "get_field f (the (req_body (save_request (patch f v st)))) = v"
  by (simp_all add: save_request_def put_request_def patch_def get_set_field)

text \<open>The answer of a server that echoes the configuration.\<close>

definition echo :: "alert_config \<Rightarrow> alert_json" where
  "echo c = (\<lambda>f. Some (get_field f c))"

lemma merge_echo [simp]: "merge_alert_config (echo c) = c"
  by (simp add: config_eq_iff merge_field echo_def over_def)

definition settings_inv :: "settings \<Rightarrow> bool" where
  "settings_inv st =
     ((saving st \<longleftrightarrow> pending st \<noteq> None) \<and>
      (loading st \<longrightarrow> \<not> saving st \<and> \<not> saved st \<and> \<not> editor_open st \<and> config st = alert_defaults) \<and>
      (saved st \<longrightarrow> settings_error st = None \<and> \<not> saving st) \<and>
      (saving st \<longrightarrow> settings_error st = None) \<and>
      settings_error st \<in> {None, Some ''load'', Some ''save''})"

lemma settings_inv_step: "settings_step st st' \<Longrightarrow> settings_inv st \<Longrightarrow> settings_inv st'"
  by (erule settings_stepE)
     (auto simp: settings_inv_def hook_defs Let_def split: sum.split option.split)

lemma settings_reachable_inv: "settings_reachable st \<Longrightarrow> settings_inv st"
proof (induction rule: settings_reachable.induct)
  case mounted
  show ?case by (simp add: settings_inv_def settings_mount_def)
qed (rule settings_inv_step)

section \<open>Properties\<close>

text \<open>C29: in every reachable state the editor is consistent: at most one save is under way
  and exactly then the save button is disabled, the message that the configuration was
  saved never appears with an error, and a closed editor shows the configuration.\<close>

theorem editor_consistent:
  assumes "settings_reachable st" and "view_settings st = Some v"
  shows "(sv_save_disabled v \<longleftrightarrow> pending st \<noteq> None) \<and> \<not> (sv_saved v \<and> sv_error v \<noteq> None) \<and>
    (\<not> sv_edit v \<longrightarrow> sv_values v = config st)"
  using settings_reachable_inv [OF assms(1)] assms(2)
  by (auto simp: settings_inv_def view_settings_def given_def split: if_splits)

text \<open>A save that succeeds shows what was sent: when the server answers a save with the
  configuration it received, the editor closes, the values shown are those of the draft
  at the moment of the click, whatever was edited since, and the success is reported.\<close>

lemma saved_values_shown:
  assumes "settings_reachable st" and "pending st = Some c" and "is_ok code"
  shows "let st' = save_reply (Response code (Json (echo c))) st in
    view_settings st' = Some \<lparr> sv_values = c, sv_edit = False, sv_save_disabled = False,
      sv_error = None, sv_saved = True \<rparr>"
proof -
  have "settings_inv st" using assms(1) by (rule settings_reachable_inv)
  with assms(2) have "\<not> loading st" "settings_error st = None" by (auto simp: settings_inv_def)
  with assms(3) show ?thesis by (simp add: save_reply_def view_settings_def Let_def given_def)
qed

text \<open>The end of a save discards the draft, also when the save failed: the editor
  closes, a failure leaves the configuration as it was, and reopening the editor starts
  from the configuration, so that neither the rejected values nor the edits made while
  the save was under way can be recovered.\<close>

lemma failed_save_loses_draft:
  assumes "apiPut ''/api/v1/hub/alert-config'' r = Inl e"
  shows "let st' = save_reply r st; st'' = handleOpen st' in
    \<not> editor_open st' \<and> config st' = config st \<and> settings_error st' = Some ''save'' \<and>
    draft st'' = config st \<and> editor_open st''"
  using assms by (simp add: save_reply_def handleOpen_def Let_def)

text \<open>A run: the page is loaded, the editor opened, a value entered and the save clicked.\<close>

definition saving_run :: settings where
  "saving_run =
     save_begin (patch Cpu_Percent 500 (handleOpen (load_reply (Response 204 JsonNull) settings_mount)))"

lemma saving_run_reachable: "settings_reachable saving_run"
  unfolding saving_run_def
  by (intro settings_reachable.step [OF settings_reachable.step [OF settings_reachable.step
        [OF settings_reachable.step [OF settings_reachable.mounted settings_step.loaded]
          settings_step.opened] settings_step.edited] settings_step.clicked])
     (simp_all add: hook_defs)

theorem editor_consistent_witness:
  "sv_save_disabled (the (view_settings saving_run))"
  using editor_consistent [OF saving_run_reachable, of "the (view_settings saving_run)"]
  by (simp add: saving_run_def hook_defs view_settings_def)

lemma saved_values_shown_witness:
  "get_field Cpu_Percent (sv_values (the (view_settings
     (save_reply (Response 200 (Json (echo (draft saving_run)))) saving_run)))) = 500"
proof -
  have "pending saving_run = Some (draft saving_run)" "get_field Cpu_Percent (draft saving_run) = 500"
    by (simp_all add: saving_run_def hook_defs)
  with saved_values_shown [OF saving_run_reachable this(1), of 200] show ?thesis
    by (simp add: is_ok_def Let_def)
qed

lemma failed_save_loses_draft_witness:
  "get_field Cpu_Percent (draft (handleOpen (save_reply (Response 500 JsonNull) saving_run))) = 90"
proof -
  have "apiPut ''/api/v1/hub/alert-config'' (Response 500 JsonNull :: alert_json reply) =
      Inl (Http_Error ''/api/v1/hub/alert-config'' 500)" by (simp add: is_ok_def)
  from failed_save_loses_draft [OF this, of saving_run] show ?thesis
    by (simp add: Let_def) (simp add: saving_run_def hook_defs alert_defaults_def)
qed

end
