(* ===== verification/Alerts.thy ===== *)
theory Alerts
  imports LiveHooks AgentStatus Diagnostics
begin

text \<open>
  The alerts of the hub: \<open>src/api/useAlerts.ts\<close> (the list, which is polled, and the
  two actions on an alert), \<open>src/routes/alerts/AlertsPage.tsx\<close> and the list on
  \<open>src/routes/hub/HubAgentDashboard.tsx\<close>. The list is an instance of the scheduling of
  \<open>Polling\<close>; the actions under way are kept beside it. An action ends with the
  outcome of its promise: an error, a record or \<open>null\<close>.
\<close>

section \<open>Alerts and requests\<close>

record alert_record =
  al_id :: string
  al_agentId :: string
  al_ruleId :: string
  al_severity :: string
  al_status :: string
  al_firedAt :: string
  al_details :: details

record silence_entry =
  se_agentId :: string
  se_ruleId :: string
  se_until :: string
  se_createdAt :: string

record silence_body =
  sb_agentId :: string
  sb_ruleId :: string
  sb_durationMinutes :: int

definition ack_request :: "string \<Rightarrow> unit request" where
  "ack_request i = post_request (''/api/v1/alerts/'' @ encode_uri_component i @ ''/ack'') None"

definition silence_request :: "alert_record \<Rightarrow> int \<Rightarrow> silence_body request" where
  "silence_request a minutes =
     post_request ''/api/v1/alerts/silence''
       (Some \<lparr> sb_agentId = al_agentId a, sb_ruleId = al_ruleId a, sb_durationMinutes = minutes \<rparr>)"

definition alerts_path :: "string option \<Rightarrow> string" where
  "alerts_path a =
     ''/api/v1/alerts'' @ (if given a then ''?agentId='' @ encode_uri_component (the a) else [])"

section \<open>The hook\<close>

record alerts_view =
  alerts :: "alert_record list"
  ackingId :: "string option"
  silencingKey :: "string option"

definition alerts_init :: alerts_view where
  "alerts_init = \<lparr> alerts = [], ackingId = None, silencingKey = None \<rparr>"

definition useAlerts_list :: "(string option, alerts_view, alert_record list reply) handlers" where
  "useAlerts_list =
     \<lparr> enabled = \<lambda>_. True, on_skip = \<lambda>v. v, on_start = \<lambda>v. v,
       on_reply = \<lambda>a r v.
         v\<lparr> alerts := (case or_default [] (apiGet (alerts_path a) r) of Inr data \<Rightarrow> data | Inl e \<Rightarrow> []) \<rparr>,
       repeats = True \<rparr>"

datatype alert_action = Ack string | Silence string

record alerts_state =
  listing :: "(string option, alerts_view) poll"
  actions :: "alert_action list"

definition silence_key :: "alert_record \<Rightarrow> string" where
  "silence_key a = al_agentId a @ ''|'' @ al_ruleId a"

definition on_view :: "(alerts_view \<Rightarrow> alerts_view) \<Rightarrow> alerts_state \<Rightarrow> alerts_state" where
  "on_view f st =
     (if mounted (listing st)
      then st\<lparr> listing := (listing st)\<lparr> view := f (view (listing st)) \<rparr> \<rparr> else st)"

definition acknowledge :: "string \<Rightarrow> alerts_state \<Rightarrow> alerts_state" where
  "acknowledge i st = (on_view (ackingId_update (\<lambda>_. Some i)) st)\<lparr> actions := actions st @ [Ack i] \<rparr>"

definition replace_alert :: "string \<Rightarrow> alert_record \<Rightarrow> alert_record list \<Rightarrow> alert_record list" where
  "replace_alert i updated xs = map (\<lambda>a. if al_id a = i then updated else a) xs"

definition ack_outcome :: "string \<Rightarrow> api_error + alert_record option \<Rightarrow> alerts_view \<Rightarrow> alerts_view" where
  "ack_outcome i res v =
     (case res of
        Inr (Some updated) \<Rightarrow> v\<lparr> alerts := replace_alert i updated (alerts v), ackingId := None \<rparr>
      | Inr None \<Rightarrow> v\<lparr> ackingId := None \<rparr>
      | Inl e \<Rightarrow> v\<lparr> ackingId := None \<rparr>)"

text \<open>The answer \<open>null\<close> is put into the list in place of the alert; the next rendering reads
  a field of it and throws, which unmounts the page.\<close>

definition null_listed :: "alert_action \<Rightarrow> api_error + alert_record option \<Rightarrow> alerts_view \<Rightarrow> bool" where
  "null_listed act res v =
     (res = Inr None \<and> (case act of Ack i \<Rightarrow> list_ex (\<lambda>a. al_id a = i) (alerts v) | Silence k \<Rightarrow> False))"

definition silence :: "alert_record \<Rightarrow> alerts_state \<Rightarrow> alerts_state" where
  "silence a st =
     (on_view (silencingKey_update (\<lambda>_. Some (silence_key a))) st)
       \<lparr> actions := actions st @ [Silence (silence_key a)] \<rparr>"

text \<open>The end of the \<open>n\<close>-th action under way; the outcome matters for an
  acknowledgement only.\<close>

definition action_end :: "nat \<Rightarrow> api_error + alert_record option \<Rightarrow> alerts_state \<Rightarrow> alerts_state" where
  "action_end n res st =
     (let st1 = (on_view
         (case actions st ! n of
            Ack i \<Rightarrow> ack_outcome i res
          | Silence k \<Rightarrow> silencingKey_update (\<lambda>_. None)) st)
         \<lparr> actions := drop_nth n (actions st) \<rparr>
      in if mounted (listing st) \<and> null_listed (actions st ! n) res (view (listing st))
         then st1\<lparr> listing := poll_unmount (listing st1) \<rparr> else st1)"

section \<open>The pages\<close>

definition alertStatusTone :: "string \<Rightarrow> tone" where
  "alertStatusTone s =
     (if s = ''OPEN'' then Warning else if s = ''ACK'' then Success else Neutral)"

definition alertStatusLabel :: "string \<Rightarrow> (string \<Rightarrow> string) \<Rightarrow> string" where
  "alertStatusLabel s t =
     (if s = ''OPEN'' then t ''alerts.status.open''
      else if s = ''ACK'' then t ''alerts.status.ack''
      else if s = ''RESOLVED'' then t ''alerts.status.resolved''
      else s)"

text \<open>A row of the page; the buttons are there for an open alert only, each with its
  being disabled.\<close>

record alert_row =
  ar_agent :: "string option"
  ar_rule :: string
  ar_severity :: string
  ar_label :: string
  ar_tone :: tone
  ar_firedAt :: string
  ar_buttons :: "(bool \<times> bool) option"

definition alert_row_of :: "(string \<Rightarrow> string) \<Rightarrow> string option \<Rightarrow> alerts_view \<Rightarrow> alert_record \<Rightarrow> alert_row" where
  "alert_row_of t agent v a =
     \<lparr> ar_agent = (if given agent then None else Some (al_agentId a)), ar_rule = al_ruleId a,
       ar_severity = al_severity a, ar_label = alertStatusLabel (al_status a) t,
       ar_tone = alertStatusTone (al_status a), ar_firedAt = al_firedAt a,
       ar_buttons = (if al_status a = ''OPEN''
         then Some (ackingId v = Some (al_id a), silencingKey v = Some (silence_key a)) else None) \<rparr>"

record alerts_page =
  ap_hostname :: "string option"
  ap_rows :: "alert_row list"

definition alerts_page_of ::
  "(string \<Rightarrow> string) \<Rightarrow> string option \<Rightarrow> agent_summary list \<Rightarrow> alerts_view \<Rightarrow> alerts_page" where
  "alerts_page_of t agent agents v =
     \<lparr> ap_hostname =
         (if given agent then map_option hostname (find (\<lambda>a. Some (agentId a) = agent) agents) else None),
       ap_rows = map (alert_row_of t agent v) (alerts v) \<rparr>"

text \<open>The list on the dashboard of an agent: rule, severity, label, tone and, for an open
  alert, whether its button is disabled.\<close>

definition dashboard_alert ::
  "(string \<Rightarrow> string) \<Rightarrow> alerts_view \<Rightarrow> alert_record \<Rightarrow> string \<times> string \<times> string \<times> tone \<times> bool option" where
  "dashboard_alert t v a =
     (al_ruleId a, al_severity a,
      (if al_status a = ''OPEN'' then t ''alerts.status.open'' else t ''alerts.status.ack''),
      (if al_status a = ''OPEN'' then Warning else Success),
      (if al_status a = ''OPEN'' then Some (ackingId v = Some (al_id a)) else None))"

definition dashboard_alerts ::
  "(string \<Rightarrow> string) \<Rightarrow> alerts_view \<Rightarrow> (string \<times> string \<times> string \<times> tone \<times> bool option) list" where
  "dashboard_alerts t v = map (dashboard_alert t v) (take_slice 10 (alerts v))"

section \<open>Steps\<close>

definition on_listing ::
  "((string option, alerts_view) poll \<Rightarrow> (string option, alerts_view) poll) \<Rightarrow> alerts_state \<Rightarrow> alerts_state" where
  "on_listing f st = st\<lparr> listing := f (listing st) \<rparr>"

text \<open>A click needs the button of an open alert of the list, not disabled.\<close>

inductive alerts_step :: "alerts_state \<Rightarrow> alerts_state \<Rightarrow> bool" where
  polled: "poll_step useAlerts_list (\<lambda>_ _. True) (listing st) p \<Longrightarrow> alerts_step st (st\<lparr> listing := p \<rparr>)"
| ack: "mounted (listing st) \<Longrightarrow> a \<in> set (alerts (view (listing st))) \<Longrightarrow> al_status a = ''OPEN'' \<Longrightarrow>
     ackingId (view (listing st)) \<noteq> Some (al_id a) \<Longrightarrow> alerts_step st (acknowledge (al_id a) st)"
| silence: "mounted (listing st) \<Longrightarrow> a \<in> set (alerts (view (listing st))) \<Longrightarrow> al_status a = ''OPEN'' \<Longrightarrow>
     silencingKey (view (listing st)) \<noteq> Some (silence_key a) \<Longrightarrow> alerts_step st (silence a st)"
| ended: "n < length (actions st) \<Longrightarrow> alerts_step st (action_end n res st)"

inductive alerts_reachable :: "alerts_state \<Rightarrow> bool" where
  mounted: "alerts_reachable \<lparr> listing = poll_mount useAlerts_list alerts_init d, actions = [] \<rparr>"
| step: "alerts_reachable st \<Longrightarrow> alerts_step st st' \<Longrightarrow> alerts_reachable st'"

inductive_cases alerts_stepE: "alerts_step st st'"

section \<open>Facts\<close>

text \<open>What a poll does to the two indicators: nothing.\<close>

lemma poll_keeps_indicators:
  assumes "poll_step useAlerts_list (\<lambda>_ _. True) st st'"
  shows "ackingId (view st') = ackingId (view st) \<and> silencingKey (view st') = silencingKey (view st)"
  using assms by cases (simp_all add: hook_defs Let_def useAlerts_list_def)

definition indicators_ok :: "alerts_state \<Rightarrow> bool" where
  "indicators_ok st =
     ((mounted (listing st) \<longrightarrow>
        (\<forall>i. ackingId (view (listing st)) = Some i \<longrightarrow> Ack i \<in> set (actions st)) \<and>
        (\<forall>k. silencingKey (view (listing st)) = Some k \<longrightarrow> Silence k \<in> set (actions st))))"

lemma indicators_mount: "indicators_ok \<lparr> listing = poll_mount useAlerts_list alerts_init d, actions = [] \<rparr>"
  by (simp add: indicators_ok_def hook_defs Let_def useAlerts_list_def alerts_init_def)

lemma poll_mounted_back: "poll_step h answers st st' \<Longrightarrow> mounted st' \<Longrightarrow> mounted st"
  by (erule poll_stepE) (auto simp: hook_defs Let_def split: if_splits)

lemma action_end_views:
  assumes "mounted (listing st)"
  shows "view (listing (action_end n res st)) =
      (case actions st ! n of Ack i \<Rightarrow> ack_outcome i res | Silence k \<Rightarrow> silencingKey_update (\<lambda>_. None))
        (view (listing st))"
    and "actions (action_end n res st) = drop_nth n (actions st)"
  using assms by (simp_all add: action_end_def on_view_def poll_unmount_def poll_cleanup_def Let_def)

lemma action_end_mounted:
  "mounted (listing (action_end n res st)) \<longleftrightarrow>
     mounted (listing st) \<and> \<not> null_listed (actions st ! n) res (view (listing st))"
  by (simp add: action_end_def on_view_def poll_unmount_def Let_def)

lemma set_drop_nth_except:
  "n < length xs \<Longrightarrow> x \<in> set xs \<Longrightarrow> x \<noteq> xs ! n \<Longrightarrow> x \<in> set (drop_nth n xs)"
  by (metis in_set_conv_nth set_drop_nth_other)

lemma indicators_step: "alerts_step st st' \<Longrightarrow> indicators_ok st \<Longrightarrow> indicators_ok st'"
proof (erule alerts_stepE)
  fix p
  assume "indicators_ok st" and "st' = st\<lparr> listing := p \<rparr>"
    and p: "poll_step useAlerts_list (\<lambda>_ _. True) (listing st) p"
  then show ?thesis
    using poll_keeps_indicators [OF p] poll_mounted_back [OF p] by (simp add: indicators_ok_def)
next
  fix n res
  assume ok: "indicators_ok st" and st': "st' = action_end n res st" and n: "n < length (actions st)"
  show ?thesis
  proof (cases "mounted (listing st)")
    case True
    then show ?thesis
      using ok set_drop_nth_except [OF n] unfolding st' indicators_ok_def action_end_views [OF True]
      by (auto simp: ack_outcome_def split: alert_action.split sum.split option.split)
  next
    case False
    then show ?thesis by (simp add: st' indicators_ok_def action_end_mounted)
  qed
qed (auto simp: indicators_ok_def acknowledge_def silence_def on_view_def)

lemma indicators_reachable: "alerts_reachable st \<Longrightarrow> indicators_ok st"
proof (induction rule: alerts_reachable.induct)
  case (mounted d)
  show ?case by (rule indicators_mount)
qed (rule indicators_step)

section \<open>Properties\<close>

text \<open>C31: a button that shows an acknowledgement under way is not stuck: in every reachable
  state there is an action for it, whose end, successful or not, enables the button.\<close>

theorem acking_ends:
  assumes "alerts_reachable st" and "mounted (listing st)" and "ackingId (view (listing st)) = Some i"
  shows "\<exists>n < length (actions st). actions st ! n = Ack i \<and>
    (\<forall>res. ackingId (view (listing (action_end n res st))) = None)"
proof -
  have "Ack i \<in> set (actions st)"
    using indicators_reachable [OF assms(1)] assms(2,3) by (simp add: indicators_ok_def)
  then obtain n where "n < length (actions st)" "actions st ! n = Ack i" by (metis in_set_conv_nth)
  then show ?thesis
    using action_end_views(1) [OF assms(2), of n] by (auto simp: ack_outcome_def split: sum.split option.split)
qed

text \<open>An acknowledgement that succeeds replaces exactly the alert it was made for, in
  its place of the list, by the record the server answered; a failed one changes no
  alert.\<close>

lemma acknowledged_alert_replaced:
  assumes "mounted (listing st)" and "n < length (actions st)" and "actions st ! n = Ack i"
    and "al_id updated = i"
  shows "let old = alerts (view (listing st));
      new = alerts (view (listing (action_end n (Inr (Some updated)) st))) in
    map al_id new = map al_id old \<and>
    (\<forall>k < length old. new ! k = (if al_id (old ! k) = i then updated else old ! k)) \<and>
    alerts (view (listing (action_end n (Inl e) st))) = old"
  using assms(3,4)
  by (simp add: action_end_views(1) [OF assms(1)] ack_outcome_def replace_alert_def)

text \<open>An acknowledgement of a listed alert that is answered with \<open>null\<close> takes the page away.\<close>

lemma null_acknowledgement_unmounts:
  "actions st ! n = Ack i \<Longrightarrow> a \<in> set (alerts (view (listing st))) \<Longrightarrow> al_id a = i \<Longrightarrow>
     \<not> mounted (listing (action_end n (Inr None) st))"
  by (auto simp: action_end_mounted null_listed_def list_ex_iff)

text \<open>With two acknowledgements under way, the end of the first one enables the button of
  the second one while its request is still outstanding: there is one indicator for all
  alerts, and the alert can be acknowledged again.\<close>

lemma first_end_enables_second_button:
  assumes "alerts_reachable st" and "mounted (listing st)" and "actions st = []"
    and "a \<in> set (alerts (view (listing st)))" and "al_status a = ''OPEN''"
    and "b \<in> set (alerts (view (listing st)))" and "al_status b = ''OPEN''" and "al_id a \<noteq> al_id b"
  shows "let st' = action_end 0 (Inl e) (acknowledge (al_id b) (acknowledge (al_id a) st)) in
    alerts_reachable st' \<and> actions st' = [Ack (al_id b)] \<and> b \<in> set (alerts (view (listing st'))) \<and>
    fst (the (ar_buttons (alert_row_of t agent (view (listing st')) b))) = False \<and>
    alerts_step st' (acknowledge (al_id b) st')"
proof -
  let ?st1 = "acknowledge (al_id a) st" and ?st2 = "acknowledge (al_id b) (acknowledge (al_id a) st)"
  let ?st3 = "action_end 0 (Inl e) ?st2"
  have idle: "ackingId (view (listing st)) = None"
    using indicators_reachable [OF assms(1)] assms(2,3) by (cases "ackingId (view (listing st))") (auto simp: indicators_ok_def)
  have views: "mounted (listing ?st2)" "mounted (listing ?st3)" "actions ?st2 = [Ack (al_id a), Ack (al_id b)]"
    "actions ?st3 = [Ack (al_id b)]" "ackingId (view (listing ?st1)) = Some (al_id a)" "mounted (listing ?st1)"
    "alerts (view (listing ?st1)) = alerts (view (listing st))"
    "alerts (view (listing ?st3)) = alerts (view (listing st))" "ackingId (view (listing ?st3)) = None"
    using assms(2,3) by (simp_all add: acknowledge_def on_view_def action_end_def ack_outcome_def null_listed_def Let_def)
  have "alerts_step st ?st1" using assms idle by (intro alerts_step.ack) simp_all
  moreover have "alerts_step ?st1 ?st2" using assms views by (intro alerts_step.ack) simp_all
  moreover have "alerts_step ?st2 ?st3" using views by (intro alerts_step.ended) simp
  ultimately have "alerts_reachable ?st3" using assms(1) by (meson alerts_reachable.step)
  moreover have "alerts_step ?st3 (acknowledge (al_id b) ?st3)"
    using assms views by (intro alerts_step.ack) simp_all
  ultimately show ?thesis using assms views by (simp add: alert_row_of_def Let_def)
qed

text \<open>The page of alerts and the dashboard of the agent agree on an alert exactly when it
  is open or acknowledged: the dashboard shows every other status, resolved ones too, as
  acknowledged.\<close>

lemma alert_views_agree_iff:
  "(alertStatusLabel (al_status a) t, alertStatusTone (al_status a)) =
     (case dashboard_alert t v a of (_, _, label, tone, _) \<Rightarrow> (label, tone)) \<longleftrightarrow>
   al_status a = ''OPEN'' \<or> al_status a = ''ACK''"
  by (auto simp: dashboard_alert_def alertStatusLabel_def alertStatusTone_def)

text \<open>A reachable state with two open alerts, for the closed instances.\<close>

definition open_alert :: "string \<Rightarrow> alert_record" where
  "open_alert i =
     \<lparr> al_id = i, al_agentId = ''a'', al_ruleId = ''cpu'', al_severity = ''warning'',
       al_status = ''OPEN'', al_firedAt = [], al_details = [] \<rparr>"

definition two_open :: alerts_state where
  "two_open = \<lparr> listing = poll_arrive useAlerts_list 0
     (Response 200 (Json [open_alert ''1'', open_alert ''2''])) (poll_mount useAlerts_list alerts_init None),
     actions = [] \<rparr>"

lemma two_open_reachable: "alerts_reachable two_open"
proof -
  let ?st = "\<lparr> listing = poll_mount useAlerts_list alerts_init None, actions = [] \<rparr>"
  have "poll_step useAlerts_list (\<lambda>_ _. True) (listing ?st) (listing two_open)"
    unfolding two_open_def alerts_state.simps
    by (rule poll_step.arrive) (simp_all add: hook_defs Let_def useAlerts_list_def)
  then have "alerts_step ?st (?st\<lparr> listing := listing two_open \<rparr>)" by (rule alerts_step.polled)
  moreover have "?st\<lparr> listing := listing two_open \<rparr> = two_open" by (simp add: two_open_def)
  ultimately show ?thesis using alerts_reachable.mounted alerts_reachable.step by metis
qed

lemma two_open_fields:
  "mounted (listing two_open)" "actions two_open = []"
  "alerts (view (listing two_open)) = [open_alert ''1'', open_alert ''2'']"
  by (simp_all add: two_open_def hook_defs Let_def useAlerts_list_def is_ok_def)

lemma first_end_enables_second_button_witness:
  "actions (action_end 0 (Inl (Fetch_Error [])) (acknowledge ''2'' (acknowledge ''1'' two_open))) = [Ack ''2'']"
  using first_end_enables_second_button [OF two_open_reachable two_open_fields(1,2),
      of "open_alert ''1''" "open_alert ''2''" "Fetch_Error []" "\<lambda>k. k" None]
  by (simp add: two_open_fields open_alert_def Let_def)

lemma one_acking:
  "alerts_reachable (acknowledge ''1'' two_open)" "mounted (listing (acknowledge ''1'' two_open))"
  "ackingId (view (listing (acknowledge ''1'' two_open))) = Some ''1''"
  "actions (acknowledge ''1'' two_open) = [Ack ''1'']"
  "alerts (view (listing (acknowledge ''1'' two_open))) = [open_alert ''1'', open_alert ''2'']"
proof -
  have "ackingId (view (listing two_open)) = None"
    by (simp add: two_open_def hook_defs Let_def useAlerts_list_def alerts_init_def)
  then have "alerts_step two_open (acknowledge (al_id (open_alert ''1'')) two_open)"
    by (intro alerts_step.ack) (simp_all add: two_open_fields open_alert_def)
  then show "alerts_reachable (acknowledge ''1'' two_open)"
    using two_open_reachable alerts_reachable.step by (fastforce simp: open_alert_def)
qed (simp_all add: acknowledge_def on_view_def two_open_fields)

theorem acking_ends_witness:
  "\<exists>n < length (actions (acknowledge ''1'' two_open)). actions (acknowledge ''1'' two_open) ! n = Ack ''1''"
  using acking_ends [OF one_acking(1-3)] by blast

lemma acknowledged_alert_replaced_witness:
  "map al_id (alerts (view (listing (action_end 0 (Inr (Some ((open_alert ''1'')\<lparr> al_status := ''ACK'' \<rparr>)))
     (acknowledge ''1'' two_open))))) = [''1'', ''2'']"
  using acknowledged_alert_replaced [OF one_acking(2), of 0 "''1''" "(open_alert ''1'')\<lparr> al_status := ''ACK'' \<rparr>"]
  by (simp add: one_acking(4,5) Let_def) (simp add: open_alert_def)

end
