(* ===== verification/HubViews.thy ===== *)
theory HubViews
  imports Alerts Diagnostics DashboardViews HistoryView Navigation
begin

text \<open>
  The pages of the hub: \<open>src/routes/hub/HubPage.tsx\<close> (the agents with search and
  filter), \<open>src/components/HubSidebarNav.tsx\<close>, \<open>src/routes/hub/HubAgentLayout.tsx\<close>
  (the frame of an agent, which switches to history when the agent is offline),
  \<open>HubAgentDashboard.tsx\<close>, and \<open>src/routes/diagnostics/DiagnosticsPage.tsx\<close> with
  \<open>src/api/useDiagnostics.ts\<close>.
\<close>

section \<open>The agents\<close>

text \<open>\<open>new Date(iso).getTime()\<close> may be \<open>NaN\<close>, which fails both comparisons and is then
  the count of hours.\<close>

definition relativeTime :: "date_parser \<Rightarrow> int \<Rightarrow> string \<Rightarrow> translate \<Rightarrow> string" where
  "relativeTime date now instant t =
     (case date instant of
        None \<Rightarrow> t ''time.ago.hours'' [(''count'', Number None)]
      | Some ms \<Rightarrow>
          (let sec = max 0 ((now - ms) div 1000); minutes = sec div 60 in
           if sec < 60 then t ''time.ago.seconds'' [(''count'', Number (Some (of_int sec)))]
           else if minutes < 60 then t ''time.ago.minutes'' [(''count'', Number (Some (of_int minutes)))]
           else t ''time.ago.hours'' [(''count'', Number (Some (of_int (minutes div 60))))]))"

definition hub_filter :: "string \<Rightarrow> agent_list_filter \<Rightarrow> agent_summary list \<Rightarrow> agent_summary list" where
  "hub_filter search f agents =
     (let q = to_lower (trim search) in
      filter (\<lambda>a.
        if \<not> matchesAgentFilter (a_status a) f then False
        else if q = [] then True
        else contains (to_lower (hostname a)) q \<or> contains (to_lower (agentId a)) q) agents)"

definition agent_mem_percent :: "agent_summary \<Rightarrow> rat" where
  "agent_mem_percent a =
     (if 0 < a_totalMemory a then of_int (a_usedMemory a) / of_int (a_totalMemory a) * 100 else 0)"

record agent_card =
  gc_link :: string
  gc_dimmed :: bool
  gc_hostname :: string
  gc_label :: string
  gc_tone :: tone
  gc_pulse :: bool
  gc_id :: string
  gc_seen :: string
  gc_cpu :: "string \<times> tone \<times> rat"
  gc_memory :: "string \<times> tone \<times> rat"
  gc_bytes :: string
  gc_containers :: int

definition agent_link :: "string \<Rightarrow> string" where
  "agent_link i = ''/hub/agents/'' @ encode_uri_component i"

definition agent_card_of :: "date_parser \<Rightarrow> int \<Rightarrow> translate \<Rightarrow> agent_summary \<Rightarrow> agent_card" where
  "agent_card_of date now t a =
     (let memPct = agent_mem_percent a in
      \<lparr> gc_link = agent_link (agentId a), gc_dimmed = isAgentOffline (a_status a),
        gc_hostname = hostname a, gc_label = agentStatusLabel (a_status a) (\<lambda>k. t k []),
        gc_tone = agentStatusTone (a_status a), gc_pulse = (a_status a = Some ''live''),
        gc_id = agentId a, gc_seen = relativeTime date now (lastSeen a) t,
        gc_cpu = (formatPercent (a_cpuLoad a), barTone (a_cpuLoad a), bar_width (a_cpuLoad a)),
        gc_memory = (formatPercent memPct, barTone memPct, bar_width memPct),
        gc_bytes = formatBytes (a_usedMemory a) @ '' / '' @ formatBytes (a_totalMemory a),
        gc_containers = containerCount a \<rparr>)"

text \<open>\<open>None\<close> is the message that no agent matches.\<close>

definition hub_page ::
  "date_parser \<Rightarrow> int \<Rightarrow> translate \<Rightarrow> string \<Rightarrow> agent_list_filter \<Rightarrow> agent_summary list \<Rightarrow>
   agent_card list option" where
  "hub_page date now t search f agents =
     (let filtered = hub_filter search f agents
      in if length filtered = 0 then None else Some (map (agent_card_of date now t) filtered))"

section \<open>The sidebar\<close>

definition agentViews :: "(string \<times> string \<times> bool) list" where
  "agentViews =
     [([], ''nav.dashboard'', True), (''processes'', ''nav.processes'', False),
      (''services'', ''nav.services'', False), (''containers'', ''nav.containers'', False),
      (''diagnostics'', ''nav.diagnostics'', False), (''alerts'', ''nav.alerts'', False)]"

record sidebar_agent =
  sa_link :: string
  sa_hostname :: string
  sa_active :: bool
  sa_offline :: bool
  sa_views :: "(string \<times> string) list"

definition sidebar_agent_of :: "string option \<Rightarrow> agent_summary \<Rightarrow> sidebar_agent" where
  "sidebar_agent_of activeAgentId a =
     (let base = agent_link (agentId a); isActive = (activeAgentId = Some (agentId a)) in
      \<lparr> sa_link = base, sa_hostname = hostname a, sa_active = isActive,
        sa_offline = isAgentOffline (a_status a),
        sa_views = (if isActive
          then map (\<lambda>(segment, key, exact). ((if segment \<noteq> [] then base @ ''/'' @ segment else base), key))
            agentViews
          else []) \<rparr>)"

definition hub_sidebar ::
  "(string \<Rightarrow> string \<Rightarrow> rat) \<Rightarrow> string option \<Rightarrow> agent_summary list \<Rightarrow> sidebar_agent list" where
  "hub_sidebar collate activeAgentId agents =
     map (sidebar_agent_of activeAgentId) (js_sort (\<lambda>a b. collate (hostname a) (hostname b)) agents)"

section \<open>The frame of an agent\<close>

definition layout_status :: "string option \<Rightarrow> agent_summary list \<Rightarrow> string option" where
  "layout_status agent agents =
     (case find (\<lambda>a. Some (agentId a) = agent) agents of None \<Rightarrow> None | Some a \<Rightarrow> a_status a)"

text \<open>
  The effect runs at mount and when the status changed. The frame is rendered again with
  every list of agents, and the user may use the switch in between; \<open>lt_status\<close> is the
  status of the last rendering, if there was one.
\<close>

record layout_state =
  lt_status :: "string option option"
  lt_view :: history_view

datatype layout_event = Rendered "string option" | Switched view_mode

fun layout_handle :: "layout_state \<Rightarrow> layout_event \<Rightarrow> layout_state" where
  "layout_handle st (Switched m) = st\<lparr> lt_view := setViewMode m (lt_view st) \<rparr>"
| "layout_handle st (Rendered s) =
     (if lt_status st = Some s then st
      else st\<lparr> lt_status := Some s,
        lt_view := (if isAgentOffline s then setViewMode History (lt_view st) else lt_view st) \<rparr>)"

definition layout_run :: "history_view \<Rightarrow> layout_event list \<Rightarrow> layout_state" where
  "layout_run hv evs = foldl layout_handle \<lparr> lt_status = None, lt_view = hv \<rparr> evs"

text \<open>What is rendered: the time of the last data for an offline agent, and the pages
  below with the agent's metrics as their context.\<close>

datatype agent_layout = Missing_Id | Agent_Frame "string option" metrics_context

definition hub_agent_layout ::
  "string option \<Rightarrow> agent_summary list \<Rightarrow> live_view \<Rightarrow> agent_layout" where
  "hub_agent_layout agent agents m =
     (if \<not> given agent then Missing_Id
      else Agent_Frame
        (if isAgentOffline (layout_status agent agents)
         then (case find (\<lambda>a. Some (agentId a) = agent) agents of
                 None \<Rightarrow> None
               | Some a \<Rightarrow> if lastSeen a \<noteq> [] then Some (lastSeen a) else None)
         else None)
        \<lparr> snapshot = lv_snapshot m, live = lv_live m, lastUpdate = lv_update m \<rparr>)"

text \<open>The dashboard of an agent has its alerts below, if there are any.\<close>

definition hub_agent_dashboard ::
  "translate \<Rightarrow> string \<Rightarrow> history_view \<Rightarrow> hist_state \<Rightarrow> metrics_context \<Rightarrow> alerts_view \<Rightarrow>
   dashboard_view \<times> (string \<times> string \<times> string \<times> tone \<times> bool option) list" where
  "hub_agent_dashboard t href hv st ctx v =
     (dashboard_page t href hv st ctx, dashboard_alerts (\<lambda>k. t k []) v)"

section \<open>Diagnostics\<close>

definition useDiagnostics ::
  "(string option, diagnostic_item list, diagnostic_item list reply) handlers" where
  "useDiagnostics =
     \<lparr> enabled = given, on_skip = \<lambda>_. [], on_start = \<lambda>v. v,
       on_reply = \<lambda>a r v.
         (case or_default [] (apiGet (agent_path a ''diagnostics'') r) of
            Inr data \<Rightarrow> data | Inl e \<Rightarrow> []),
       repeats = True \<rparr>"

datatype diagnostics_page =
    No_Agents
  | All_Diagnostics "(string \<times> string \<times> diagnostic_card list) list"
  | Single_Diagnostics "string option" "diagnostic_card list option"

text \<open>\<open>items\<close> gives the insights that the hook of each agent holds.\<close>

definition diagnostics_page_view ::
  "(diagnostic_item list \<Rightarrow> diagnostic_card list option) \<Rightarrow> string option \<Rightarrow> agent_summary list \<Rightarrow>
   (string \<Rightarrow> diagnostic_item list) \<Rightarrow> diagnostics_page" where
  "diagnostics_page_view panel agent agents items =
     (if given agent
      then Single_Diagnostics
        (map_option hostname (find (\<lambda>a. agentId a = the agent) agents))
        (if length (items (the agent)) = 0 then None else panel (items (the agent)))
      else if length agents = 0 then No_Agents
      else All_Diagnostics (concat (map (\<lambda>a.
        if length (items (agentId a)) = 0 then []
        else [(hostname a, agentId a, (case panel (items (agentId a)) of None \<Rightarrow> [] | Some cards \<Rightarrow> cards))]) agents)))"

section \<open>Facts\<close>

lemma filter_split_mset:
  "\<forall>x\<in>set xs. P x \<noteq> Q x \<Longrightarrow> mset xs = mset (filter P xs) + mset (filter Q xs)"
  by (induction xs) auto

lemma agent_link_base: "agent_link i = hub_base i"
  by (simp add: agent_link_def hub_base_def)

lemma agent_link_inject [simp]: "agent_link i = agent_link j \<longleftrightarrow> i = j"
  by (simp add: agent_link_def)

text \<open>The views of the sidebar are routes below the agent.\<close>

lemma sidebar_links:
  "map fst (sa_views (sidebar_agent_of act a)) =
     (if act = Some (agentId a) then map (\<lambda>v. agent_route_path (hub_base (agentId a)) (fst v)) agentViews else [])"
  by (auto simp: sidebar_agent_of_def Let_def agent_route_path_def useAgentHref_def given_def agent_link_base)

lemma sidebar_views_routed:
  "set (map fst (sa_views (sidebar_agent_of act a))) \<subseteq>
     agent_route_path (hub_base (agentId a)) ` fst ` set agent_routes"
proof -
  have "fst ` set agentViews \<subseteq> fst ` set agent_routes"
    by (simp add: agentViews_def agent_routes_def)
  then have "agent_route_path (hub_base (agentId a)) ` fst ` set agentViews \<subseteq>
      agent_route_path (hub_base (agentId a)) ` fst ` set agent_routes" by (rule image_mono)
  then show ?thesis unfolding sidebar_links by (auto simp: image_image)
qed

lemma div_unit:
  assumes "0 < (u :: int)"
  shows "x div u * u \<le> x \<and> x < (x div u + 1) * u"
proof -
  have "x = x div u * u + x mod u" by simp
  moreover have "0 \<le> x mod u" "x mod u < u" using assms by simp_all
  moreover have "(x div u + 1) * u = x div u * u + u" by (simp add: distrib_right)
  ultimately show ?thesis by linarith
qed

section \<open>Properties\<close>

text \<open>Under the statuses the server computes, the filters of the hub partition the
  agents: with the same search, every agent of the full list is in exactly one of the
  live and the offline list, and the cards link to different places.\<close>

lemma hub_filters_partition:
  assumes "\<forall>a\<in>set agents. a_status a \<in> {Some ''live'', Some ''stale'', Some ''offline''}"
    and "distinct (map agentId agents)"
  shows "mset (hub_filter search All_Agents agents) =
      mset (hub_filter search Live_Agents agents) + mset (hub_filter search Offline_Agents agents) \<and>
    distinct (map (\<lambda>a. gc_link (agent_card_of date now t a)) (hub_filter search All_Agents agents))"
proof
  let ?all = "hub_filter search All_Agents agents"
  have sub: "hub_filter search f agents = filter (\<lambda>a. matchesAgentFilter (a_status a) f) ?all" for f
    by (auto simp: hub_filter_def Let_def intro!: filter_cong)
  have "\<forall>a\<in>set ?all. matchesAgentFilter (a_status a) Live_Agents \<noteq> matchesAgentFilter (a_status a) Offline_Agents"
  proof
    fix a
    assume "a \<in> set ?all"
    then have "a \<in> set agents" by (simp add: hub_filter_def Let_def)
    with assms(1) have "a_status a \<in> {Some ''live'', Some ''stale'', Some ''offline''}" by blast
    then show "matchesAgentFilter (a_status a) Live_Agents \<noteq> matchesAgentFilter (a_status a) Offline_Agents"
      by (auto simp: isAgentOffline_def)
  qed
  then show "mset ?all = mset (hub_filter search Live_Agents agents) + mset (hub_filter search Offline_Agents agents)"
    unfolding sub [of Live_Agents] sub [of Offline_Agents] by (rule filter_split_mset)
  have "distinct (map agentId ?all)"
    using assms(2) by (simp add: hub_filter_def Let_def distinct_map_filter)
  then show "distinct (map (\<lambda>a. gc_link (agent_card_of date now t a)) ?all)"
    by (simp add: agent_card_of_def Let_def distinct_map inj_on_def)
qed

text \<open>The time since the last data is right: the count of the unit that is printed is
  the number of whole units that have passed, and seconds and minutes are used below
  sixty of them only.\<close>

lemma relativeTime_denotes:
  assumes "date instant = Some ms" and "ms \<le> now"
  shows "\<exists>key n u. relativeTime date now instant t = t key [(''count'', Number (Some (of_int n)))] \<and>
    (key, u) \<in> {(''time.ago.seconds'', 1000), (''time.ago.minutes'', 60000), (''time.ago.hours'', 3600000)} \<and>
    0 \<le> n \<and> n * u \<le> now - ms \<and> now - ms < (n + 1) * u \<and> (u = 3600000 \<or> n < 60)"
proof -
  let ?d = "now - ms"
  let ?s = "?d div 1000"
  have d: "0 \<le> ?d" using assms(2) by simp
  then have s: "0 \<le> ?s" "max 0 ?s = ?s" by simp_all
  have m: "?s div 60 = ?d div 60000" and h: "?d div 60000 div 60 = ?d div 3600000"
    using zdiv_zmult2_eq [of 60 ?d 1000] zdiv_zmult2_eq [of 60 ?d 60000] by simp_all
  have result: ?thesis
    if "(key, u) \<in> {(''time.ago.seconds'', 1000), (''time.ago.minutes'', 60000), (''time.ago.hours'', 3600000)}"
      and "relativeTime date now instant t = t key [(''count'', Number (Some (of_int (?d div u))))]"
      and "u = 3600000 \<or> ?d div u < 60" for key u
  proof (intro exI conjI)
    have u: "0 < u" using that(1) by auto
    show "0 \<le> ?d div u" using d u by (simp add: pos_imp_zdiv_nonneg_iff)
    show "?d div u * u \<le> ?d" "?d < (?d div u + 1) * u" using div_unit [OF u] by simp_all
  qed (use that in blast)+
  have time: "relativeTime date now instant t =
      (if ?s < 60 then t ''time.ago.seconds'' [(''count'', Number (Some (of_int ?s)))]
       else if ?d div 60000 < 60 then t ''time.ago.minutes'' [(''count'', Number (Some (of_int (?d div 60000))))]
       else t ''time.ago.hours'' [(''count'', Number (Some (of_int (?d div 3600000))))])"
    unfolding relativeTime_def assms(1) option.case s(2) Let_def h m ..
  consider "?s < 60" | "\<not> ?s < 60" "?d div 60000 < 60" | "\<not> ?s < 60" "\<not> ?d div 60000 < 60" by blast
  then show ?thesis
  proof cases
    case 1
    then show ?thesis by (intro result [of "''time.ago.seconds''" 1000]) (simp_all add: time)
  next
    case 2
    then show ?thesis by (intro result [of "''time.ago.minutes''" 60000]) (simp_all add: time)
  next
    case 3
    then show ?thesis by (intro result [of "''time.ago.hours''" 3600000]) (simp_all add: time)
  qed
qed

text \<open>An offline agent takes the application to the history mode, and nothing but the
  user takes it back: whatever agents are visited and however their statuses change, the
  mode is history as soon as one of them was offline or stale, also on an agent that is
  live.\<close>

lemma offline_history_sticks:
  "viewMode (lt_view (layout_run hv (map Rendered statuses))) =
     (if list_ex isAgentOffline statuses then History else viewMode hv) \<and>
   timeRange (lt_view (layout_run hv (map Rendered statuses))) = timeRange hv"
proof -
  have "viewMode (lt_view (foldl layout_handle st (map Rendered statuses))) =
     (if list_ex isAgentOffline statuses then History else viewMode (lt_view st)) \<and>
    timeRange (lt_view (foldl layout_handle st (map Rendered statuses))) = timeRange (lt_view st)"
    if "\<forall>s. lt_status st = Some s \<and> isAgentOffline s \<longrightarrow> viewMode (lt_view st) = History" for st
    using that by (induction statuses arbitrary: st) (auto simp: setViewMode_def)
  from this [of "\<lparr> lt_status = None, lt_view = hv \<rparr>"] show ?thesis by (simp add: layout_run_def)
qed

text \<open>The sidebar lists every agent once, ordered by its host name, under a link of its
  own; it unfolds exactly the agent whose pages are open, and everything it links to is
  a route of the application.\<close>

lemma sidebar_correct:
  assumes "comparator_on UNIV collate" and "distinct (map agentId agents)"
  shows "let r = hub_sidebar collate act agents in
    mset (map sa_link r) = mset (map (agent_link \<circ> agentId) agents) \<and> distinct (map sa_link r) \<and>
    sorted_wrt (\<lambda>a b. collate (sa_hostname a) (sa_hostname b) \<le> 0) r \<and>
    (\<forall>e\<in>set r. (sa_views e \<noteq> []) = sa_active e \<and>
      (\<exists>a\<in>set agents. sa_active e = (act = Some (agentId a)) \<and>
        set (map fst (sa_views e)) \<subseteq> agent_route_path (hub_base (agentId a)) ` fst ` set agent_routes))"
proof -
  let ?cmp = "\<lambda>a b. collate (hostname a) (hostname b)"
  let ?sorted = "js_sort ?cmp agents"
  have links: "map sa_link (map (sidebar_agent_of act) xs) = map (agent_link \<circ> agentId) xs" for xs
    by (simp add: sidebar_agent_of_def Let_def)
  have same: "mset (map (agent_link \<circ> agentId) ?sorted) = mset (map (agent_link \<circ> agentId) agents)"
    by (simp only: mset_map mset_js_sort)
  have "distinct (map (agent_link \<circ> agentId) agents)"
    using assms(2) by (simp add: distinct_map inj_on_def)
  with same have dist: "distinct (map (agent_link \<circ> agentId) ?sorted)"
    by (metis mset_eq_imp_distinct_iff)
  have "sorted_by ?cmp ?sorted"
    using comparator_on.sorted_js_sort [OF comparator_on.pulled_back [OF assms(1), of hostname UNIV]] by simp
  then have ordered: "sorted_wrt (\<lambda>a b. collate (sa_hostname a) (sa_hostname b) \<le> 0) (map (sidebar_agent_of act) ?sorted)"
    by (simp add: sorted_by_def sorted_wrt_map sidebar_agent_of_def Let_def)
  have entry: "(sa_views (sidebar_agent_of act a) \<noteq> []) = sa_active (sidebar_agent_of act a) \<and>
      sa_active (sidebar_agent_of act a) = (act = Some (agentId a))" for a
    by (simp add: sidebar_agent_of_def Let_def agentViews_def)
  have r: "hub_sidebar collate act agents = map (sidebar_agent_of act) ?sorted"
    by (simp add: hub_sidebar_def)
  show ?thesis
    unfolding Let_def r links
  proof (intro conjI ballI)
    fix e
    assume "e \<in> set (map (sidebar_agent_of act) ?sorted)"
    then obtain a where a: "a \<in> set agents" and e: "e = sidebar_agent_of act a" by auto
    show "(sa_views e \<noteq> []) = sa_active e" using entry [of a] by (simp only: e)
    show "\<exists>a\<in>set agents. sa_active e = (act = Some (agentId a)) \<and>
        set (map fst (sa_views e)) \<subseteq> agent_route_path (hub_base (agentId a)) ` fst ` set agent_routes"
      unfolding e using a entry sidebar_views_routed by blast
  qed (rule same dist ordered)+
qed

text \<open>The insights of a previous agent can replace those of the one that is shown: the
  replies are not told apart, and the panel has them until the next poll.\<close>

lemma previous_agent_insights:
  assumes "given (Some a)" and "given (Some b)" and "a \<noteq> b"
  shows "\<exists>st. poll_reachable useDiagnostics (truthful server) [] st \<and>
    mounted st \<and> dep st = Some b \<and> inflight st = [] \<and> view st = server a"
proof -
  let ?h = "useDiagnostics" and ?r = "\<lambda>a. Response 200 (Json (server a))"
  let ?st = "overtaken ?h [] (Some a) (?r a) (Some b) (?r b)"
  have on: "enabled ?h (Some a)" "enabled ?h (Some b)" using assms by (simp_all add: useDiagnostics_def)
  have "poll_reachable ?h (truthful server) [] ?st"
    using on assms by (intro overtaken_reachable) (simp_all add: truthful_def)
  moreover have "on_reply ?h (Some a) (?r a) v = server a" for v
    by (simp add: useDiagnostics_def is_ok_def)
  then have "view ?st = server a" by (simp only: overtaken_state(4) [OF on])
  ultimately show ?thesis
    using overtaken_state(1-3) [OF on, of "[]" "?r a" "?r b"] by blast
qed

section \<open>Closed instances\<close>

definition sample_agent :: "string \<Rightarrow> string \<Rightarrow> agent_summary" where
  "sample_agent i s =
     \<lparr> agentId = i, hostname = i, firstSeen = None, lastSeen = [], a_status = Some s,
       a_cpuLoad = 0, a_usedMemory = 0, a_totalMemory = 0, containerCount = 0 \<rparr>"

lemma hub_filters_partition_witness:
  "mset (hub_filter [] All_Agents [sample_agent ''a'' ''live'', sample_agent ''b'' ''stale'']) =
     mset (hub_filter [] Live_Agents [sample_agent ''a'' ''live'', sample_agent ''b'' ''stale'']) +
     mset (hub_filter [] Offline_Agents [sample_agent ''a'' ''live'', sample_agent ''b'' ''stale''])"
  using hub_filters_partition [of "[sample_agent ''a'' ''live'', sample_agent ''b'' ''stale'']" "[]"]
  by (simp add: sample_agent_def)

lemma relativeTime_denotes_witness:
  "\<exists>key n u. relativeTime (\<lambda>_. Some 0) 90000 [] (\<lambda>k _. k) = key \<and> n * u \<le> (90000 :: int) \<and> 90000 < (n + 1) * u"
  using relativeTime_denotes [of "\<lambda>_. Some 0" "[]" 0 90000 "\<lambda>k _. k"] by (simp del: insert_iff) blast

lemma sidebar_correct_witness:
  "distinct (map sa_link (hub_sidebar (\<lambda>_ _. 0) (Some ''a'') [sample_agent ''a'' ''live'', sample_agent ''b'' ''stale'']))"
  using sidebar_correct [of "\<lambda>_ _. 0" "[sample_agent ''a'' ''live'', sample_agent ''b'' ''stale'']" "Some ''a''"]
  by (simp add: Let_def comparator_on_def sample_agent_def)

lemma previous_agent_insights_witness:
  "\<exists>st. poll_reachable useDiagnostics (truthful (\<lambda>i. [sample_insight i])) [] st \<and>
     dep st = Some ''b'' \<and> view st = [sample_insight ''a'']"
  using previous_agent_insights [of "''a''" "''b''" "\<lambda>i. [sample_insight i]"] by (auto simp: given_def)

end
