(* ===== verification/PageFrames.thy ===== *)
theory PageFrames
  imports SplitViews ContainerViews AlertConfig HubViews
begin

text \<open>
  The frames around the pages: the two screens of
  \<open>src/routes/containers/ContainersPage.tsx\<close>, the tab bar of
  \<open>src/routes/container-metrics/ContainerMetricsPage.tsx\<close>, the fields of
  \<open>src/routes/hub/HubAlertSettings.tsx\<close>, the header of \<open>src/app/AppShell.tsx\<close> and the
  class names of the links of \<open>src/components/HubSidebarNav.tsx\<close>.
\<close>

section \<open>The containers page\<close>

datatype container_pane =
    Container_Master search_input nat "container_row list"
  | Container_No_Match search_input nat string
  | Container_Detail container_info bool   \<comment> \<open>with a way back\<close>
  | Pick_Container string

text \<open>What a narrow and what a wide window shows; both are rendered.\<close>

record containers_screen =
  cn_narrow :: container_pane
  cn_wide :: "container_pane markup"

definition containersWorkbench ::
  "(string \<Rightarrow> string) \<Rightarrow> metrics_context \<Rightarrow> containers_state \<Rightarrow> containers_screen option" where
  "containersWorkbench t ctx st =
     map_option (\<lambda>(rows, sel).
       (let inp = searchInput (cs_search st) (t ''containers.search'') None;
            master = (if rows = [] then Container_No_Match inp (length rows) (t ''containers.noMatch'')
              else Container_Master inp (length rows) rows);
            detail = (case sel of Some c \<Rightarrow> Container_Detail c (cs_mobileDetail st)
              | None \<Rightarrow> Pick_Container (t ''containers.detail.pick''))
        in \<lparr> cn_narrow = (if cs_mobileDetail st \<and> sel \<noteq> None then detail else master),
             cn_wide = masterDetailLayout Page_Surface Ratio_55_45 master detail \<rparr>))
       (containers_workbench ctx st)"

definition closeMobileDetail :: "containers_state \<Rightarrow> containers_state" where
  "closeMobileDetail st = st\<lparr> cs_mobileDetail := False \<rparr>"

definition containersPage ::
  "(string \<Rightarrow> string) \<Rightarrow> date_parser \<Rightarrow> history_view \<Rightarrow> hist_state \<Rightarrow> selection \<Rightarrow> metrics_context \<Rightarrow>
   containers_state \<Rightarrow> containers_screen option page_view" where
  "containersPage t date hv st sel ctx cst =
     workbench_page Page_Surface (Some (t ''containers.pageTitle'')) date hv st sel ctx
       (\<lambda>c. containersWorkbench t c cst)"

section \<open>The tabs of a container\<close>

definition metrics_tabs :: "(string \<Rightarrow> string) \<Rightarrow> string \<Rightarrow> (string, string) pill_tabs" where
  "metrics_tabs t tab =
     pillTabs [(''overview'', t ''containers.detail.overview''), (''processes'', t ''section.processes''),
       (''services'', t ''section.services'')] tab"

definition metrics_variant :: "string \<Rightarrow> page_variant" where
  "metrics_variant tab = (if tab = ''processes'' \<or> tab = ''services'' then Workbench_Variant else Scroll_Variant)"

section \<open>The fields of the thresholds editor\<close>

text \<open>Label, least and greatest value and step of a field.\<close>

fun field_hints :: "config_field \<Rightarrow> string \<times> rat \<times> rat \<times> rat" where
  "field_hints Cpu_Percent = (''hub.settings.cpuPercent'', 1, 100, 1)"
| "field_hints Memory_Percent = (''hub.settings.memoryPercent'', 1, 100, 1)"
| "field_hints Disk_Percent = (''hub.settings.diskPercent'', 1, 100, 1)"
| "field_hints Cooldown_Minutes = (''hub.settings.cooldownMinutes'', 1, 1440, 1)"
| "field_hints Stale_Multiplier = (''hub.settings.staleMultiplier'', 1, 10, 1 / 2)"
| "field_hints Cpu_Spike_Min = (''hub.settings.cpuSpikeMinPercent'', 1, 100, 1)"
| "field_hints Memory_Pressure = (''hub.settings.memoryPressurePercent'', 1, 100, 1)"
| "field_hints Disk_Filling = (''hub.settings.diskFillingPercent'', 1, 100, 1)"
| "field_hints Restart_Count = (''hub.settings.containerRestartCount'', 1, 100, 1)"

definition settings_fields :: "(string \<Rightarrow> string) \<Rightarrow> settings_view \<Rightarrow> (config_field \<times> number_field) list" where
  "settings_fields t v =
     map (\<lambda>f. case field_hints f of (key, low, high, inc) \<Rightarrow>
       (f, \<lparr> nf_label = t key, nf_value = get_field f (sv_values v), nf_min = low, nf_max = high,
             nf_step = inc, nf_disabled = (\<not> sv_edit v) \<rparr>)) all_fields"

text \<open>\<open>onChange\<close> of a field. The element never reports a text that is no number.\<close>

definition field_input :: "config_field \<Rightarrow> string \<Rightarrow> settings \<Rightarrow> settings" where
  "field_input f entered st = (case number_change entered of None \<Rightarrow> st | Some v \<Rightarrow> patch f v st)"

section \<open>The header\<close>

record app_header =
  ah_search :: search_input
  ah_toggle :: "(view_mode, string) pill_tabs option"
  ah_locales :: "(string \<times> bool) list"
  ah_live :: live_indicator

definition appHeader ::
  "(string \<Rightarrow> string) \<Rightarrow> (int \<Rightarrow> string \<Rightarrow> string) \<Rightarrow> string \<Rightarrow> string \<Rightarrow> shell \<Rightarrow> string \<Rightarrow> history_view \<Rightarrow>
   locale_state \<Rightarrow> string \<Rightarrow> app_header" where
  "appHeader t locale_time dash shortcut s pathname hv lc globalSearch =
     \<lparr> ah_search = searchInput globalSearch (t ''app.search'') (Some shortcut),
       ah_toggle = (if isHistoryCapableRoute pathname then Some (liveHistoryToggle t hv) else None),
       ah_locales = locale_buttons lc,
       ah_live = liveIndicator t locale_time dash (lc_language lc) (sh_live s) (sh_update s) \<rparr>"

section \<open>Class names of the sidebar\<close>

definition linkClass :: "bool \<Rightarrow> string \<Rightarrow> string" where
  "linkClass isActive extra =
     ''block w-full truncate py-1.5 pl-1 pr-2 rounded-md text-sm '' @ extra @ '' '' @
     (if isActive then ''bg-primary-container/30 text-primary font-medium''
      else ''text-on-surface-variant hover:bg-surface-high'')"

definition treeBranch :: "'a list \<Rightarrow> 'a markup" where
  "treeBranch xs = div_of ''ml-3 border-l border-outline-variant/30 pl-3 flex flex-col gap-0.5'' (map Slot xs)"

definition treeLeaf :: "'a list \<Rightarrow> 'a markup" where
  "treeLeaf xs = div_of ''ml-3 border-l border-outline-variant/30 pl-3 flex flex-col gap-0.5'' (map Slot xs)"

section \<open>Properties\<close>

text \<open>On a narrow window a click on a container of the list opens its detail, with a way
  back that leads to the list with its row marked; a wide window shows both at any time.\<close>

lemma narrow_window_navigation:
  assumes "snapshot ctx = Some s" and "distinct (map c_id (containers (payload s)))"
    and "c \<in> set (filter_containers (cs_search st) (containers (payload s)))"
  shows "let opened = selectContainer False (c_id c) st; closed = closeMobileDetail opened in
    \<exists>master master' scr scr'. containersWorkbench t ctx opened = Some scr \<and> containersWorkbench t ctx closed = Some scr' \<and>
      cn_narrow scr = Container_Detail c True \<and> cn_narrow scr' = master' \<and>
      slots (cn_wide scr) = [master, Container_Detail c True] \<and>
      slots (cn_wide scr') = [master', Container_Detail c False] \<and>
      (\<exists>inp n rows. master' = Container_Master inp n rows \<and> n = length rows \<and>
         map cr_selected rows = map (\<lambda>x. x = c) (filter_containers (cs_search st) (containers (payload s))))"
proof -
  let ?cs = "filter_containers (cs_search st) (containers (payload s))"
  have sub: "set ?cs \<subseteq> set (containers (payload s))" by (auto simp: filter_containers_def Let_def)
  have inj: "inj_on c_id (set (containers (payload s)))" using assms(2) by (simp add: distinct_map)
  have "find (\<lambda>x. c_id x = c_id c) ?cs = Some c" by (rule find_key_subset [OF inj sub assms(3)])
  then have sel: "selected_container (Some (c_id c)) ?cs = Some c" by (simp add: selected_container_def)
  have "x = c" if "x \<in> set ?cs" "c_id c = c_id x" for x
    using that assms(3) inj sub by (metis inj_onD subsetD)
  then have marks: "map (\<lambda>x. c_id c = c_id x) ?cs = map (\<lambda>x. x = c) ?cs" by auto
  have rows: "?cs \<noteq> []" using assms(3) by auto
  show ?thesis
    using marks rows
    by (simp add: containersWorkbench_def containers_workbench_def selectContainer_def closeMobileDetail_def
        assms(1) sel Let_def masterDetailLayout_panes comp_def containerRow_def)
qed

text \<open>The tab bar of a container's page agrees with what is below it: with data of the
  container, the content is that of the one marked tab. A tab name that is none of the
  three, which the query may hold, marks no tab, puts the marker on the overview and
  leaves the page empty.\<close>

lemma tab_bar_matches_content:
  assumes "container_metrics_page date t test_base back_base base ps host own = Metrics_Page p" and "cv_snapshot own \<noteq> None"
  shows "let bar = metrics_tabs label (mp_tab p) in
    case filter tb_active (pt_buttons bar) of
      [] \<Rightarrow> mp_content p = Content_Nothing \<and> pt_marker bar = 0
    | [b] \<Rightarrow> (tb_id b = ''overview'' \<and> (\<exists>v. mp_content p = Content_Overview v)) \<or>
        (tb_id b = ''processes'' \<and> (\<exists>v. mp_content p = Content_Processes v)) \<or>
        (tb_id b = ''services'' \<and> (\<exists>v. mp_content p = Content_Services v))
    | _ \<Rightarrow> False"
proof -
  have "mp_content p = metrics_tab_content date t own (mp_tab p)"
    using assms(1) by (auto simp: container_metrics_page_def Let_def split: if_splits option.splits)
  then show ?thesis
    using assms(2)
    by (auto simp: metrics_tab_content_def own_context_def metrics_tabs_def pillTabs_def Let_def)
qed

lemma field_input_step:
  "\<not> loading st \<Longrightarrow> editor_open st \<Longrightarrow> number_change entered = Some v \<Longrightarrow>
     settings_step st (field_input f entered st)"
  by (simp add: field_input_def settings_step.edited)

text \<open>The limits of the fields are hints only: whatever integer is typed into whichever
  field, also one below the least or above the greatest value the field states, and zero
  for an emptied one, a click on save sends it, with the other fields unchanged.\<close>

lemma limits_not_enforced:
  "(\<exists>st c. settings_reachable st \<and> pending st = Some c \<and>
     (\<forall>g. get_field g c = (if g = f then of_int n else get_field g alert_defaults))) \<and>
   (\<exists>st c. settings_reachable st \<and> pending st = Some c \<and> get_field f c = 0 \<and> 0 < fst (snd (field_hints f)))"
proof -
  let ?loaded = "load_reply (Network_Failure ''x'') settings_mount"
  have typed: "\<exists>st. settings_reachable st \<and> pending st = Some (set_field f v alert_defaults)"
    if "number_change entered = Some v" for entered v
  proof -
    let ?run = "save_begin (field_input f entered (handleOpen ?loaded))"
    have "settings_reachable ?loaded"
      by (rule settings_reachable.step [OF settings_reachable.mounted settings_step.loaded])
         (simp add: settings_mount_def)
    then have "settings_reachable (handleOpen ?loaded)"
      by (rule settings_reachable.step [OF _ settings_step.opened]) (simp_all add: hook_defs)
    then have "settings_reachable (field_input f entered (handleOpen ?loaded))"
      by (rule settings_reachable.step [OF _ field_input_step]) (simp_all add: hook_defs that)
    then have "settings_reachable ?run"
      by (rule settings_reachable.step [OF _ settings_step.clicked])
         (simp_all add: hook_defs field_input_def that)
    then show ?thesis
      by (intro exI [of _ ?run]) (simp add: field_input_def that hook_defs)
  qed
  have "\<exists>st c. settings_reachable st \<and> pending st = Some c \<and>
     (\<forall>g. get_field g c = (if g = f then of_int n else get_field g alert_defaults))"
    using typed [of "show_int n" "of_int n"] by (auto simp: number_change_def js_number_show_int get_set_field)
  moreover have "\<exists>st c. settings_reachable st \<and> pending st = Some c \<and> get_field f c = 0 \<and> 0 < fst (snd (field_hints f))"
    using typed [of "[]" 0] by (cases f) (auto simp: number_change_def get_set_field)
  ultimately show ?thesis by (rule conjI)
qed

text \<open>Every field of the configuration is rendered once and shows its value.\<close>

lemma settings_fields_complete:
  "map fst (settings_fields t v) = all_fields"
  "(f, nf) \<in> set (settings_fields t v) \<Longrightarrow> nf_value nf = get_field f (sv_values v) \<and> nf_disabled nf = (\<not> sv_edit v)"
  by (auto simp: settings_fields_def comp_def split_beta)

lemma header_toggle: "ah_toggle (appHeader t lt dash k s p hv lc g) \<noteq> None \<longleftrightarrow> isHistoryCapableRoute p"
  by (simp add: appHeader_def)

lemma narrow_window_navigation_witness:
  "\<exists>scr. containersWorkbench (\<lambda>k. k) (host_with compose_pair)
      (selectContainer False ''2'' (containers_init [])) = Some scr \<and>
    cn_narrow scr = Container_Detail (sample_container ''2'' ''db'' ''none'') True"
proof -
  let ?c = "sample_container ''2'' ''db'' ''none''"
  have "filter_containers (cs_search (containers_init [])) compose_pair = compose_pair"
    by (simp add: filter_containers_def containers_init_def Let_def trim_def to_lower_def)
  then have "?c \<in> set (filter_containers (cs_search (containers_init [])) (containers (payload (the (snapshot (host_with compose_pair))))))"
    by (simp add: compose_pair_def host_with_def)
  moreover have "c_id ?c = ''2''" "distinct (map c_id compose_pair)"
    by (simp_all add: compose_pair_def sample_container_def)
  ultimately show ?thesis
    using narrow_window_navigation [of "host_with compose_pair" "the (snapshot (host_with compose_pair))" ?c
        "containers_init []" "\<lambda>k. k"]
    by (fastforce simp: host_with_def Let_def)
qed

lemma tab_bar_matches_content_witness:
  "\<exists>p. container_metrics_page parse_iso (\<lambda>k _. k) [] [] [] [(''id'', ''1''), (''tab'', ''logs'')] (host_with agent_pair)
      (container_init\<lparr> cv_snapshot := Some (snapshot_at ''x'') \<rparr>) = Metrics_Page p \<and>
    mp_content p = Content_Nothing \<and> pt_marker (metrics_tabs (\<lambda>k. k) (mp_tab p)) = 0"
proof -
  let ?own = "container_init\<lparr> cv_snapshot := Some (snapshot_at ''x'') \<rparr>" and ?ps = "[(''id'', ''1''), (''tab'', ''logs'')]"
  have "find (same_container ''1'') agent_pair = Some (hd agent_pair)" "isAgentContainer (hd agent_pair)"
    "\<not> useIsHubAgentContext []" by code_simp+
  then obtain p where p: "container_metrics_page parse_iso (\<lambda>k _. k) [] [] [] ?ps (host_with agent_pair) ?own = Metrics_Page p"
    and tab: "mp_tab p = ''logs''"
    by (simp add: container_metrics_page_def page_id_def page_tab_def host_with_def Let_def)
  have "filter tb_active (pt_buttons (metrics_tabs (\<lambda>k. k) ''logs'')) = []"
    by (simp add: metrics_tabs_def pillTabs_def)
  then have "mp_content p = Content_Nothing \<and> pt_marker (metrics_tabs (\<lambda>k. k) (mp_tab p)) = 0"
    using tab_bar_matches_content [OF p, of "\<lambda>k. k"] by (simp add: tab Let_def)
  with p show ?thesis by blast
qed

end
