(* ===== verification/Requests.thy ===== *)
theory Requests
  imports HistoryHook Alerts AlertConfig JsQuery
begin

text \<open>
  What the requests of the client address. \<open>requested\<close> collects the paths that the hooks of
  \<open>src/api\<close> hand to \<open>fetch\<close>, each under the guard of its hook; \<open>well_formed_path\<close> says that
  a text is an absolute path with at most one query, made of the characters that a URL may
  contain, every percent sign with its two hexadecimal digits. \<open>url_segments\<close> is what
  \<open>fetch\<close> makes of the path: the segments before the query, of which the parser of URLs
  removes the ones that mean the current and the parent directory, also when they are
  spelled with percent-encoded dots.
\<close>

section \<open>Well-formed paths\<close>

definition url_char :: "char \<Rightarrow> bool" where
  "url_char c = (unreserved c \<or> c \<in> set ''%/?&=+'')"

fun percent_ok :: "string \<Rightarrow> bool" where
  "percent_ok [] = True"
| "percent_ok (c # cs) =
     ((c = CHR ''%'' \<longrightarrow> hex_byte cs \<noteq> None) \<and> percent_ok cs)"

definition well_formed_path :: "string \<Rightarrow> bool" where
  "well_formed_path p =
     (starts_with p ''/api/'' \<and> list_all url_char p \<and> percent_ok p \<and>
      length (filter (\<lambda>c. c = CHR ''?'') p) \<le> 1)"

section \<open>What the hooks request\<close>

inductive requested :: "string \<Rightarrow> bool" where
  meta: "requested ''/api/meta''"
| current: "requested ''/api/metrics/current''"
| hub_config: "requested ''/api/v1/hub/config''"
| agents: "requested ''/api/v1/agents''"
| load_config: "requested ''/api/v1/hub/alert-config''"
| save_config: "requested (req_path (save_request st))"
| container: "given c \<Longrightarrow> requested (container_path c)"
| agent: "given a \<Longrightarrow> requested (agent_path a ''current'')"
| diagnostics: "given a \<Longrightarrow> requested (agent_path a ''diagnostics'')"
| history: "d_enabled d \<Longrightarrow> requested (history_path now d)"
| alerts: "requested (alerts_path a)"
| ack: "requested (req_path (ack_request i))"
| silence: "requested (req_path (silence_request al minutes))"

section \<open>What a path addresses\<close>

definition single_dots :: "string list" where
  "single_dots = [''.'', ''%2e'', ''%2E'']"

definition double_dots :: "string list" where
  "double_dots = concat (map (\<lambda>a. map ((@) a) single_dots) single_dots)"

text \<open>A last segment of this kind leaves an empty one.\<close>

fun resolve_dots :: "string list \<Rightarrow> string list \<Rightarrow> string list" where
  "resolve_dots acc [] = acc"
| "resolve_dots acc (s # ss) =
     (if s \<in> set double_dots then resolve_dots (butlast acc @ (if ss = [] then [[]] else [])) ss
      else if s \<in> set single_dots then resolve_dots (acc @ (if ss = [] then [[]] else [])) ss
      else resolve_dots (acc @ [s]) ss)"

definition path_pieces :: "string \<Rightarrow> string list" where
  "path_pieces p = split_on (\<lambda>c. c = CHR ''/'') (drop 1 (takeWhile (\<lambda>c. c \<notin> set ''?#'') p))"

definition url_segments :: "string \<Rightarrow> string list" where
  "url_segments p = resolve_dots [] (path_pieces p)"

text \<open>The resource named \<open>s\<close> of a collection.\<close>

definition below :: "string list \<Rightarrow> string \<Rightarrow> string list \<Rightarrow> string list" where
  "below pre s rest =
     (if s = ''..'' then butlast pre @ rest else if s = ''.'' then pre @ rest
      else pre @ encode_uri_component s # rest)"

section \<open>Facts\<close>

lemma percent_ok_append: "percent_ok s \<Longrightarrow> percent_ok r \<Longrightarrow> percent_ok (s @ r)"
proof (induction s)
  case (Cons c s)
  then show ?case by (auto simp: hex_byte_def split: list.splits)
qed simp

lemma percent_ok_plain: "CHR ''%'' \<notin> set s \<Longrightarrow> percent_ok s"
  by (induction s) auto

lemma hex_digit_not_percent: "n < 16 \<Longrightarrow> hex_digit n \<noteq> CHR ''%''"
  using hex_digit_alnum [of n] percent_not_unreserved by (auto simp: unreserved_def)

lemma percent_ok_percent: "b < 256 \<Longrightarrow> percent_ok (percent b)"
  by (simp add: percent_def hex_byte_def hex_value_digit hex_digit_not_percent)

lemma percent_ok_percents: "\<forall>b\<in>set bs. b < 256 \<Longrightarrow> percent_ok (concat (map percent bs))"
  by (induction bs) (simp_all add: percent_ok_append percent_ok_percent)

lemma percent_ok_encode: "percent_ok (encode_uri_component s)"
proof (induction s)
  case (Cons c s)
  have "percent_ok (encode_char c)"
    using plain_chars [of c] by (simp add: encode_char_def percent_ok_percents char_bytes_less)
  with Cons show ?case by (simp add: encode_Cons percent_ok_append)
qed simp

lemma percent_ok_form: "percent_ok (form_encode s)"
proof -
  have "percent_ok (form_char c)" for c
    using plain_chars [of c]
    by (auto simp: form_char_def unreserved_def percent_ok_percents char_bytes_less)
  then show ?thesis by (induction s) (simp_all add: form_encode_def percent_ok_append)
qed

lemma encode_part:
  "list_all url_char (encode_uri_component s)"
  "filter (\<lambda>c. c = CHR ''?'') (encode_uri_component s) = []"
  using encode_safe [of _ s] encode_no_delimiter [of s]
  by (auto simp: list_all_iff url_char_def filter_empty_conv)

lemma form_part:
  "list_all url_char (form_encode s)"
  "filter (\<lambda>c. c = CHR ''?'') (form_encode s) = []"
  using form_char_safe form_encode_no_delimiter [of s]
  by (fastforce simp: list_all_iff url_char_def form_encode_def filter_empty_conv)+

lemma url_char_query: "url_char (CHR ''='')" "url_char (CHR ''&'')"
  by (simp_all add: url_char_def)

lemma params_part:
  "list_all url_char (params_to_string ps)"
  "filter (\<lambda>c. c = CHR ''?'') (params_to_string ps) = []"
  "percent_ok (params_to_string ps)"
proof -
  have "list_all url_char (params_to_string ps) \<and> filter (\<lambda>c. c = CHR ''?'') (params_to_string ps) = [] \<and>
      percent_ok (params_to_string ps)"
  proof (induction ps rule: induct_list012)
    case 1
    then show ?case by (simp add: params_to_string_def)
  next
    case (2 p)
    then show ?case
      by (simp add: params_to_string_def split_beta form_part url_char_query percent_ok_form percent_ok_append)
  next
    case (3 p q ps)
    then show ?case
      by (simp add: params_to_string_def split_beta form_part url_char_query percent_ok_form percent_ok_append)
  qed
  then show "list_all url_char (params_to_string ps)" "percent_ok (params_to_string ps)"
    "filter (\<lambda>c. c = CHR ''?'') (params_to_string ps) = []" by blast+
qed

lemma url_char_plain: "is_alnum c \<or> c \<in> set ''-/?=&'' \<Longrightarrow> url_char c"
  by (auto simp: url_char_def unreserved_def)

lemmas request_paths = agent_path_def container_path_def alerts_path_def ack_request_def silence_request_def
  save_request_def post_request_def put_request_def history_path_def

lemma dots_decoded: "w \<in> set single_dots \<Longrightarrow> form_decode w = Some ''.''" "w \<in> set double_dots \<Longrightarrow> form_decode w = Some ''..''"
proof -
  have "\<forall>w\<in>set single_dots. form_decode w = Some ''.''" by code_simp
  then show "w \<in> set single_dots \<Longrightarrow> form_decode w = Some ''.''" by blast
  have "\<forall>w\<in>set double_dots. form_decode w = Some ''..''" by code_simp
  then show "w \<in> set double_dots \<Longrightarrow> form_decode w = Some ''..''" by blast
qed

lemma encoded_dots:
  "encode_uri_component s \<in> set single_dots \<longleftrightarrow> s = ''.''"
  "encode_uri_component s \<in> set double_dots \<longleftrightarrow> s = ''..''"
proof -
  have "encode_uri_component ''.'' \<in> set single_dots" "encode_uri_component ''..'' \<in> set double_dots" by code_simp+
  then show "encode_uri_component s \<in> set single_dots \<longleftrightarrow> s = ''.''"
    "encode_uri_component s \<in> set double_dots \<longleftrightarrow> s = ''..''"
    using dots_decoded [of "encode_uri_component s"] by auto
qed

definition plain_segment :: "string \<Rightarrow> bool" where
  "plain_segment s = (s \<notin> set single_dots \<and> s \<notin> set double_dots)"

lemma resolve_plain: "list_all plain_segment xs \<Longrightarrow> resolve_dots acc (xs @ ys) = resolve_dots (acc @ xs) ys"
  by (induction xs arbitrary: acc) (simp_all add: plain_segment_def)

lemma resolve_below:
  assumes "list_all plain_segment pre" and "list_all plain_segment rest" and "rest \<noteq> []"
  shows "resolve_dots [] (pre @ encode_uri_component s # rest) = below pre s rest"
proof -
  have tl: "resolve_dots acc rest = acc @ rest" for acc
    using resolve_plain [OF assms(2), of acc "[]"] by simp
  have "''..'' \<noteq> (''.'' :: string)" by simp
  then show ?thesis
    by (simp add: resolve_plain [OF assms(1)] tl encoded_dots assms(3) below_def)
qed

lemma path_encoded:
  "takeWhile (\<lambda>c. c \<noteq> CHR ''?'' \<and> c \<noteq> CHR ''#'') (encode_uri_component s @ r) =
     encode_uri_component s @ takeWhile (\<lambda>c. c \<noteq> CHR ''?'' \<and> c \<noteq> CHR ''#'') r"
  using encode_no_delimiter [of s] by (intro takeWhile_append2) auto

lemma split_encoded:
  "split_on (\<lambda>c. c = CHR ''/'') (encode_uri_component s @ CHR ''/'' # r) =
     encode_uri_component s # split_on (\<lambda>c. c = CHR ''/'') r"
proof -
  have "split_on (\<lambda>c. c = CHR ''/'') (encode_uri_component s) = [encode_uri_component s]"
    using encode_no_delimiter [of s] by (intro split_on_no_sep) auto
  then show ?thesis by (simp add: split_on_append_sep)
qed

lemma plain_literal: "s \<in> set [''api'', ''v1'', ''agents'', ''alerts'', ''containers'', ''metrics'', ''current'', ''diagnostics'', ''history'', ''ack''] \<Longrightarrow> plain_segment s"
proof -
  have "\<forall>s\<in>set [''api'', ''v1'', ''agents'', ''alerts'', ''containers'', ''metrics'', ''current'', ''diagnostics'', ''history'', ''ack'']. plain_segment s"
    by code_simp
  then show "s \<in> set [''api'', ''v1'', ''agents'', ''alerts'', ''containers'', ''metrics'', ''current'', ''diagnostics'', ''history'', ''ack''] \<Longrightarrow> plain_segment s" by blast
qed

lemma segments_below:
  assumes "path_pieces p = pre @ encode_uri_component s # rest"
    and "list_all plain_segment pre" and "list_all plain_segment rest" and "rest \<noteq> []"
  shows "url_segments p = below pre s rest"
  using resolve_below [OF assms(2-4)] by (simp add: url_segments_def assms(1))

lemmas pieces = path_pieces_def request_paths path_encoded split_encoded

text \<open>The segments of a request about \<open>a\<close>: slashes and question marks of the identifier
  stay inside of its segment, but the encoding leaves dots alone.\<close>

lemma request_segments:
  "url_segments (agent_path (Some a) ''current'') = below [''api'', ''v1'', ''agents''] a [''current'']"
  "url_segments (agent_path (Some a) ''diagnostics'') = below [''api'', ''v1'', ''agents''] a [''diagnostics'']"
  "url_segments (container_path (Some a)) = below [''api'', ''containers''] a [''metrics'', ''current'']"
  "url_segments (req_path (ack_request a)) = below [''api'', ''v1'', ''alerts''] a [''ack'']"
  "a \<noteq> [] \<Longrightarrow> url_segments (history_path now \<lparr> d_enabled = True, d_range = r, d_hub = True, d_agent = Some a \<rparr>) =
     below [''api'', ''v1'', ''agents''] a [''history'']"
  by (rule segments_below; simp add: pieces plain_literal uses_hub_def split_beta Let_def)+

section \<open>Properties\<close>

text \<open>C21: every path that a hook requests is well formed, whatever the identifiers and the
  instants in it are: an absolute path below \<open>/api/\<close> with at most one query.\<close>

theorem requests_well_formed:
  assumes "requested p"
  shows "well_formed_path p"
  using assms
  by cases (simp_all add: request_paths well_formed_path_def encode_part params_part url_char_plain
      is_alnum_def char_code_def percent_ok_append percent_ok_encode split_beta Let_def)

theorem requests_well_formed_witness: "well_formed_path (agent_path (Some ''a b?/'') ''current'')"
  using requests_well_formed [OF requested.agent [of "Some ''a b?/''"]] by (simp add: given_def)

end
