(* ===== verification/ServerRoutes.thy ===== *)
theory ServerRoutes
  imports Requests
begin

text \<open>
  How the server reads the paths of the requests: the handlers for containers, agents and
  alerts of \<open>src/go/internal/web/server.go\<close> up to the point where they know which resource
  is meant, and the table that selects them. Go's texts are byte strings, here lists of
  characters read as bytes; \<open>r.URL.Path\<close> is the path after \<open>net/url\<close> has replaced the
  percent signs, and the handlers split it at slashes afterwards. The multiplexer redirects
  paths with empty or dot segments first; that is not modelled, and changes no identifier
  that a handler finds into one with a slash.
\<close>

section \<open>Texts of Go\<close>

text \<open>\<open>url.PathUnescape\<close>; \<open>None\<close> is the error for which the request is rejected.\<close>

function go_unescape :: "string \<Rightarrow> string option" where
  "go_unescape [] = Some []"
| "go_unescape (c # cs) =
     (if c = CHR ''%''
      then (case hex_byte cs of
              Some b \<Rightarrow> map_option ((#) (char_of b)) (go_unescape (drop 2 cs))
            | None \<Rightarrow> None)
      else map_option ((#) c) (go_unescape cs))"
  by pat_completeness auto
termination by (relation "measure length") auto

declare go_unescape.simps(2) [simp del]

text \<open>\<open>strings.TrimPrefix\<close>, \<open>strings.Trim\<close> and \<open>strings.Split\<close> with a slash.\<close>

definition trim_prefix :: "string \<Rightarrow> string \<Rightarrow> string" where
  "trim_prefix s p = (if starts_with s p then drop (length p) s else s)"

definition trim_slashes :: "string \<Rightarrow> string" where
  "trim_slashes s = (let drop_slashes = dropWhile (\<lambda>c. c = CHR ''/'') in rev (drop_slashes (rev (drop_slashes s))))"

definition split_slashes :: "string \<Rightarrow> string list" where
  "split_slashes s = split_on (\<lambda>c. c = CHR ''/'') s"

text \<open>The bytes of a text.\<close>

definition utf8 :: "string \<Rightarrow> string" where
  "utf8 s = map char_of (concat (map (\<lambda>c. utf8_bytes (char_code c)) s))"

section \<open>The handlers\<close>

text \<open>The resource a handler goes on with, with the identifier it found.\<close>

datatype resource =
    Container_Of string | Current_Of string | History_Of string | Diagnostics_Of string
  | Alerts_List | Alert_Silence | Alert_Silences | Alert_Ack string
  | Not_Found | Other_Handler

definition handleContainerMetrics :: "string \<Rightarrow> resource" where
  "handleContainerMetrics url_path =
     (let parts = split_slashes (trim_prefix url_path ''/api/containers/'') in
      if length parts < 3 \<or> parts ! 1 \<noteq> ''metrics'' \<or> parts ! 2 \<noteq> ''current'' then Not_Found
      else Container_Of (parts ! 0))"

definition handleAgentRoutes :: "string \<Rightarrow> resource" where
  "handleAgentRoutes url_path =
     (let parts = split_slashes (trim_prefix url_path ''/api/v1/agents/''); agentID = parts ! 0 in
      if agentID = [] \<or> length parts < 2 then Not_Found
      else if parts ! 1 = ''current'' then Current_Of agentID
      else if parts ! 1 = ''history'' then History_Of agentID
      else if parts ! 1 = ''diagnostics'' then Diagnostics_Of agentID
      else Not_Found)"

definition handleAlertRoutes :: "string \<Rightarrow> resource" where
  "handleAlertRoutes url_path =
     (let path = trim_slashes (trim_prefix url_path ''/api/v1/alerts'') in
      if path = [] then Alerts_List
      else let parts = split_slashes path in
        if length parts = 1 \<and> parts ! 0 = ''silence'' then Alert_Silence
        else if length parts = 1 \<and> parts ! 0 = ''silences'' then Alert_Silences
        else if length parts = 2 \<and> parts ! 1 = ''ack'' then Alert_Ack (parts ! 0)
        else Not_Found)"

text \<open>The table of handlers: a pattern that ends with a slash stands for all paths below it.\<close>

definition go_handler :: "string \<Rightarrow> resource" where
  "go_handler url_path =
     (if starts_with url_path ''/api/containers/'' then handleContainerMetrics url_path
      else if starts_with url_path ''/api/v1/agents/'' then handleAgentRoutes url_path
      else if url_path = ''/api/v1/alerts'' \<or> starts_with url_path ''/api/v1/alerts/''
      then handleAlertRoutes url_path
      else Other_Handler)"

text \<open>What a path that is given to \<open>fetch\<close> leads to.\<close>

definition segments_served :: "string list \<Rightarrow> resource" where
  "segments_served segs =
     (case go_unescape (''/'' @ join ''/'' segs) of None \<Rightarrow> Not_Found | Some url_path \<Rightarrow> go_handler url_path)"

definition serve :: "string \<Rightarrow> resource" where
  "serve p = segments_served (url_segments p)"

section \<open>Facts\<close>

lemma go_unescape_plain: "CHR ''%'' \<notin> set s \<Longrightarrow> go_unescape (s @ r) = map_option ((@) s) (go_unescape r)"
  by (induction s; cases "go_unescape r") (auto simp: go_unescape.simps(2))

lemma go_unescape_percent: "b < 256 \<Longrightarrow> go_unescape (percent b @ r) = map_option ((#) (char_of b)) (go_unescape r)"
  by (simp add: percent_def hex_byte_def hex_value_digit go_unescape.simps(2))

lemma go_unescape_percents:
  "\<forall>b\<in>set bs. b < 256 \<Longrightarrow>
     go_unescape (concat (map percent bs) @ r) = map_option ((@) (map char_of bs)) (go_unescape r)"
  by (induction bs; cases "go_unescape r") (simp_all add: go_unescape_percent)

lemma unreserved_byte: "unreserved c \<Longrightarrow> char_code c < 128"
  by (auto simp: unreserved_def is_alnum_def char_code_def Let_def)

lemma utf8_Cons: "utf8 (c # s) = map char_of (utf8_bytes (char_code c)) @ utf8 s"
  by (simp add: utf8_def)

text \<open>The server gets the bytes of what was encoded.\<close>

lemma go_unescape_encoded:
  "go_unescape (encode_uri_component s @ r) = map_option ((@) (utf8 s)) (go_unescape r)"
proof (induction s)
  case Nil
  show ?case by (cases "go_unescape r") (simp_all add: utf8_def)
next
  case (Cons c s)
  have "go_unescape (encode_char c @ q) = map_option ((@) (map char_of (utf8_bytes (char_code c)))) (go_unescape q)" for q
  proof (cases "unreserved c")
    case True
    have "char_of (char_code c) = c" by (simp add: char_code_def)
    then show ?thesis
      using True plain_chars [OF True] unreserved_byte [OF True]
      by (cases "go_unescape q") (simp_all add: encode_char_def utf8_bytes_def go_unescape.simps(2))
  next
    case False
    then show ?thesis by (simp add: encode_char_def go_unescape_percents char_bytes_less)
  qed
  with Cons show ?case by (simp add: encode_Cons utf8_Cons option.map_comp o_def)
qed

lemma utf8_slash: "CHR ''/'' \<in> set (utf8 s) \<longleftrightarrow> CHR ''/'' \<in> set s"
proof (induction s)
  case (Cons c s)
  have "CHR ''/'' \<in> set (map char_of (utf8_bytes (char_code c))) \<longleftrightarrow> c = CHR ''/''"
  proof (cases "char_code c < 128")
    case True
    have "char_of (char_code c) = c" by (simp add: char_code_def)
    with True show ?thesis by (auto simp: utf8_bytes_def)
  next
    case False
    have "char_code (CHR ''/'') = 47" by (simp add: char_code_def)
    moreover have "(char_of b :: char) = CHR ''/'' \<Longrightarrow> b < 256 \<Longrightarrow> b = 47" for b :: nat
      using char_code_char_of [of b] by (metis \<open>char_code (CHR ''/'') = 47\<close>)
    moreover have "128 + char_code c mod 64 < 256" "192 + char_code c div 64 < 256"
      using char_code_less_256 [of c] by linarith+
    ultimately show ?thesis using False by (fastforce simp: utf8_bytes_def)
  qed
  with Cons show ?case by (auto simp: utf8_Cons)
qed (simp add: utf8_def)

lemma utf8_Nil_iff [simp]: "utf8 s = [] \<longleftrightarrow> s = []"
  by (cases s) (auto simp: utf8_def utf8_bytes_def)

text \<open>The decoded path of a request that keeps its segment.\<close>

lemma decoded_paths:
  "go_unescape (''/'' @ join ''/'' ([''api'', ''v1'', ''agents''] @ encode_uri_component s # [leaf])) =
     map_option (\<lambda>l. ''/api/v1/agents/'' @ utf8 s @ ''/'' @ l) (go_unescape leaf)"
  "go_unescape (''/'' @ join ''/'' ([''api'', ''containers''] @ encode_uri_component s # [''metrics'', ''current''])) =
     Some (''/api/containers/'' @ utf8 s @ ''/metrics/current'')"
  "go_unescape (''/'' @ join ''/'' ([''api'', ''v1'', ''alerts''] @ encode_uri_component s # [''ack''])) =
     Some (''/api/v1/alerts/'' @ utf8 s @ ''/ack'')"
  by (simp_all add: go_unescape.simps(2) go_unescape_encoded option.map_comp o_def)

lemma split_leaf:
  "split_slashes (s @ ''/'' @ r) = split_slashes s @ split_slashes r"
  by (simp add: split_slashes_def split_on_append_sep)

lemma split_plain: "CHR ''/'' \<notin> set s \<Longrightarrow> split_slashes s = [s]"
  unfolding split_slashes_def by (rule split_on_no_sep) auto

lemma split_parts: "i < length (split_slashes s) \<Longrightarrow> CHR ''/'' \<notin> set (split_slashes s ! i)"
  unfolding split_slashes_def using split_on_pieces [of _ "\<lambda>c. c = CHR ''/''" s] by (metis nth_mem)

lemma split_not_Nil [simp]: "split_slashes s \<noteq> []" "0 < length (split_slashes s)"
  by (simp_all add: split_slashes_def)

text \<open>No handler finds an identifier with a slash.\<close>

lemma no_slash_found:
  "go_handler p \<in> {Container_Of x, Current_Of x, History_Of x, Diagnostics_Of x, Alert_Ack x} \<Longrightarrow> CHR ''/'' \<notin> set x"
  using split_parts [of 0]
  by (auto simp: go_handler_def handleContainerMetrics_def handleAgentRoutes_def handleAlertRoutes_def Let_def
      split: if_splits)

lemma segments_no_slash:
  "segments_served segs \<in> {Container_Of x, Current_Of x, History_Of x, Diagnostics_Of x, Alert_Ack x} \<Longrightarrow>
     CHR ''/'' \<notin> set x"
  unfolding segments_served_def using no_slash_found by (cases "go_unescape (''/'' @ join ''/'' segs)") auto

text \<open>An identifier without slashes is found.\<close>

lemma agent_found:
  assumes "s \<noteq> []" and "CHR ''/'' \<notin> set s"
  shows "go_handler (''/api/v1/agents/'' @ s @ ''/'' @ leaf) =
    (if hd (split_slashes leaf) = ''current'' then Current_Of s else if hd (split_slashes leaf) = ''history'' then History_Of s
     else if hd (split_slashes leaf) = ''diagnostics'' then Diagnostics_Of s else Not_Found)"
proof -
  have "starts_with (''/api/v1/agents/'' @ r) ''/api/v1/agents/''" "\<not> starts_with (''/api/v1/agents/'' @ r) ''/api/containers/''"
    for r by simp_all
  moreover have "split_slashes (s @ ''/'' @ leaf) = s # split_slashes leaf"
    using split_leaf [of s leaf] split_plain [OF assms(2)] by simp
  ultimately show ?thesis
    using assms(1) by (simp add: go_handler_def handleAgentRoutes_def trim_prefix_def hd_conv_nth Let_def)
qed

lemma container_found:
  assumes "CHR ''/'' \<notin> set s"
  shows "go_handler (''/api/containers/'' @ s @ ''/metrics/current'') = Container_Of s"
proof -
  have "split_slashes (s @ ''/metrics/current'') = [s, ''metrics'', ''current'']"
    using split_leaf [of s "''metrics/current''"] split_leaf [of "''metrics''" "''current''"] split_plain [OF assms]
      split_plain [of "''metrics''"] split_plain [of "''current''"] by simp
  then show ?thesis by (simp add: go_handler_def handleContainerMetrics_def trim_prefix_def Let_def)
qed

lemma alert_found:
  assumes "s \<noteq> []" and "CHR ''/'' \<notin> set s"
  shows "go_handler (''/api/v1/alerts/'' @ s @ ''/ack'') = Alert_Ack s"
proof -
  have "split_slashes (s @ ''/ack'') = [s, ''ack'']"
    using split_leaf [of s "''ack''"] split_plain [OF assms(2)] split_plain [of "''ack''"] by simp
  moreover have "trim_slashes (''/'' @ s @ ''/ack'') = s @ ''/ack''"
    using assms by (cases s) (auto simp: trim_slashes_def Let_def)
  ultimately show ?thesis
    by (simp add: go_handler_def handleAlertRoutes_def trim_prefix_def Let_def)
qed

text \<open>What becomes of a request with an identifier in its place.\<close>

definition reaches :: "string list \<Rightarrow> string list \<Rightarrow> (string \<Rightarrow> resource) \<Rightarrow> bool" where
  "reaches pre rest kind \<longleftrightarrow>
     (\<forall>a. a \<noteq> [] \<longrightarrow> (segments_served (below pre a rest) = kind (utf8 a)) =
        (CHR ''/'' \<notin> set a \<and> a \<noteq> ''.'' \<and> a \<noteq> ''..''))"

lemma reachesD:
  "reaches pre rest kind \<Longrightarrow> a \<noteq> [] \<Longrightarrow> (segments_served (below pre a rest) = kind (utf8 a)) =
     (CHR ''/'' \<notin> set a \<and> a \<noteq> ''.'' \<and> a \<noteq> ''..'')"
  by (simp add: reaches_def)

lemma reachesI:
  assumes "kind \<in> {Container_Of, Current_Of, History_Of, Diagnostics_Of, Alert_Ack}"
    and "\<And>s. s \<noteq> [] \<Longrightarrow> CHR ''/'' \<notin> set (utf8 s) \<Longrightarrow>
      map_option go_handler (go_unescape (''/'' @ join ''/'' (pre @ encode_uri_component s # rest))) = Some (kind (utf8 s))"
    and "segments_served (pre @ rest) \<noteq> kind (utf8 ''.'')" and "segments_served (butlast pre @ rest) \<noteq> kind (utf8 ''..'')"
  shows "reaches pre rest kind"
  unfolding reaches_def
proof (intro allI impI)
  fix a :: string
  assume a: "a \<noteq> []"
  have "CHR ''/'' \<notin> set (utf8 a)" if "segments_served (below pre a rest) = kind (utf8 a)"
    using segments_no_slash [of "below pre a rest" "utf8 a"] that assms(1) by auto
  moreover have "segments_served (pre @ encode_uri_component a # rest) = kind (utf8 a)" if "CHR ''/'' \<notin> set (utf8 a)"
    using assms(2) [OF a that] by (auto simp: segments_served_def)
  ultimately show "(segments_served (below pre a rest) = kind (utf8 a)) = (CHR ''/'' \<notin> set a \<and> a \<noteq> ''.'' \<and> a \<noteq> ''..'')"
    using assms(3,4) by (auto simp: below_def utf8_slash)
qed

lemma leaves:
  "go_unescape ''current'' = Some ''current''" "go_unescape ''diagnostics'' = Some ''diagnostics''"
  "go_unescape ''history'' = Some ''history''" "hd (split_slashes ''current'') = ''current''"
  "hd (split_slashes ''diagnostics'') = ''diagnostics''" "hd (split_slashes ''history'') = ''history''"
  by code_simp+

lemma request_reaches:
  "reaches [''api'', ''v1'', ''agents''] [''current''] Current_Of"
  "reaches [''api'', ''v1'', ''agents''] [''diagnostics''] Diagnostics_Of"
  "reaches [''api'', ''v1'', ''agents''] [''history''] History_Of"
  "reaches [''api'', ''containers''] [''metrics'', ''current''] Container_Of"
  "reaches [''api'', ''v1'', ''alerts''] [''ack''] Alert_Ack"
proof -
  have "segments_served ([''api'', ''v1'', ''agents''] @ [''current'']) \<noteq> Current_Of (utf8 ''.'')"
    "segments_served (butlast [''api'', ''v1'', ''agents''] @ [''current'']) \<noteq> Current_Of (utf8 ''..'')" by code_simp+
  then show "reaches [''api'', ''v1'', ''agents''] [''current''] Current_Of"
    by (intro reachesI) (simp_all only: decoded_paths leaves option.map agent_found utf8_Nil_iff not_False_eq_True, simp_all)
  have "segments_served ([''api'', ''v1'', ''agents''] @ [''diagnostics'']) \<noteq> Diagnostics_Of (utf8 ''.'')"
    "segments_served (butlast [''api'', ''v1'', ''agents''] @ [''diagnostics'']) \<noteq> Diagnostics_Of (utf8 ''..'')" by code_simp+
  then show "reaches [''api'', ''v1'', ''agents''] [''diagnostics''] Diagnostics_Of"
    by (intro reachesI) (simp_all only: decoded_paths leaves option.map agent_found utf8_Nil_iff not_False_eq_True, simp_all)
  have "segments_served ([''api'', ''v1'', ''agents''] @ [''history'']) \<noteq> History_Of (utf8 ''.'')"
    "segments_served (butlast [''api'', ''v1'', ''agents''] @ [''history'']) \<noteq> History_Of (utf8 ''..'')" by code_simp+
  then show "reaches [''api'', ''v1'', ''agents''] [''history''] History_Of"
    by (intro reachesI) (simp_all only: decoded_paths leaves option.map agent_found utf8_Nil_iff not_False_eq_True, simp_all)
  have "segments_served ([''api'', ''containers''] @ [''metrics'', ''current'']) \<noteq> Container_Of (utf8 ''.'')"
    "segments_served (butlast [''api'', ''containers''] @ [''metrics'', ''current'']) \<noteq> Container_Of (utf8 ''..'')" by code_simp+
  then show "reaches [''api'', ''containers''] [''metrics'', ''current''] Container_Of"
    by (intro reachesI) (simp_all only: decoded_paths option.map container_found not_False_eq_True, simp_all)
  have "segments_served ([''api'', ''v1'', ''alerts''] @ [''ack'']) \<noteq> Alert_Ack (utf8 ''.'')"
    "segments_served (butlast [''api'', ''v1'', ''alerts''] @ [''ack'']) \<noteq> Alert_Ack (utf8 ''..'')" by code_simp+
  then show "reaches [''api'', ''v1'', ''alerts''] [''ack''] Alert_Ack"
    by (intro reachesI) (simp_all only: decoded_paths option.map alert_found utf8_Nil_iff not_False_eq_True, simp_all)
qed

section \<open>Properties\<close>

text \<open>C22: a request reaches the resource of the identifier it was made for exactly when the
  identifier is none of the two names of directories and has no slash: question marks, percent
  signs and all other characters survive the encoding, the parsing of the URL and the reading
  of the server, but the server splits the path after decoding it, so that an identifier with
  a slash is cut, and the parser removes \<open>.\<close> and \<open>..\<close>.\<close>

theorem requests_reach_resource:
  assumes "a \<noteq> []"
  shows "let whole = (CHR ''/'' \<notin> set a \<and> a \<noteq> ''.'' \<and> a \<noteq> ''..'') in
    (serve (agent_path (Some a) ''current'') = Current_Of (utf8 a) \<longleftrightarrow> whole) \<and>
    (serve (agent_path (Some a) ''diagnostics'') = Diagnostics_Of (utf8 a) \<longleftrightarrow> whole) \<and>
    (serve (history_path now \<lparr> d_enabled = True, d_range = r, d_hub = True, d_agent = Some a \<rparr>) = History_Of (utf8 a) \<longleftrightarrow> whole) \<and>
    (serve (container_path (Some a)) = Container_Of (utf8 a) \<longleftrightarrow> whole) \<and>
    (serve (req_path (ack_request a)) = Alert_Ack (utf8 a) \<longleftrightarrow> whole)"
  unfolding serve_def request_segments(1-4) request_segments(5) [OF assms] Let_def
  by (intro conjI reachesD [OF _ assms] request_reaches)

theorem requests_reach_resource_witness:
  "serve (agent_path (Some ''a b?'') ''current'') = Current_Of ''a b?'' \<and>
     serve (agent_path (Some ''a/b'') ''current'') \<noteq> Current_Of ''a/b''"
proof -
  have "utf8 ''a b?'' = ''a b?''" "utf8 ''a/b'' = ''a/b''" by code_simp+
  then show ?thesis
    using requests_reach_resource [of "''a b?''"] requests_reach_resource [of "''a/b''"] by (simp add: Let_def)
qed

end
