(* ===== verification/HubScreens.thy ===== *)
theory HubScreens
  imports PageFrames ServerRoutes
begin

text \<open>
  The screens of the hub as they are composed from the components: the table of
  \<open>src/routes/alerts/AlertsPage.tsx\<close> with what its buttons do, the panel of
  \<open>src/routes/hub/HubAlertSettings.tsx\<close>, the page of \<open>src/routes/hub/HubPage.tsx\<close> with its
  search, panel and tabs, and the tree of \<open>src/components/HubSidebarNav.tsx\<close> with its links.
\<close>

section \<open>The table of alerts\<close>

datatype alert_click = Click_Ack string | Click_Silence alert_record int

record alert_button =
  ab_label :: string
  ab_disabled :: bool
  ab_click :: alert_click

datatype alert_cell = Text_Cell string | Pill_Cell string tone | Buttons_Cell "alert_button list" | Dash_Cell

definition alerts_header :: "(string \<Rightarrow> string) \<Rightarrow> string option \<Rightarrow> string list" where
  "alerts_header t agent =
     (if given agent then [] else [t ''alerts.agent'']) @
     [t ''alerts.rule'', t ''alerts.severity'', t ''alerts.status'', t ''alerts.firedAt'', t ''alerts.actions'']"

definition alert_buttons :: "(string \<Rightarrow> string) \<Rightarrow> alerts_view \<Rightarrow> alert_record \<Rightarrow> alert_button list" where
  "alert_buttons t v a =
     (let acking = (ackingId v = Some (al_id a)); silencing = (silencingKey v = Some (silence_key a)) in
      [\<lparr> ab_label = (if acking then t ''alerts.acking'' else t ''alerts.ack''),
         ab_disabled = acking, ab_click = Click_Ack (al_id a) \<rparr>,
       \<lparr> ab_label = (if silencing then t ''alerts.silencing''
           else t ''alerts.silence'' @ '' ('' @ t ''alerts.silence1h'' @ '')''),
         ab_disabled = silencing, ab_click = Click_Silence a 60 \<rparr>,
       \<lparr> ab_label = t ''alerts.silence24h'', ab_disabled = silencing, ab_click = Click_Silence a (24 * 60) \<rparr>])"

definition alert_cells ::
  "(string \<Rightarrow> string) \<Rightarrow> string option \<Rightarrow> alerts_view \<Rightarrow> alert_record \<Rightarrow> alert_cell list" where
  "alert_cells t agent v a =
     (if given agent then [] else [Text_Cell (al_agentId a)]) @
     [Text_Cell (al_ruleId a), Text_Cell (al_severity a),
      Pill_Cell (alertStatusLabel (al_status a) t) (alertStatusTone (al_status a)),
      Text_Cell (al_firedAt a),
      (if al_status a = ''OPEN'' then Buttons_Cell (alert_buttons t v a) else Dash_Cell)]"

datatype alerts_body = No_Alerts string | Alerts_Table "string list" "(string \<times> alert_cell list) list"

record alerts_screen =
  as_title :: string
  as_agent :: "(string \<times> string) option"
  as_body :: alerts_body

text \<open>A row has the identifier of its alert as its key.\<close>

definition alertsPage ::
  "(string \<Rightarrow> string) \<Rightarrow> string option \<Rightarrow> agent_summary list \<Rightarrow> alerts_view \<Rightarrow> alerts_screen" where
  "alertsPage t agent agents v =
     \<lparr> as_title = t ''nav.alerts'',
       as_agent = (if given agent
         then map_option (\<lambda>a. (hostname a, the agent)) (find (\<lambda>a. Some (agentId a) = agent) agents) else None),
       as_body = (if length (alerts v) = 0 then No_Alerts (t ''alerts.empty'')
         else Alerts_Table (alerts_header t agent) (map (\<lambda>a. (al_id a, alert_cells t agent v a)) (alerts v))) \<rparr>"

text \<open>What a click does to the hook, and the path it requests.\<close>

fun alert_press :: "alert_click \<Rightarrow> alerts_state \<Rightarrow> alerts_state" where
  "alert_press (Click_Ack i) st = acknowledge i st"
| "alert_press (Click_Silence a minutes) st = silence a st"

fun press_path :: "alert_click \<Rightarrow> string" where
  "press_path (Click_Ack i) = req_path (ack_request i)"
| "press_path (Click_Silence a minutes) = req_path (silence_request a minutes)"

text \<open>The action that is under way from the click to its end.\<close>

fun click_action :: "alert_click \<Rightarrow> alert_action" where
  "click_action (Click_Ack i) = Ack i"
| "click_action (Click_Silence a minutes) = Silence (silence_key a)"

section \<open>The panel of the thresholds\<close>

record settings_panel =
  sp_heading :: "string \<times> string"
  sp_buttons :: "(string \<times> bool) list"
  sp_message :: "string option"
  sp_success :: "string option"
  sp_fields :: "(config_field \<times> number_field) list"
  sp_more :: "string \<times> bool \<times> (config_field \<times> number_field) list"

text \<open>\<open>Inl\<close> is the message while loading. The last four fields are in a part that is unfolded
  with the editor.\<close>

definition hubAlertSettings :: "(string \<Rightarrow> string) \<Rightarrow> settings \<Rightarrow> string + settings_panel" where
  "hubAlertSettings t st =
     (case view_settings st of
        None \<Rightarrow> Inl (t ''hub.settings.loading'')
      | Some v \<Rightarrow> Inr
          \<lparr> sp_heading = (t ''hub.settings.title'', t ''hub.settings.subtitle''),
            sp_buttons = (if \<not> sv_edit v then [(t ''hub.settings.edit'', False)]
              else [(t ''hub.settings.cancel'', False),
                    (if saving st then t ''hub.settings.saving'' else t ''hub.settings.save'', sv_save_disabled v)]),
            sp_message = map_option t (sv_error v),
            sp_success = (if sv_saved v then Some (t ''hub.settings.saved'') else None),
            sp_fields = take 5 (settings_fields t v),
            sp_more = (t ''hub.settings.diagnosticsTitle'', sv_edit v, drop 5 (settings_fields t v)) \<rparr>)"

section \<open>The page of the hub\<close>

record hub_screen =
  hs_title :: string
  hs_search :: search_input
  hs_settings :: "string + settings_panel"
  hs_tabs :: "(agent_list_filter, string) pill_tabs"
  hs_content :: "string + agent_card list"

definition hub_tabs :: "(string \<Rightarrow> string) \<Rightarrow> agent_list_filter \<Rightarrow> (agent_list_filter, string) pill_tabs" where
  "hub_tabs t f =
     pillTabs [(All_Agents, t ''hub.filter.all''), (Live_Agents, t ''hub.filter.live''),
       (Offline_Agents, t ''hub.filter.offline'')] f"

definition hubPage ::
  "date_parser \<Rightarrow> int \<Rightarrow> translate \<Rightarrow> string \<Rightarrow> agent_list_filter \<Rightarrow> settings \<Rightarrow> agent_summary list \<Rightarrow> hub_screen" where
  "hubPage date now t search f st agents =
     (let tr = (\<lambda>k. t k []) in
      \<lparr> hs_title = tr ''nav.hub'', hs_search = searchInput search (tr ''hub.search'') None,
        hs_settings = hubAlertSettings tr st, hs_tabs = hub_tabs tr f,
        hs_content = (case hub_page date now t search f agents of
            None \<Rightarrow> Inl (tr ''hub.noAgents'') | Some cards \<Rightarrow> Inr cards) \<rparr>)"

section \<open>The tree of the sidebar\<close>

record nav_link =
  nl_to :: string
  nl_exact :: bool
  nl_class :: string
  nl_label :: string

text \<open>The router tells whether a link is active, given its target and whether the match must
  reach to the end of the target.\<close>

type_synonym active_link = "string \<Rightarrow> bool \<Rightarrow> bool"

definition nav_link_of :: "active_link \<Rightarrow> string \<Rightarrow> bool \<Rightarrow> (bool \<Rightarrow> string) \<Rightarrow> string \<Rightarrow> nav_link" where
  "nav_link_of act target exact cls label =
     \<lparr> nl_to = target, nl_exact = exact, nl_class = cls (act target exact), nl_label = label \<rparr>"

record agent_entry =
  ae_link :: nav_link
  ae_title :: string
  ae_dot :: string
  ae_views :: "nav_link markup option"

definition agent_entry_of ::
  "(string \<Rightarrow> string) \<Rightarrow> active_link \<Rightarrow> string option \<Rightarrow> agent_summary \<Rightarrow> agent_entry" where
  "agent_entry_of t act activeAgentId a =
     (let base = agent_link (agentId a); isActiveAgent = (activeAgentId = Some (agentId a));
          offline = isAgentOffline (a_status a) in
      \<lparr> ae_link = nav_link_of act base True
          (\<lambda>isActive. linkClass (isActive \<or> isActiveAgent) (if isActiveAgent then ''text-on-surface'' else []))
          (hostname a),
        ae_title = agentId a,
        ae_dot = ''inline-block w-2 h-2 rounded-full shrink-0 '' @
          (if offline then ''bg-on-surface-variant/50'' else ''bg-tertiary''),
        ae_views = (if isActiveAgent
          then Some (treeLeaf (map (\<lambda>(segment, key, exact).
            nav_link_of act (if segment \<noteq> [] then base @ ''/'' @ segment else base) exact
              (\<lambda>isActive. linkClass isActive []) (t key)) agentViews))
          else None) \<rparr>)"

datatype tree_item = Overview_Link nav_link | No_Agents_Text string | Agent_Entry agent_entry

record sidebar_nav =
  sn_aria :: string
  sn_hub :: nav_link
  sn_tree :: "tree_item markup"

definition hubSidebarNav ::
  "(string \<Rightarrow> string \<Rightarrow> rat) \<Rightarrow> (string \<Rightarrow> string) \<Rightarrow> active_link \<Rightarrow> string option \<Rightarrow> agent_summary list \<Rightarrow>
   sidebar_nav" where
  "hubSidebarNav collate t act activeAgentId agents =
     (let sortedAgents = js_sort (\<lambda>a b. collate (hostname a) (hostname b)) agents in
      \<lparr> sn_aria = t ''nav.hub'',
        sn_hub = nav_link_of act ''/hub'' True
          (\<lambda>isActive. ''block px-3 py-2 rounded-md text-sm font-medium '' @
             (if isActive then ''text-primary'' else ''text-on-surface-variant hover:bg-surface-high''))
          (t ''nav.hub''),
        sn_tree = treeBranch
          (Overview_Link (nav_link_of act ''/hub'' True (\<lambda>isActive. linkClass isActive []) (t ''hub.tree.overview'')) #
           (if length sortedAgents = 0 then [No_Agents_Text (t ''hub.noAgents'')]
            else map (\<lambda>a. Agent_Entry (agent_entry_of t act activeAgentId a)) sortedAgents)) \<rparr>)"

section \<open>Facts\<close>

text \<open>The table has no gap: every row has a cell for every heading.\<close>

lemma alerts_table_rectangular:
  "as_body (alertsPage t agent agents v) = Alerts_Table header rows \<Longrightarrow> (k, cells) \<in> set rows \<Longrightarrow>
     length cells = length header"
  by (auto simp: alertsPage_def alert_cells_def alerts_header_def split: if_splits)

text \<open>The cards of the page and the rows of the abstract view are the same alerts.\<close>

lemma alert_cells_row:
  "Buttons_Cell bs \<in> set (alert_cells t agent v a) \<longleftrightarrow>
     al_status a = ''OPEN'' \<and> bs = alert_buttons t v a"
  by (auto simp: alert_cells_def)

lemma row_buttons_agree:
  "ar_buttons (alert_row_of t agent v a) =
     (if al_status a = ''OPEN''
      then Some (ab_disabled (alert_buttons t v a ! 0), ab_disabled (alert_buttons t v a ! 1)) else None)"
  by (simp add: alert_row_of_def alert_buttons_def Let_def)

lemma hub_screen_fields:
  "hubAlertSettings t st = Inr p \<Longrightarrow> map fst (sp_fields p @ snd (snd (sp_more p))) = all_fields"
  using settings_fields_complete(1)
  by (auto simp: hubAlertSettings_def split: option.splits simp flip: map_append)

text \<open>The tree leads to the same places as the list of the sidebar.\<close>

lemma tree_slots [simp]: "slots (treeLeaf xs) = xs" "slots (treeBranch xs) = xs"
  by (simp_all add: treeLeaf_def treeBranch_def div_of_def)

lemma agent_entry_views:
  "ae_views (agent_entry_of t act active a) = None \<longleftrightarrow> active \<noteq> Some (agentId a)"
  "ae_views (agent_entry_of t act active a) = Some m \<Longrightarrow>
     map nl_to (slots m) = map fst (sa_views (sidebar_agent_of active a))"
  by (auto simp: agent_entry_of_def sidebar_agent_of_def nav_link_of_def Let_def split: if_splits)

lemma action_paths_well_formed:
  "well_formed_path (req_path (ack_request i))" "well_formed_path (req_path (silence_request a minutes))"
  by (simp_all add: request_paths well_formed_path_def encode_part url_char_plain is_alnum_def char_code_def
      percent_ok_append percent_ok_encode)

lemma press_path_well_formed: "well_formed_path (press_path c)"
  by (cases c) (simp_all add: action_paths_well_formed)

text \<open>The acknowledgement reaches the alert of its row, when the identifier is a whole segment.\<close>

lemma press_path_reaches:
  "i \<noteq> [] \<Longrightarrow> CHR ''/'' \<notin> set i \<Longrightarrow> i \<noteq> ''.'' \<Longrightarrow> i \<noteq> ''..'' \<Longrightarrow> serve (press_path (Click_Ack i)) = Alert_Ack (utf8 i)"
  "serve (press_path (Click_Silence a minutes)) = Alert_Silence"
  using reachesD [OF request_reaches(5), of i] unfolding press_path.simps serve_def request_segments(4)
  by blast (simp add: silence_request_def post_request_def, code_simp)

lemma alert_clicks:
  "map ab_click (alert_buttons t v a) = [Click_Ack (al_id a), Click_Silence a 60, Click_Silence a (24 * 60)]"
  by (simp add: alert_buttons_def Let_def)

lemma alert_buttons_actions:
  assumes "mounted (listing st)" and "a \<in> set (alerts (view (listing st)))" and "al_status a = ''OPEN''"
    and "b \<in> set (alert_buttons t (view (listing st)) a)" and "indicators_ok st"
  shows "ab_disabled b \<Longrightarrow> click_action (ab_click b) \<in> set (actions st)"
    and "\<not> ab_disabled b \<Longrightarrow> alerts_step st (alert_press (ab_click b) st)"
    and "actions (alert_press (ab_click b) st) = actions st @ [click_action (ab_click b)]"
proof -
  show "ab_disabled b \<Longrightarrow> click_action (ab_click b) \<in> set (actions st)"
    "actions (alert_press (ab_click b) st) = actions st @ [click_action (ab_click b)]"
    using assms by (auto simp: alert_buttons_def Let_def indicators_ok_def acknowledge_def silence_def)
  show "\<not> ab_disabled b \<Longrightarrow> alerts_step st (alert_press (ab_click b) st)"
    using assms(1-4) by (auto simp: alert_buttons_def Let_def intro: alerts_step.intros)
qed

section \<open>Properties\<close>

text \<open>C19: what the page of alerts offers is what its hook can take: the table has a cell in
  every row for every heading. The buttons of a row are there for an open alert of the list
  and acknowledge this alert, or silence its rule for an hour or for a day. An enabled button
  is a step of the hook from the state shown and puts its action under way, the action of a
  disabled one is under way. The path a button requests is well formed, whatever the
  identifiers are, and the server reads the path of an acknowledgement as one of the row's
  alert, unless its identifier has a slash or names a directory.\<close>

theorem alert_table_actions:
  assumes "alerts_reachable st" and "mounted (listing st)"
    and "as_body (alertsPage t agent agents (view (listing st))) = Alerts_Table header rows"
    and "(k, cells) \<in> set rows"
  shows "length cells = length header \<and>
    (\<forall>bs. Buttons_Cell bs \<in> set cells \<longrightarrow>
      (\<exists>a\<in>set (alerts (view (listing st))). al_id a = k \<and> al_status a = ''OPEN'' \<and>
        map ab_click bs = [Click_Ack k, Click_Silence a 60, Click_Silence a (24 * 60)]) \<and>
      (k = [] \<or> CHR ''/'' \<in> set k \<or> k = ''.'' \<or> k = ''..'' \<or> serve (press_path (Click_Ack k)) = Alert_Ack (utf8 k)) \<and>
      (\<forall>b\<in>set bs. well_formed_path (press_path (ab_click b)) \<and>
        (if ab_disabled b then click_action (ab_click b) \<in> set (actions st)
         else alerts_step st (alert_press (ab_click b) st) \<and>
           actions (alert_press (ab_click b) st) = actions st @ [click_action (ab_click b)])))"
proof (intro conjI allI impI ballI)
  show "length cells = length header" using assms(3,4) by (rule alerts_table_rectangular)
  fix bs
  assume "Buttons_Cell bs \<in> set cells"
  with assms(3,4) obtain a where a: "a \<in> set (alerts (view (listing st)))" "al_status a = ''OPEN''"
    and k: "al_id a = k" and bs: "bs = alert_buttons t (view (listing st)) a"
    by (auto simp: alertsPage_def alert_cells_row split: if_splits)
  show "\<exists>a\<in>set (alerts (view (listing st))). al_id a = k \<and> al_status a = ''OPEN'' \<and>
      map ab_click bs = [Click_Ack k, Click_Silence a 60, Click_Silence a (24 * 60)]"
    using a k by (intro bexI [of _ a]) (simp_all add: bs alert_clicks)
  show "k = [] \<or> CHR ''/'' \<in> set k \<or> k = ''.'' \<or> k = ''..'' \<or> serve (press_path (Click_Ack k)) = Alert_Ack (utf8 k)"
    using press_path_reaches(1) by blast
  fix b
  assume "b \<in> set bs"
  note b' = this [unfolded bs]
  show "well_formed_path (press_path (ab_click b))" by (rule press_path_well_formed)
  show "if ab_disabled b then click_action (ab_click b) \<in> set (actions st)
      else alerts_step st (alert_press (ab_click b) st) \<and>
        actions (alert_press (ab_click b) st) = actions st @ [click_action (ab_click b)]"
    using alert_buttons_actions [OF assms(2) a b' indicators_reachable [OF assms(1)]] by simp
qed

theorem alert_table_actions_witness:
  "\<exists>header rows. as_body (alertsPage (\<lambda>k. k) None [] (view (listing two_open))) = Alerts_Table header rows \<and>
    alerts_step two_open (acknowledge ''1'' two_open)"
proof -
  have m: "mounted (listing two_open)" and as: "alerts (view (listing two_open)) = [open_alert ''1'', open_alert ''2'']"
    and free: "ackingId (view (listing two_open)) = None"
    by (simp_all add: two_open_def hook_defs Let_def useAlerts_list_def alerts_init_def is_ok_def)
  let ?v = "view (listing two_open)" and ?b = "hd (alert_buttons (\<lambda>k. k) (view (listing two_open)) (open_alert ''1''))"
  have body: "as_body (alertsPage (\<lambda>k. k) None [] ?v) = Alerts_Table (alerts_header (\<lambda>k. k) None)
      (map (\<lambda>a. (al_id a, alert_cells (\<lambda>k. k) None ?v a)) [open_alert ''1'', open_alert ''2''])"
    by (simp add: alertsPage_def as)
  have cells: "Buttons_Cell (alert_buttons (\<lambda>k. k) ?v (open_alert ''1'')) \<in> set (alert_cells (\<lambda>k. k) None ?v (open_alert ''1''))"
    by (simp add: alert_cells_row open_alert_def)
  have b: "?b \<in> set (alert_buttons (\<lambda>k. k) ?v (open_alert ''1''))" "\<not> ab_disabled ?b" "ab_click ?b = Click_Ack ''1''"
    by (simp_all add: alert_buttons_def Let_def free open_alert_def)
  have "(al_id (open_alert ''1''), alert_cells (\<lambda>k. k) None ?v (open_alert ''1'')) \<in>
      set (map (\<lambda>a. (al_id a, alert_cells (\<lambda>k. k) None ?v a)) [open_alert ''1'', open_alert ''2''])" by simp
  from alert_table_actions [OF two_open_reachable m body this, THEN conjunct2, rule_format, OF cells] b(1,2)
  have "alerts_step two_open (alert_press (ab_click ?b) two_open)" by (metis (no_types, lifting))
  then have "alerts_step two_open (acknowledge ''1'' two_open)" by (simp only: b(3) alert_press.simps)
  with body show ?thesis by blast
qed
end
