(* ===== verification/ReplyOrder.thy ===== *)
theory ReplyOrder
  imports HubScreens
begin

text \<open>
  The order of the replies. The hooks of \<open>src/api\<close> other than \<open>useHistorySamples\<close> keep
  whatever reply comes last. \<open>in_order\<close> are the runs in which the replies come in the order
  of their requests; in them what a hook shows with nothing outstanding is what its present
  dependency was answered: the locale \<open>settled\<close> states it for a reading \<open>current\<close> of the
  view, and is interpreted on \<open>useContainerMetrics\<close>, \<open>useDiagnostics\<close>, the list of
  \<open>useAlerts\<close> and on any hook that also logs its replies, as \<open>useHubAgentMetrics\<close> does for
  its property. The order is not enough in two cases, which are exhibited: an
  answer without content leaves the data of the previous agent in place, and a list that was
  asked for before an acknowledgement undoes it when it arrives after it.
\<close>

section \<open>Runs with replies in the order of the requests\<close>

inductive in_order ::
  "('d, 'v, 'r) handlers \<Rightarrow> ('d \<Rightarrow> 'r \<Rightarrow> bool) \<Rightarrow> 'v \<Rightarrow> ('d, 'v) poll \<Rightarrow> bool"
  for h answers v where
  mount: "in_order h answers v (poll_mount h v d)"
| rerun: "in_order h answers v st \<Longrightarrow> mounted st \<Longrightarrow> d \<noteq> dep st \<Longrightarrow> in_order h answers v (poll_effect h d st)"
| tick: "in_order h answers v st \<Longrightarrow> ticking st \<Longrightarrow> in_order h answers v (poll_load h st)"
| first: "in_order h answers v st \<Longrightarrow> inflight st \<noteq> [] \<Longrightarrow> answers (hd (inflight st)) r \<Longrightarrow>
     in_order h answers v (poll_arrive h 0 r st)"
| unmount: "in_order h answers v st \<Longrightarrow> mounted st \<Longrightarrow> in_order h answers v (poll_unmount st)"

lemma in_order_reachable: "in_order h answers v st \<Longrightarrow> poll_reachable h answers v st"
proof (induction rule: in_order.induct)
  case (mount d)
  show ?case by (rule poll_reachable.mount)
next
  case (first st r)
  then show ?case
    by (intro poll_reachable.step [OF first.IH poll_step.arrive]) (simp_all add: hd_conv_nth)
qed (blast intro: poll_reachable.step poll_step.intros)+

locale settled =
  fixes h :: "('d, 'v, 'r) handlers" and answers :: "'d \<Rightarrow> 'r \<Rightarrow> bool"
    and current :: "'d \<Rightarrow> 'v \<Rightarrow> bool"
  assumes answered: "enabled h d \<Longrightarrow> answers d r \<Longrightarrow> current d (on_reply h d r v)"
begin

definition tracks :: "('d, 'v) poll \<Rightarrow> bool" where
  "tracks st =
     (mounted st \<and> enabled h (dep st) \<longrightarrow>
        (if inflight st = [] then current (dep st) (view st) else last (inflight st) = dep st))"

lemma tracks_effect: "mounted st \<Longrightarrow> tracks (poll_effect h d st)"
  by (simp add: tracks_def hook_defs Let_def)

lemma tracks_first:
  assumes "tracks st" and "inflight st \<noteq> []" and "answers (hd (inflight st)) r"
  shows "tracks (poll_arrive h 0 r st)"
proof (cases "tl (inflight st)")
  case Nil
  with assms(2) obtain d where "inflight st = [d]" by (cases "inflight st") auto
  with assms(1,3) show ?thesis by (auto simp: tracks_def hook_defs answered)
next
  case (Cons d ds)
  with assms(2) obtain c where "inflight st = c # d # ds" by (cases "inflight st") auto
  with assms(1) show ?thesis by (auto simp: tracks_def hook_defs)
qed

lemma in_order_tracks: "in_order h answers v st \<Longrightarrow> tracks st"
proof (induction rule: in_order.induct)
  case (mount d)
  show ?case unfolding poll_mount_def by (rule tracks_effect) simp
next
  case (rerun st d)
  then show ?case by (blast intro: tracks_effect)
next
  case (tick st)
  then show ?case by (simp add: tracks_def hook_defs)
next
  case (first st r)
  then show ?case by (blast intro: tracks_first)
next
  case (unmount st)
  show ?case by (simp add: tracks_def hook_defs)
qed

lemma shows_current:
  "in_order h answers v st \<Longrightarrow> mounted st \<Longrightarrow> enabled h (dep st) \<Longrightarrow> inflight st = [] \<Longrightarrow>
     current (dep st) (view st)"
  using in_order_tracks [of v st] by (simp add: tracks_def)

end

section \<open>The hooks\<close>

text \<open>The server answers a request about \<open>d\<close> with its data for \<open>d\<close>, with no content or with
  an error.\<close>

definition data_if_any :: "('d \<Rightarrow> 'a) \<Rightarrow> 'd \<Rightarrow> 'a reply \<Rightarrow> bool" where
  "data_if_any server d r = (\<forall>x. apiGet [] r = Inr (Some x) \<longrightarrow> x = server d)"

lemma apiGet_path: "apiGet p r = Inr x \<longleftrightarrow> apiGet [] r = Inr x"
proof (cases r)
  case (Response st b)
  then show ?thesis by (cases b) auto
qed simp

text \<open>A hook that keeps the replies it processed beside its view, each with what it was asked
  for, in the order of their arrival.\<close>

definition logged :: "('d, 'v, 'r) handlers \<Rightarrow> ('d, 'v \<times> ('d \<times> 'r) list, 'r) handlers" where
  "logged h =
     \<lparr> enabled = enabled h, on_skip = (\<lambda>(v, replies). (on_skip h v, replies)),
       on_start = (\<lambda>(v, replies). (on_start h v, replies)),
       on_reply = (\<lambda>d r (v, replies). (on_reply h d r v, replies @ [(d, r)])), repeats = repeats h \<rparr>"

definition forget :: "('d, 'v \<times> ('d \<times> 'r) list) poll \<Rightarrow> ('d, 'v) poll" where
  "forget st = \<lparr> dep = dep st, mounted = mounted st, ticking = ticking st, inflight = inflight st,
     view = fst (view st) \<rparr>"

lemma forget_fields [simp]:
  "dep (forget st) = dep st" "mounted (forget st) = mounted st" "ticking (forget st) = ticking st"
  "inflight (forget st) = inflight st" "view (forget st) = fst (view st)"
  by (simp_all add: forget_def)

lemma forget_steps:
  "forget (poll_effect (logged h) d st) = poll_effect h d (forget st)"
  "forget (poll_load (logged h) st) = poll_load h (forget st)"
  "forget (poll_arrive (logged h) i r st) = poll_arrive h i r (forget st)"
  "forget (poll_unmount st) = poll_unmount (forget st)"
  "forget (poll_mount (logged h) (v, replies) d) = poll_mount h v d"
  by (simp_all add: forget_def logged_def hook_defs Let_def split_beta)

text \<open>Every run is the run of the logging hook without its log.\<close>

lemma in_order_logged:
  "in_order h answers v st \<Longrightarrow> \<exists>st'. in_order (logged h) answers (v, []) st' \<and> forget st' = st"
proof (induction rule: in_order.induct)
  case (mount d)
  show ?case by (intro exI [of _ "poll_mount (logged h) (v, []) d"] conjI in_order.mount forget_steps(5))
next
  case (rerun st d)
  then obtain st' where "in_order (logged h) answers (v, []) st'" and st: "forget st' = st" by blast
  then have "in_order (logged h) answers (v, []) (poll_effect (logged h) d st')"
    using rerun.hyps by (intro in_order.rerun) (auto simp flip: st)
  then show ?case by (intro exI [of _ "poll_effect (logged h) d st'"]) (simp add: forget_steps(1) st)
next
  case (tick st)
  then obtain st' where "in_order (logged h) answers (v, []) st'" and st: "forget st' = st" by blast
  then have "in_order (logged h) answers (v, []) (poll_load (logged h) st')"
    using tick.hyps by (intro in_order.tick) (auto simp flip: st)
  then show ?case by (intro exI [of _ "poll_load (logged h) st'"]) (simp add: forget_steps(2) st)
next
  case (first st r)
  then obtain st' where "in_order (logged h) answers (v, []) st'" and st: "forget st' = st" by blast
  then have "in_order (logged h) answers (v, []) (poll_arrive (logged h) 0 r st')"
    using first.hyps by (intro in_order.first) (auto simp flip: st)
  then show ?case by (intro exI [of _ "poll_arrive (logged h) 0 r st'"]) (simp add: forget_steps(3) st)
next
  case (unmount st)
  then obtain st' where "in_order (logged h) answers (v, []) st'" and st: "forget st' = st" by blast
  then have "in_order (logged h) answers (v, []) (poll_unmount st')"
    using unmount.hyps by (intro in_order.unmount) (auto simp flip: st)
  then show ?case by (intro exI [of _ "poll_unmount st'"]) (simp add: forget_steps(4) st)
qed

interpretation log_order: settled "logged h" answers "\<lambda>d (v, replies). replies \<noteq> [] \<and> fst (last replies) = d"
  for h :: "('d, 'v, 'r) handlers" and answers
  by unfold_locales (simp add: logged_def split_beta)

text \<open>The snapshot of a live page is that of the latest reply with content, since which there
  were only replies without.\<close>

definition shows_latest :: "date_parser \<Rightarrow> live_view \<times> (string option \<times> metrics_snapshot reply) list \<Rightarrow> bool" where
  "shows_latest date = (\<lambda>(v, replies). lv_live v \<longrightarrow>
     (\<exists>earlier d r s later. replies = earlier @ (d, r) # later \<and> apiGet (agent_path d ''current'') r = Inr (Some s) \<and>
       (\<forall>(d', r')\<in>set later. apiGet (agent_path d' ''current'') r' = Inr None) \<and>
       lv_snapshot v = Some s \<and> lv_update v = Some (date (collectedAt s))))"

lemma shows_latest_reply:
  assumes "shows_latest date (v, replies)"
  shows "shows_latest date (on_reply (logged (useHubAgentMetrics date)) d r (v, replies))"
proof -
  have step: "on_reply (logged (useHubAgentMetrics date)) d r (v, replies) =
      (live_answer date (apiGet (agent_path d ''current'') r) v, replies @ [(d, r)])"
    by (simp add: logged_def useHubAgentMetrics_def)
  show ?thesis
  proof (cases "apiGet (agent_path d ''current'') r")
    case (Inl e)
    then show ?thesis by (simp add: step shows_latest_def live_answer_def)
  next
    case (Inr x)
    show ?thesis
    proof (cases x)
      case (Some s)
      with Inr show ?thesis
        unfolding step shows_latest_def prod.case
        by (intro impI exI [of _ replies] exI [of _ d] exI [of _ r] exI [of _ s] exI [of _ "[]"])
          (simp add: live_answer_def live_apply_def)
    next
      case None
      show ?thesis
        unfolding step shows_latest_def prod.case
      proof
        assume "lv_live (live_answer date (apiGet (agent_path d ''current'') r) v)"
        with assms Inr None obtain earlier d' r' s later where
          "replies = earlier @ (d', r') # later" "apiGet (agent_path d' ''current'') r' = Inr (Some s)"
          "\<forall>(d', r')\<in>set later. apiGet (agent_path d' ''current'') r' = Inr None" "lv_snapshot v = Some s" "lv_update v = Some (date (collectedAt s))"
          by (auto simp: shows_latest_def live_answer_def)
        with Inr None show "\<exists>earlier d' r' s later. replies @ [(d, r)] = earlier @ (d', r') # later \<and>
            apiGet (agent_path d' ''current'') r' = Inr (Some s) \<and> (\<forall>(d', r')\<in>set later. apiGet (agent_path d' ''current'') r' = Inr None) \<and>
            lv_snapshot (live_answer date (apiGet (agent_path d ''current'') r) v) = Some s \<and>
            lv_update (live_answer date (apiGet (agent_path d ''current'') r) v) = Some (date (collectedAt s))"
          by (intro exI [of _ earlier] exI [of _ d'] exI [of _ r'] exI [of _ s] exI [of _ "later @ [(d, r)]"])
            (auto simp: live_answer_def)
      qed
    qed
  qed
qed

interpretation latest: view_invariant "logged (useHubAgentMetrics date)" "\<lambda>_ _. True" "shows_latest date" "(live_init, [])"
  for date
proof
  show "shows_latest date (live_init, [])" by (simp add: shows_latest_def live_init_def)
next
  fix v :: "live_view \<times> (string option \<times> metrics_snapshot reply) list" and d r
  assume v: "shows_latest date v"
  then show "shows_latest date (on_skip (logged (useHubAgentMetrics date)) v)"
    "shows_latest date (on_start (logged (useHubAgentMetrics date)) v)"
    by (simp_all add: logged_def useHubAgentMetrics_def split_beta)
  from v show "shows_latest date (on_reply (logged (useHubAgentMetrics date)) d r v)"
    using shows_latest_reply by (cases v) blast
qed

interpretation container_order: settled useContainerMetrics "data_if_any server"
    "\<lambda>c v. cv_unavailable v \<or> cv_snapshot v = Some (server c)"
  for server
proof
  fix d r and v :: container_view
  assume "data_if_any server d r"
  then show "cv_unavailable (on_reply useContainerMetrics d r v) \<or>
      cv_snapshot (on_reply useContainerMetrics d r v) = Some (server d)"
    using apiGet_path [of "container_path d" r]
    by (auto simp: data_if_any_def useContainerMetrics_def split: sum.splits option.splits)
qed

lemma list_reply:
  assumes "data_if_any server d r"
  shows "(case or_default [] (apiGet p r) of Inr data \<Rightarrow> data | Inl e \<Rightarrow> []) \<in> {server d, []}"
  using assms apiGet_path [of p r]
  by (auto simp: data_if_any_def or_default_def split: sum.splits option.splits)

interpretation diagnostics_order: settled useDiagnostics "data_if_any server" "\<lambda>a v. v = server a \<or> v = []"
  for server
  using list_reply by unfold_locales (simp add: useDiagnostics_def)

interpretation alerts_order: settled useAlerts_list "data_if_any server"
    "\<lambda>a v. alerts v = server a \<or> alerts v = []"
  for server
  using list_reply by unfold_locales (simp add: useAlerts_list_def)

section \<open>Facts\<close>

lemma poll_reachable_mono:
  "poll_reachable h answers v st \<Longrightarrow> (\<And>d r. answers d r \<Longrightarrow> answers' d r) \<Longrightarrow> poll_reachable h answers' v st"
proof (induction rule: poll_reachable.induct)
  case (mount d)
  show ?case by (rule poll_reachable.mount)
next
  case (step st st')
  have "poll_step h answers' st st'"
    using step(2) by cases (use step.prems in \<open>auto intro: poll_step.intros\<close>)
  then show ?case using step by (blast intro: poll_reachable.step)
qed

lemma alerts_ticking: "alerts_reachable st \<Longrightarrow> mounted (listing st) \<longrightarrow> ticking (listing st)"
proof (induction rule: alerts_reachable.induct)
  case (mounted d)
  show ?case by (simp add: hook_defs Let_def useAlerts_list_def)
next
  case (step st st')
  from step(2) step(3) show ?case
  proof cases
    case (polled p)
    from polled(2) step(3) show ?thesis
      by cases (auto simp: polled(1) hook_defs Let_def useAlerts_list_def)
  qed (auto simp: acknowledge_def silence_def action_end_def on_view_def poll_unmount_def Let_def)
qed

text \<open>A refresh that is answered without content.\<close>

definition empty_refresh ::
  "('d, 'v, 'a reply) handlers \<Rightarrow> ('d, 'v) poll \<Rightarrow> ('d, 'v) poll" where
  "empty_refresh h st = poll_arrive h 0 (Response 204 JsonNull) (poll_load h st)"

text \<open>The page of an agent after a refresh without content is as before.\<close>

lemma empty_refresh_keeps:
  assumes "in_order (useHubAgentMetrics date) answers live_init st" and "mounted st" and "ticking st"
    and "inflight st = []" and "answers (dep st) (Response 204 JsonNull)"
  shows "in_order (useHubAgentMetrics date) answers live_init (empty_refresh (useHubAgentMetrics date) st) \<and>
    empty_refresh (useHubAgentMetrics date) st = st"
proof -
  let ?h = "useHubAgentMetrics date"
  have "in_order ?h answers live_init (poll_load ?h st)" using assms(1,3) by (rule in_order.tick)
  then have "in_order ?h answers live_init (empty_refresh ?h st)"
    unfolding empty_refresh_def by (rule in_order.first) (use assms(4,5) in \<open>simp_all add: poll_load_def\<close>)
  moreover have "empty_refresh ?h st = st"
    using assms(4) by (simp add: empty_refresh_def hook_defs useHubAgentMetrics_def live_answer_def)
  ultimately show ?thesis by blast
qed

lemma empty_refreshes_keep:
  assumes "in_order (useHubAgentMetrics date) answers live_init st" and "mounted st" and "ticking st"
    and "inflight st = []" and "answers (dep st) (Response 204 JsonNull)"
  shows "(empty_refresh (useHubAgentMetrics date) ^^ n) st = st"
  by (induction n) (simp_all add: empty_refresh_keeps [OF assms])

section \<open>Properties\<close>

text \<open>C12: with replies in the order of the requests the page of an agent is as current as its
  answers: whatever agents were visited and whatever the server answered, a page that says
  it is live with nothing outstanding shows the snapshot of the latest answer with content;
  every answer since was without content, there was no failure; and the last answer of all
  was to a request for the page's own agent. So the snapshot is one of the own agent, unless
  the last request for it was answered without content.\<close>

theorem in_order_replies_are_current:
  assumes "in_order (logged (useHubAgentMetrics date)) answers (live_init, []) st"
    and "mounted st" and "given (dep st)" and "inflight st = []"
    and "view st = (v, replies)" and "lv_live v"
  shows "\<exists>earlier d r s later. replies = earlier @ (d, r) # later \<and> apiGet (agent_path d ''current'') r = Inr (Some s) \<and>
    lv_snapshot v = Some s \<and> lv_update v = Some (date (collectedAt s)) \<and>
    (\<forall>(d', r')\<in>set later. apiGet (agent_path d' ''current'') r' = Inr None) \<and>
    (if later = [] then d = dep st else fst (last later) = dep st)"
proof -
  have "enabled (logged (useHubAgentMetrics date)) (dep st)"
    using assms(3) by (simp add: logged_def useHubAgentMetrics_def)
  then have own: "replies \<noteq> [] \<and> fst (last replies) = dep st"
    using log_order.shows_current [OF assms(1,2)] assms(4,5) by simp
  have "poll_reachable (logged (useHubAgentMetrics date)) (\<lambda>_ _. True) (live_init, []) st"
    using poll_reachable_mono [OF in_order_reachable [OF assms(1)]] by simp
  then have "shows_latest date (v, replies)" using latest.good_reachable assms(5) by metis
  then obtain earlier d r s later where replies: "replies = earlier @ (d, r) # later" and "apiGet (agent_path d ''current'') r = Inr (Some s)"
    "\<forall>(d', r')\<in>set later. apiGet (agent_path d' ''current'') r' = Inr None" "lv_snapshot v = Some s" "lv_update v = Some (date (collectedAt s))"
    using assms(6) by (auto simp: shows_latest_def)
  moreover have "if later = [] then d = dep st else fst (last later) = dep st" using own by (auto simp: replies split: if_splits)
  ultimately show ?thesis
    by (intro exI [of _ earlier] exI [of _ d] exI [of _ r] exI [of _ s] exI [of _ later]) auto
qed

text \<open>C13: an agent without data is shown with the data of another one: after the user goes from
  an agent with data to one for which the server has none, every refresh, however many, is
  answered without content, and the page shows the metrics of the first agent under the
  second one, as live, although the replies come in order.\<close>

theorem silent_agent_shows_previous:
  assumes "given (Some a)" and "given (Some b)" and "a \<noteq> b"
  shows "let h = useHubAgentMetrics date; s = server (Some a);
      arrived = poll_arrive h 0 (Response 200 (Json s)) (poll_mount h live_init (Some a));
      there = poll_arrive h 0 (Response 204 JsonNull) (poll_effect h (Some b) arrived);
      st = (empty_refresh h ^^ n) there in
    in_order h (\<lambda>d r. if d = Some b then r = Response 204 JsonNull else r = Response 200 (Json (server d))) live_init st \<and>
    dep st = Some b \<and> inflight st = [] \<and>
    (\<exists>note. hub_agent_layout (Some b) agents (view st) =
      Agent_Frame note \<lparr> snapshot = Some s, live = True, lastUpdate = Some (date (collectedAt s)) \<rparr>)"
proof -
  let ?h = "useHubAgentMetrics date" and ?s = "server (Some a)"
  let ?answers = "\<lambda>d r. if d = Some b then r = Response 204 JsonNull else r = Response 200 (Json (server d))"
  let ?mount = "poll_mount ?h live_init (Some a)"
  let ?arrived = "poll_arrive ?h 0 (Response 200 (Json ?s)) ?mount"
  let ?left = "poll_effect ?h (Some b) ?arrived"
  let ?there = "poll_arrive ?h 0 (Response 204 JsonNull) ?left"
  note run = hook_defs Let_def useHubAgentMetrics_def live_answer_def is_ok_def
  have "in_order ?h ?answers live_init ?arrived"
    by (rule in_order.first [OF in_order.mount]) (use assms in \<open>simp_all add: run\<close>)
  then have "in_order ?h ?answers live_init ?left"
    by (rule in_order.rerun) (use assms in \<open>simp_all add: run\<close>)
  then have there: "in_order ?h ?answers live_init ?there"
    by (rule in_order.first) (use assms in \<open>simp_all add: run\<close>)
  have st: "mounted ?there" "ticking ?there" "inflight ?there = []" "dep ?there = Some b"
    "view ?there = live_apply date ?s live_init"
    using assms by (simp_all add: run)
  then have same: "(empty_refresh ?h ^^ n) ?there = ?there"
    by (intro empty_refreshes_keep [OF there]) simp_all
  have "\<exists>note. hub_agent_layout (Some b) agents (view ?there) =
      Agent_Frame note \<lparr> snapshot = Some ?s, live = True, lastUpdate = Some (date (collectedAt ?s)) \<rparr>"
    unfolding st(5) using assms(2) by (simp add: hub_agent_layout_def live_apply_def)
  then show ?thesis unfolding Let_def same using there st(3,4) by blast
qed

text \<open>C15: an acknowledgement can be undone by an answer that is older than it: when a refresh
  of the list is under way while an alert is acknowledged, the reply that the server gave
  before makes the alert open again and enables its button, with nothing outstanding that
  was not outstanding before.\<close>

theorem late_list_reopens_alert:
  assumes "alerts_reachable st" and "mounted (listing st)"
    and "a \<in> set (alerts (view (listing st)))" and "al_status a = ''OPEN''"
    and "ackingId (view (listing st)) \<noteq> Some (al_id a)"
  shows "let asked = on_listing (poll_load useAlerts_list) st;
      acked = action_end (length (actions st)) (Inr (Some (a\<lparr> al_status := ''ACK'' \<rparr>))) (acknowledge (al_id a) asked);
      late = on_listing (poll_arrive useAlerts_list (length (inflight (listing st)))
        (Response 200 (Json (alerts (view (listing st)))))) acked in
    alerts_reachable late \<and> actions late = actions st \<and> inflight (listing late) = inflight (listing st) \<and>
    (\<forall>x\<in>set (alerts (view (listing acked))). al_id x = al_id a \<longrightarrow> al_status x = ''ACK'') \<and>
    a \<in> set (alerts (view (listing late))) \<and> alerts_step late (acknowledge (al_id a) late)"
proof -
  let ?n = "length (inflight (listing st))" and ?old = "alerts (view (listing st))"
  let ?asked = "on_listing (poll_load useAlerts_list) st"
  let ?ack = "acknowledge (al_id a) ?asked"
  let ?acked = "action_end (length (actions st)) (Inr (Some (a\<lparr> al_status := ''ACK'' \<rparr>))) ?ack"
  let ?late = "on_listing (poll_arrive useAlerts_list ?n (Response 200 (Json ?old))) ?acked"
  have tick: "ticking (listing st)" using alerts_ticking [OF assms(1)] assms(2) by blast
  note run = on_listing_def hook_defs useAlerts_list_def acknowledge_def on_view_def action_end_def ack_outcome_def null_listed_def Let_def is_ok_def
  have "alerts_step st ?asked"
    unfolding on_listing_def by (intro alerts_step.polled poll_step.tick tick)
  moreover have "alerts_step ?asked ?ack"
    by (rule alerts_step.ack) (use assms in \<open>simp_all add: run\<close>)
  moreover have "alerts_step ?ack ?acked"
    by (rule alerts_step.ended) (simp add: acknowledge_def on_listing_def)
  moreover have "alerts_step ?acked ?late"
    unfolding on_listing_def [of _ ?acked]
    by (intro alerts_step.polled poll_step.arrive) (use assms(2) in \<open>simp_all add: run\<close>)
  ultimately have "alerts_reachable ?late" using assms(1) by (meson alerts_reachable.step)
  moreover have late: "actions ?late = actions st" "inflight (listing ?late) = inflight (listing st)"
    "alerts (view (listing ?late)) = ?old" "mounted (listing ?late)" "ackingId (view (listing ?late)) = None"
    "alerts (view (listing ?acked)) = replace_alert (al_id a) (a\<lparr> al_status := ''ACK'' \<rparr>) ?old"
    using assms(2) by (simp_all add: run)
  moreover have "alerts_step ?late (acknowledge (al_id a) ?late)"
    by (rule alerts_step.ack) (use assms late in simp_all)
  ultimately show ?thesis
    unfolding Let_def late(3,6) using assms(3) by (auto simp: replace_alert_def)
qed

theorem in_order_replies_are_current_witness:
  "let h = logged (useHubAgentMetrics parse_iso); r = Response 200 (Json (snapshot_at ''b''));
     st = poll_arrive h 0 r (poll_effect h (Some ''b'')
       (poll_arrive h 0 (Network_Failure []) (poll_mount h (live_init, []) (Some ''a''))))
   in lv_snapshot (fst (view st)) = Some (snapshot_at ''b'') \<and>
     snd (view st) = [(Some ''a'', Network_Failure []), (Some ''b'', r)]"
proof -
  let ?h = "logged (useHubAgentMetrics parse_iso)" and ?r = "Response 200 (Json (snapshot_at ''b''))"
  let ?failed = "poll_arrive ?h 0 (Network_Failure []) (poll_mount ?h (live_init, []) (Some ''a''))"
  let ?st = "poll_arrive ?h 0 ?r (poll_effect ?h (Some ''b'') ?failed)"
  let ?v = "live_apply parse_iso (snapshot_at ''b'') (live_init\<lparr> lv_live := False \<rparr>)"
  note run = hook_defs Let_def logged_def useHubAgentMetrics_def live_answer_def is_ok_def given_def
  have "in_order ?h (\<lambda>_ _. True) (live_init, []) ?failed"
    by (rule in_order.first [OF in_order.mount]) (simp_all add: run)
  then have "in_order ?h (\<lambda>_ _. True) (live_init, []) (poll_effect ?h (Some ''b'') ?failed)"
    by (rule in_order.rerun) (simp_all add: run)
  then have reached: "in_order ?h (\<lambda>_ _. True) (live_init, []) ?st"
    by (rule in_order.first) (simp_all add: run)
  have st: "mounted ?st" "given (dep ?st)" "inflight ?st = []" "lv_live ?v"
    "view ?st = (?v, [(Some ''a'', Network_Failure []), (Some ''b'', ?r)])"
    by (simp_all add: run live_apply_def)
  from in_order_replies_are_current [OF reached st(1-3,5,4)]
  obtain earlier d r s later where "[(Some ''a'', Network_Failure []), (Some ''b'', ?r)] = earlier @ (d, r) # later"
    "apiGet (agent_path d ''current'') r = Inr (Some s)" "lv_snapshot ?v = Some s" by blast
  then have "s = snapshot_at ''b''" by (auto simp: Cons_eq_append_conv is_ok_def)
  with \<open>lv_snapshot ?v = Some s\<close> show ?thesis unfolding Let_def st(5) by simp
qed

theorem silent_agent_shows_previous_witness:
  "let h = useHubAgentMetrics parse_iso;
     arrived = poll_arrive h 0 (Response 200 (Json (snapshot_at ''a''))) (poll_mount h live_init (Some ''a''));
     there = poll_arrive h 0 (Response 204 JsonNull) (poll_effect h (Some ''b'') arrived)
   in \<exists>note ctx. hub_agent_layout (Some ''b'') [] (view ((empty_refresh h ^^ 2) there)) = Agent_Frame note ctx \<and>
     snapshot ctx = Some (snapshot_at ''a'') \<and> live ctx"
  using silent_agent_shows_previous [of "''a''" "''b''" parse_iso "\<lambda>d. snapshot_at (the d)" 2 "[]"]
  by (simp add: Let_def given_def) (metis metrics_context.select_convs(1,2))

theorem late_list_reopens_alert_witness:
  "\<exists>st. alerts_reachable st \<and> actions st = [] \<and> open_alert ''1'' \<in> set (alerts (view (listing st))) \<and>
    alerts_step st (acknowledge ''1'' st)"
proof -
  have "ackingId (view (listing two_open)) = None"
    by (simp add: two_open_def hook_defs Let_def useAlerts_list_def alerts_init_def)
  then show ?thesis
    using late_list_reopens_alert [OF two_open_reachable two_open_fields(1), of "open_alert ''1''"]
    by (simp only: two_open_fields Let_def) (auto simp: open_alert_def)
qed

end
