(* ===== verification/Translations.thy ===== *)
theory Translations
  imports HubScreens
begin

text \<open>
  What the application asks of its translations, \<open>src/i18n/en.json\<close>, which is the table that
  every language falls back to. \<open>plain_keys\<close> are its keys whose text has no placeholder and
  \<open>param_keys\<close> the others with the names of their placeholders. Two translation functions
  \<open>agree\<close> when they differ only on calls with a key that the table lacks or with a missing
  parameter. A component that gives the same result for any two such functions makes no such
  call: nowhere does it display a bare key or an unfilled placeholder. The title of an
  insight is the exception that the code provides for: its key comes from the server and has
  a default.
\<close>

section \<open>The table\<close>

definition plain_keys :: "string list" where
  "plain_keys =
     [''app.title'', ''app.live'', ''app.history'', ''history.range.1h'', ''history.range.6h'',
      ''history.range.24h'', ''history.range.7d'', ''history.loading'', ''history.empty'',
      ''history.error'', ''history.scrubber'', ''app.offline'', ''app.lastUpdate'',
      ''app.waiting'', ''app.loading'', ''app.apiUnavailable'', ''app.search'', ''card.cpu'',
      ''card.memory'', ''card.load'', ''card.containers'', ''card.healthy'', ''section.processes'',
      ''section.services'', ''nav.dashboard'', ''nav.processes'', ''nav.services'',
      ''nav.containers'', ''nav.hub'', ''nav.alerts'', ''nav.diagnostics'', ''hub.search'',
      ''hub.stale'', ''hub.status.live'', ''hub.status.stale'', ''hub.status.offline'',
      ''hub.filter.all'', ''hub.filter.live'', ''hub.filter.offline'', ''hub.lastDataAt'',
      ''hub.agent.back'', ''hub.agent.nav'', ''hub.tree.overview'', ''hub.tree.expand'',
      ''hub.tree.collapse'', ''hub.agent.missingId'', ''hub.settings.title'',
      ''hub.settings.subtitle'', ''hub.settings.edit'', ''hub.settings.save'',
      ''hub.settings.saving'', ''hub.settings.cancel'', ''hub.settings.saved'',
      ''hub.settings.loadError'', ''hub.settings.saveError'', ''hub.settings.loading'',
      ''hub.settings.cpuPercent'', ''hub.settings.memoryPercent'', ''hub.settings.diskPercent'',
      ''hub.settings.cooldownMinutes'', ''hub.settings.staleMultiplier'',
      ''hub.settings.diagnosticsTitle'', ''hub.settings.cpuSpikeMinPercent'',
      ''hub.settings.memoryPressurePercent'', ''hub.settings.diskFillingPercent'',
      ''hub.settings.containerRestartCount'', ''alerts.empty'', ''alerts.agent'', ''alerts.rule'',
      ''alerts.severity'', ''alerts.status'', ''alerts.firedAt'', ''alerts.actions'',
      ''alerts.ack'', ''alerts.acking'', ''alerts.silence'', ''alerts.silencing'',
      ''alerts.silence1h'', ''alerts.silence24h'', ''alerts.status.open'', ''alerts.status.ack'',
      ''alerts.status.resolved'', ''diagnostics.cpuSpike'', ''diagnostics.memoryPressure'',
      ''diagnostics.diskFilling'', ''diagnostics.containerFlap'', ''diagnostics.connectivityFail'',
      ''diagnostics.subtitle'', ''diagnostics.pageTitle'', ''diagnostics.empty'',
      ''diagnostics.allAgentsSubtitle'', ''diagnostics.evidence'', ''diagnostics.lastSeen'',
      ''diagnostics.reason.unknownError'', ''diagnostics.unknownContainer'',
      ''diagnostics.unknownTarget'', ''diagnostics.metric.mount'', ''diagnostics.metric.diskUsed'',
      ''diagnostics.metric.threshold'', ''diagnostics.metric.cpuCurrent'',
      ''diagnostics.metric.cpuPrevious'', ''diagnostics.metric.memory'',
      ''diagnostics.metric.memoryBytes'', ''diagnostics.metric.container'',
      ''diagnostics.metric.restarts'', ''diagnostics.metric.target'', ''diagnostics.metric.error'',
      ''diagnostics.metric.latency'', ''agent.hubHint'', ''containers.viewAll'',
      ''containers.pageTitle'', ''containers.search'', ''containers.noMatch'',
      ''containers.mobile.back'', ''containers.detail.title'', ''containers.detail.pick'',
      ''containers.detail.viewFull'', ''containers.detail.overview'',
      ''containers.tabs.noAgentMetrics'', ''containers.detail.copyId'',
      ''containers.detail.copied'', ''containers.detail.composePeers'',
      ''containers.detail.composePeersHint'', ''containers.detail.noComposePeers'',
      ''containers.detail.agentDashboard'', ''containers.detail.openAgentDashboard'',
      ''containers.detail.agentDashboardHint'', ''containers.detail.agentIframeTitle'',
      ''containers.detail.noAgentDashboard'', ''containers.metrics.title'',
      ''containers.metrics.viewFull'', ''containers.metrics.embedHint'',
      ''containers.metrics.hint'', ''containers.metrics.unavailable'',
      ''containers.metrics.pageTitle'', ''containers.metrics.back'',
      ''containers.metrics.containerNotFound'', ''containers.metrics.missingId'',
      ''containers.metrics.notAgent'', ''containers.metrics.hubUnavailable'',
      ''containers.metrics.agentBadge'', ''containers.metrics.switchContainer'',
      ''containers.metrics.agentShort'', ''containers.metrics.openFullPage'',
      ''services.detail.relatedProcesses'', ''services.detail.relatedProcessesHint'',
      ''services.detail.noRelatedProcesses'', ''processes.detail.relatedServices'',
      ''processes.detail.relatedServicesHint'', ''processes.detail.noRelatedServices'',
      ''link.matchLikely'', ''link.viewProcess'', ''link.viewService'', ''services.viewAll'',
      ''services.pageTitle'', ''services.search'', ''services.noMatch'', ''services.detail.title'',
      ''services.detail.pick'', ''services.detail.name'', ''services.detail.domain'',
      ''services.detail.shortName'', ''services.detail.description'', ''services.detail.viewFull'',
      ''services.detail.overview'', ''services.detail.breadcrumb'', ''services.detail.segments'',
      ''services.detail.segment'', ''services.detail.prefix'', ''services.detail.depth'',
      ''services.detail.vendor'', ''services.detail.parent'', ''services.detail.siblingCount'',
      ''services.detail.subtreeCount'', ''services.detail.subtreeRunning'',
      ''services.detail.subtreeStopped'', ''services.detail.subtreeError'',
      ''services.detail.siblings'', ''services.detail.siblingsHint'',
      ''services.detail.noSiblings'', ''services.detail.noDescription'',
      ''services.detail.copyId'', ''services.detail.copyDescription'', ''services.detail.copied'',
      ''services.sort.label'', ''services.sort.nameAsc'', ''services.sort.nameDesc'',
      ''services.sort.statusActive'', ''services.sort.statusProblem'', ''services.view.tree'',
      ''services.view.list'', ''section.disk'', ''section.network'', ''section.docker'',
      ''table.pid'', ''table.name'', ''table.cpu'', ''table.cpuSystem'', ''table.cpuCore'',
      ''table.cpuCores'', ''table.memory'', ''table.user'', ''table.status'', ''table.restarts'',
      ''table.ports'', ''table.mount'', ''table.used'', ''table.total'', ''table.rx'',
      ''table.tx'', ''network.avg'', ''network.instant'', ''empty.processes'', ''empty.services'',
      ''empty.disk'', ''empty.network'', ''empty.containers'', ''status.running'',
      ''status.exited'', ''status.unhealthy'', ''status.healthy'', ''status.error'',
      ''status.stopped'', ''lang.en'', ''lang.tr'', ''hub.title'', ''hub.agentCount'',
      ''hub.waiting'', ''hub.noAgents'', ''hub.disabled'', ''hub.error'', ''hub.lastSeen'',
      ''processes.loadMore'', ''processes.viewAll'', ''processes.pageTitle'', ''processes.back'',
      ''processes.search'', ''processes.noMatch'', ''processes.table.command'',
      ''processes.command.copy'', ''processes.command.copied'', ''processes.detail.title'',
      ''processes.detail.pick'', ''processes.detail.overview'', ''processes.detail.rank'',
      ''processes.detail.cpuSystem'', ''processes.detail.cpuPs'',
      ''processes.detail.cpuCoresUsed'', ''processes.detail.cpuMachineCores'',
      ''processes.detail.command'', ''processes.detail.copyPid'', ''processes.detail.sameUser'',
      ''processes.detail.sameUserHint'', ''processes.detail.noPeers'', ''container.close'',
      ''container.id'', ''container.image'', ''container.health'', ''container.health.none'',
      ''container.composeProject'', ''container.composeService'', ''cpu.hint.system'',
      ''cpu.hint.core'', ''cpu.hint.coresUsed'', ''cpu.hint.combined'', ''cpu.colSystem'',
      ''cpu.colCore'', ''unit.cores'', ''unit.pid'', ''unit.percentHint'']"

definition param_keys :: "(string \<times> string list) list" where
  "param_keys =
     [(''history.sampleCount'', [''count'']), (''hub.agent.title'', [''id'']),
      (''diagnostics.reason.generic'', [''type'']),
      (''diagnostics.reason.cpuSpike'', [''previous'', ''current'', ''threshold'']),
      (''diagnostics.reason.memoryPressure'', [''percent'', ''used'', ''total'', ''threshold'']),
      (''diagnostics.reason.diskFilling'', [''mount'', ''percent'', ''threshold'']),
      (''diagnostics.reason.diskFillingGeneric'', [''percent'', ''threshold'']),
      (''diagnostics.reason.containerFlap'', [''name'', ''count'', ''threshold'']),
      (''diagnostics.reason.connectivityFail'', [''target'', ''error'']),
      (''diagnostics.detail.cpuCurrent'', [''value'']),
      (''diagnostics.detail.cpuPrevious'', [''value'']),
      (''diagnostics.detail.memoryRatio'', [''value'']),
      (''diagnostics.detail.mount'', [''value'']), (''diagnostics.detail.diskUsed'', [''value'']),
      (''diagnostics.detail.containerName'', [''value'']),
      (''diagnostics.detail.restartCount'', [''count'']),
      (''diagnostics.detail.probeTarget'', [''value'']),
      (''diagnostics.detail.probeError'', [''value'']),
      (''diagnostics.detail.probeLatency'', [''ms'']),
      (''diagnostics.detail.threshold'', [''value'']),
      (''diagnostics.detail.memoryBytes'', [''used'', ''total'']),
      (''diagnostics.detail.restartThreshold'', [''count'']), (''containers.total'', [''count'']),
      (''containers.filtered'', [''count'', ''total'']),
      (''containers.detail.peersTruncated'', [''shown'', ''total'']),
      (''containers.metrics.processTruncated'', [''shown'', ''total'']),
      (''containers.metrics.serviceTruncated'', [''shown'', ''total'']),
      (''services.detail.relatedTruncated'', [''shown'', ''total'']),
      (''processes.detail.relatedTruncated'', [''shown'', ''total'']),
      (''services.total'', [''count'']), (''services.filtered'', [''count'', ''total'']),
      (''services.detail.siblingsTruncated'', [''shown'', ''total'']),
      (''time.ago.seconds'', [''count'']), (''time.ago.minutes'', [''count'']),
      (''time.ago.hours'', [''count'']), (''processes.dashboardShowing'', [''shown'', ''total'']),
      (''processes.showing'', [''shown'', ''total'']), (''processes.total'', [''count'']),
      (''processes.filtered'', [''count'', ''total'']),
      (''processes.detail.peersTruncated'', [''shown'', ''total'']),
      (''container.openDetail'', [''name'']), (''cpu.coresActive'', [''active'', ''total'']),
      (''cpu.loadAvg'', [''value'']), (''cpu.processTooltip'', [''system'', ''ps'', ''cores''])]"

section \<open>Calls that the table covers\<close>

definition agree_plain :: "(string \<Rightarrow> string) \<Rightarrow> (string \<Rightarrow> string) \<Rightarrow> bool" where
  "agree_plain t t' = list_all (\<lambda>k. t k = t' k) plain_keys"

definition agree_params :: "translate \<Rightarrow> translate \<Rightarrow> bool" where
  "agree_params t t' =
     list_all (\<lambda>(k, ps). \<forall>opts. list_all (\<lambda>p. p \<in> set (map fst opts)) ps \<longrightarrow> t k opts = t' k opts) param_keys"

definition agree :: "translate \<Rightarrow> translate \<Rightarrow> bool" where
  "agree t t' =
     (agree_plain (\<lambda>k. t k []) (\<lambda>k. t' k []) \<and> agree_params t t' \<and>
      (\<forall>k s. t k [(''defaultValue'', s)] = t' k [(''defaultValue'', s)]))"

lemma agree_plain: "agree t t' \<Longrightarrow> agree_plain (\<lambda>k. t k []) (\<lambda>k. t' k [])"
  by (simp add: agree_def)

lemma agree_default: "agree t t' \<Longrightarrow> t k [(''defaultValue'', s)] = t' k [(''defaultValue'', s)]"
  by (simp add: agree_def)

lemmas agree_plain_keys = agree_plain_def [unfolded plain_keys_def list.pred_inject, THEN iffD1]
lemma agree_param:
  assumes "agree t t'" and "(k, ps) \<in> set param_keys" and "list_all (\<lambda>p. p \<in> set (map fst opts)) ps"
  shows "t k opts = t' k opts"
  using assms by (fastforce simp: agree_def agree_params_def list_all_iff)

text \<open>The calls with parameters that the code makes.\<close>

lemma param_calls:
  assumes "agree t t'"
  shows "t ''time.ago.seconds'' [(''count'', c)] = t' ''time.ago.seconds'' [(''count'', c)]"
    "t ''time.ago.minutes'' [(''count'', c)] = t' ''time.ago.minutes'' [(''count'', c)]"
    "t ''time.ago.hours'' [(''count'', c)] = t' ''time.ago.hours'' [(''count'', c)]"
    "t ''cpu.coresActive'' [(''active'', a), (''total'', b)] = t' ''cpu.coresActive'' [(''active'', a), (''total'', b)]"
    "t ''diagnostics.reason.cpuSpike'' [(''current'', x), (''previous'', y), (''threshold'', z)] =
      t' ''diagnostics.reason.cpuSpike'' [(''current'', x), (''previous'', y), (''threshold'', z)]"
    "t ''diagnostics.reason.memoryPressure'' [(''used'', x), (''total'', y), (''percent'', z), (''threshold'', c)] =
      t' ''diagnostics.reason.memoryPressure'' [(''used'', x), (''total'', y), (''percent'', z), (''threshold'', c)]"
    "t ''diagnostics.reason.diskFilling'' [(''mount'', x), (''percent'', y), (''threshold'', z)] =
      t' ''diagnostics.reason.diskFilling'' [(''mount'', x), (''percent'', y), (''threshold'', z)]"
    "t ''diagnostics.reason.diskFillingGeneric'' [(''percent'', x), (''threshold'', y)] =
      t' ''diagnostics.reason.diskFillingGeneric'' [(''percent'', x), (''threshold'', y)]"
    "t ''diagnostics.reason.containerFlap'' [(''name'', x), (''count'', y), (''threshold'', z)] =
      t' ''diagnostics.reason.containerFlap'' [(''name'', x), (''count'', y), (''threshold'', z)]"
    "t ''diagnostics.reason.connectivityFail'' [(''target'', x), (''error'', y)] =
      t' ''diagnostics.reason.connectivityFail'' [(''target'', x), (''error'', y)]"
    "t ''diagnostics.reason.generic'' [(''type'', x)] = t' ''diagnostics.reason.generic'' [(''type'', x)]"
  by (rule agree_param [OF assms], (simp add: param_keys_def; fail), simp)+

section \<open>Components\<close>

lemma labels_agree:
  assumes "agree_plain t t'"
  shows "agentStatusLabel s t = agentStatusLabel s t'" "alertStatusLabel s2 t = alertStatusLabel s2 t'"
    "alerts_header t agent = alerts_header t' agent" "alert_buttons t v a = alert_buttons t' v a"
    "copy_label t l c = copy_label t' l c" "range_options t = range_options t'"
    "hub_tabs t f = hub_tabs t' f" "metrics_tabs t tab = metrics_tabs t' tab"
    "liveHistoryToggle t hv = liveHistoryToggle t' hv" "dashboard_alert t v a = dashboard_alert t' v a"
    "liveIndicator t lt dash lang b u = liveIndicator t' lt dash lang b u"
    "app_layout t mv m = app_layout t' mv m"
  by (simp_all add: agentStatusLabel_def alertStatusLabel_def alerts_header_def alert_buttons_def Let_def
      copy_label_def range_options_def hub_tabs_def metrics_tabs_def liveHistoryToggle_def dashboard_alert_def
      liveIndicator_def app_layout_def agree_plain_keys [OF assms] split: option.split)

lemma alerts_agree:
  assumes "agree_plain t t'"
  shows "alertsPage t agent agents v = alertsPage t' agent agents v"
    "dashboard_alerts t v = dashboard_alerts t' v"
  by (simp_all add: alertsPage_def alert_cells_def dashboard_alerts_def agree_plain_keys [OF assms] labels_agree [OF assms])

lemma settings_agree:
  assumes "agree_plain t t'"
  shows "hubAlertSettings t st = hubAlertSettings t' st"
proof -
  have "t (fst (field_hints f)) = t' (fst (field_hints f))" for f
    by (cases f) (simp_all add: agree_plain_keys [OF assms])
  then have "settings_fields t v = settings_fields t' v" for v
    by (simp add: settings_fields_def split_beta)
  moreover have "map_option t (sv_error v) = map_option t' (sv_error v)" if "view_settings st = Some v" for v
    using that by (auto simp: view_settings_def agree_plain_keys [OF assms] split: if_splits)
  ultimately show ?thesis
    by (simp add: hubAlertSettings_def agree_plain_keys [OF assms] split: option.split)
qed

lemma hub_cards_agree:
  assumes "agree t t'"
  shows "agent_card_of date now t = agent_card_of date now t'"
proof
  fix a
  have "relativeTime date now i t = relativeTime date now i t'" for i
    by (simp add: relativeTime_def Let_def param_calls [OF assms] split: option.split)
  then show "agent_card_of date now t a = agent_card_of date now t' a"
    by (simp add: agent_card_of_def Let_def labels_agree [OF agree_plain [OF assms]])
qed

lemma hub_agree:
  assumes "agree t t'"
  shows "hubPage date now t search f st agents = hubPage date now t' search f st agents"
proof -
  note plain = agree_plain [OF assms]
  show ?thesis
    by (simp add: hubPage_def hub_page_def Let_def hub_cards_agree [OF assms] agree_plain_keys [OF plain]
        labels_agree [OF plain] settings_agree [OF plain])
qed

lemma views_labels: "(seg, key, exact) \<in> set agentViews \<Longrightarrow> key \<in> set plain_keys"
  by (auto simp: agentViews_def plain_keys_def)

lemma sidebar_agree:
  assumes "agree_plain t t'"
  shows "hubSidebarNav collate t act active agents = hubSidebarNav collate t' act active agents"
proof -
  have "agent_entry_of t act active a = agent_entry_of t' act active a" for a
    using assms views_labels
    by (auto simp: agent_entry_of_def Let_def agree_plain_def list_all_iff intro!: arg_cong [where f = treeLeaf] map_cong)
  then show ?thesis by (simp add: hubSidebarNav_def Let_def agree_plain_keys [OF assms])
qed

lemma insights_agree:
  assumes "agree t t'"
  shows "diagnostic_panel num_str str_num collate t items = diagnostic_panel num_str str_num collate t' items"
proof -
  note plain = agree_plain [OF assms]
  have "reasonText num_str str_num t item = reasonText num_str str_num t' item" for item
    by (simp add: reasonText_def Let_def param_calls [OF assms] agree_plain_keys [OF plain] split: option.split)
  moreover have "metricsForItem num_str str_num t item = metricsForItem num_str str_num t' item" for item
    by (simp add: metricsForItem_def Let_def agree_plain_keys [OF plain] split: option.split)
  ultimately have "diagnostic_card_of num_str str_num t = diagnostic_card_of num_str str_num t'"
    by (simp add: diagnostic_card_of_def agree_default [OF assms] fun_eq_iff)
  then show ?thesis by (simp add: diagnostic_panel_def Let_def)
qed

lemma dashboard_agree:
  assumes "agree t t'"
  shows "dashboard_page t href hv st ctx = dashboard_page t' href hv st ctx"
    "summary_cards t p = summary_cards t' p" "own_cards t p = own_cards t' p"
  by (simp_all add: dashboard_page_def live_dashboard_def dashboard_cards_def summary_cards_def own_cards_def
      param_calls [OF assms] agree_plain_keys [OF agree_plain [OF assms]] split: option.split)

lemma containers_agree:
  assumes "agree t t'"
  shows "containersPage (\<lambda>k. t k []) date hv st sel ctx cst = containersPage (\<lambda>k. t' k []) date hv st sel ctx cst"
    "containerDetail date t test_base base host c own tab = containerDetail date t' test_base base host c own tab"
    "container_metrics_page date t test_base back_base base ps host own = container_metrics_page date t' test_base back_base base ps host own"
  subgoal by (simp add: containersPage_def containersWorkbench_def Let_def agree_plain_keys [OF agree_plain [OF assms]]
      cong: if_cong option.case_cong)
  subgoal by (simp add: containerDetail_def container_detail_content_def containerOverview_def Let_def dashboard_agree [OF assms] split: option.split)
  subgoal by (simp add: container_metrics_page_def metrics_tab_content_def containerMetricsOverview_def Let_def dashboard_agree [OF assms] split: option.split)
  done

lemma split_views_agree:
  assumes "agree_plain t t'"
  shows "processesPage collate t surface b date hv st sel ctx pst = processesPage collate t' surface b date hv st sel ctx pst"
    "servicesPage collate t surface b date hv st sel ctx sst = servicesPage collate t' surface b date hv st sel ctx sst"
  by (simp_all add: processesPage_def servicesPage_def processesContent_def servicesContent_def processSplitView_def
      serviceSplitView_def Let_def agree_plain_keys [OF assms] cong: if_cong option.case_cong)

lemma frame_agree:
  assumes "agree_plain t t'"
  shows "appHeader t lt dash k s p hv lc g = appHeader t' lt dash k s p hv lc g"
  by (simp add: appHeader_def labels_agree [OF assms] agree_plain_keys [OF assms])

text \<open>Keys that are displayed as they are stored.\<close>

lemma stored_keys:
  "set (map fst (process_columns narrow)) \<subseteq> set plain_keys"
  "set (map (fst \<circ> snd) agentNav) \<subseteq> set plain_keys"
  "set (wb_messages (history_workbench date hv st sel)) \<subseteq> set plain_keys"
  "container_metrics_page date t test_base back_base base ps host own = Metrics_Message m \<Longrightarrow> m \<in> set plain_keys"
proof -
  have "list_all (\<lambda>k. k \<in> set plain_keys)
    [''table.pid'', ''table.user'', ''table.cpu'', ''table.memory'', ''processes.table.command'',
     ''nav.dashboard'', ''nav.processes'', ''nav.services'', ''nav.containers'', ''history.loading'', ''history.empty'',
     ''containers.metrics.missingId'', ''containers.metrics.containerNotFound'', ''containers.metrics.notAgent'',
     ''containers.metrics.hubUnavailable'']"
    by (simp only: list.pred_inject, unfold plain_keys_def, intro conjI TrueI)
       (rule list.set_intros(1) | rule list.set_intros(2))+
  note known = this [unfolded list.pred_inject]
  show "set (map fst (process_columns narrow)) \<subseteq> set plain_keys" "set (map (fst \<circ> snd) agentNav) \<subseteq> set plain_keys"
    "set (wb_messages (history_workbench date hv st sel)) \<subseteq> set plain_keys"
    using known by (auto simp: process_columns_def agentNav_def history_workbench_def Let_def)
  show "container_metrics_page date t test_base back_base base ps host own = Metrics_Message m \<Longrightarrow> m \<in> set plain_keys"
    using known by (auto simp: container_metrics_page_def Let_def split: if_splits option.splits)
qed

section \<open>The views\<close>

text \<open>The views of all pages are the same for translations that agree, and the keys that they
  store are in the table.\<close>

lemma views_translated:
  assumes "agree t t'"
  shows "hubPage date now t search f settings agents = hubPage date now t' search f settings agents \<and>
    hubSidebarNav collate (\<lambda>k. t k []) act active agents = hubSidebarNav collate (\<lambda>k. t' k []) act active agents \<and>
    alertsPage (\<lambda>k. t k []) agent agents v = alertsPage (\<lambda>k. t' k []) agent agents v \<and>
    diagnostic_panel num_str str_num collate t items = diagnostic_panel num_str str_num collate t' items \<and>
    dashboard_page t href hv st ctx = dashboard_page t' href hv st ctx \<and>
    processesPage collate (\<lambda>k. t k []) surface b date hv st sel ctx pst =
      processesPage collate (\<lambda>k. t' k []) surface b date hv st sel ctx pst \<and>
    servicesPage collate (\<lambda>k. t k []) surface b date hv st sel ctx sst =
      servicesPage collate (\<lambda>k. t' k []) surface b date hv st sel ctx sst \<and>
    containersPage (\<lambda>k. t k []) date hv st sel ctx cst = containersPage (\<lambda>k. t' k []) date hv st sel ctx cst \<and>
    containerDetail date t test_base base host c own tab = containerDetail date t' test_base base host c own tab \<and>
    container_metrics_page date t test_base back_base base ps host own = container_metrics_page date t' test_base back_base base ps host own \<and>
    appHeader (\<lambda>k. t k []) lt dash sc sh p hv lc g = appHeader (\<lambda>k. t' k []) lt dash sc sh p hv lc g \<and>
    app_layout (\<lambda>k. t k []) mv m = app_layout (\<lambda>k. t' k []) mv m \<and>
    set (map fst (process_columns narrow) @ map (fst \<circ> snd) agentNav @ wb_messages (history_workbench date hv st sel))
      \<subseteq> set plain_keys"
proof -
  note plain = agree_plain [OF assms]
  show ?thesis
    using hub_agree [OF assms] sidebar_agree [OF plain] alerts_agree(1) [OF plain] insights_agree [OF assms]
      dashboard_agree(1) [OF assms] split_views_agree [OF plain] containers_agree [OF assms]
      frame_agree [OF plain] labels_agree(12) [OF plain] stored_keys(1-3)
    by (intro conjI) simp_all
qed

text \<open>Two translations that differ only on a key that is not in the table.\<close>

lemma agree_but_for_missing:
  "agree (\<lambda>k opts. k) (\<lambda>k opts. if k = ''hub.title.missing'' \<and> opts = [] then [] else k)"
proof -
  let ?t = "\<lambda>k opts. k" and ?t' = "\<lambda>k opts. if k = ''hub.title.missing'' \<and> opts = [] then [] else k"
  have "''hub.title.missing'' \<notin> set plain_keys" by (simp add: plain_keys_def)
  then have "agree_plain (\<lambda>k. ?t k []) (\<lambda>k. ?t' k [])" by (auto simp: agree_plain_def list_all_iff)
  moreover have "''hub.title.missing'' \<notin> fst ` set param_keys" by (simp add: param_keys_def)
  then have "agree_params ?t ?t'" by (force simp: agree_params_def list_all_iff)
  ultimately show ?thesis by (simp add: agree_def)
qed

end
