(* ===== verification/Application.thy ===== *)
theory Application
  imports ReplyOrder Translations
begin

text \<open>
  The application as a whole: \<open>src/app/router.tsx\<close>, \<open>AppLayout.tsx\<close>, \<open>AppShell.tsx\<close>,
  \<open>src/context/\<close> and \<open>HubAgentLayout.tsx\<close> put together. \<open>app_state\<close> is what the hooks of
  the mounted components hold at one moment, \<open>app_env\<close> what they are given from outside,
  and \<open>app_screen\<close> what is displayed at a location that the router matched. The contexts are
  passed down as the providers do: the history view by the layout, the metrics by the frame
  of an agent; without the latter a page falls back on the stream of the host.
\<close>

section \<open>State and environment\<close>

record app_env =
  e_t :: translate
  e_date :: date_parser
  e_now :: int
  e_collate :: "string \<Rightarrow> string \<Rightarrow> rat"
  e_num_str :: "rat \<Rightarrow> string"
  e_str_num :: "string \<Rightarrow> rat option"
  e_locale_time :: "int \<Rightarrow> string \<Rightarrow> string"
  e_local_string :: "int \<Rightarrow> string"
  e_axis_time :: "int \<Rightarrow> string"
  e_dash :: string
  e_shortcut :: string
  e_active :: active_link

text \<open>\<open>useMeta\<close> is called by the layout, and again by every call of \<open>useAgentBasePath\<close> in a page:
  each of these calls has a state and a request of its own, which is unanswered when the page
  mounts. The one in \<open>useHistorySamples\<close> is part of the dependencies in \<open>ap_hist\<close>.\<close>

datatype base_call = Dashboard_Link | Detail_Hub | Detail_Link | Metrics_Hub | Metrics_Back | Metrics_Links

record app_state =
  ap_meta :: meta_view
  ap_page_meta :: "base_call \<Rightarrow> meta_view"
  ap_metrics :: live_view
  ap_history :: history_view
  ap_locale :: locale_state
  ap_search :: string
  ap_agents :: "agent_summary list"
  ap_agent_metrics :: live_view
  ap_hist :: hist_state
  ap_selection :: selection
  ap_query :: params
  ap_processes :: process_page
  ap_services :: service_page
  ap_containers :: containers_state
  ap_tab :: container_tab
  ap_container :: container_view
  ap_copied :: "copy_button \<times> copy_button"
  ap_insights :: "string \<Rightarrow> diagnostic_item list"
  ap_alerts :: alerts_view
  ap_settings :: settings
  ap_hub_search :: string
  ap_hub_filter :: agent_list_filter

text \<open>A route of the table with its parameter: at the top, or below an agent.\<close>

datatype location = Top_Route page | Agent_Route string page

section \<open>Pages\<close>

datatype screen =
    Dashboard_Screen dashboard_view
  | Agent_Dashboard "dashboard_view \<times> (string \<times> string \<times> string \<times> tone \<times> bool option) list"
  | Processes_Screen "process_pane markup option page_view"
  | Services_Screen "service_pane markup option page_view"
  | Containers_Screen "(containers_screen option \<times> container_detail option) page_view"
  | Container_Metrics_Screen metrics_page_view
  | Hub_Screen hub_screen
  | Diagnostics_Screen diagnostics_page
  | Alerts_Screen alerts_screen
  | Go_To string
  | Thrown string

definition base_of :: "app_state \<Rightarrow> base_call \<Rightarrow> location \<Rightarrow> string" where
  "base_of st call loc =
     useAgentBasePath (mv_meta (ap_page_meta st call)) (case loc of Top_Route p \<Rightarrow> None | Agent_Route a p \<Rightarrow> Some a)
       (case loc of Top_Route p \<Rightarrow> None | Agent_Route a p \<Rightarrow> Some a)"

text \<open>The list with the detail of its selected container, in the metrics they are given.\<close>

definition containers_content ::
  "app_env \<Rightarrow> app_state \<Rightarrow> string \<Rightarrow> string \<Rightarrow> metrics_context \<Rightarrow>
   containers_screen option \<times> container_detail option" where
  "containers_content e st test_base base ctx =
     (containersWorkbench (\<lambda>k. e_t e k []) ctx (ap_containers st),
      (case containers_workbench ctx (ap_containers st) of
         Some (rows, Some c) \<Rightarrow> Some (containerDetail (e_date e) (e_t e) test_base base ctx c (ap_container st) (ap_tab st))
       | _ \<Rightarrow> None))"

definition render_page ::
  "app_env \<Rightarrow> app_state \<Rightarrow> history_view option \<Rightarrow> metrics_context option \<Rightarrow> location \<Rightarrow> page \<Rightarrow> screen" where
  "render_page e st provided_view provided_metrics loc p =
     (let t = (\<lambda>k. e_t e k []); base = (\<lambda>call. base_of st call loc);
          agent = (case loc of Top_Route _ \<Rightarrow> None | Agent_Route a _ \<Rightarrow> Some a);
          own = \<lparr> snapshot = lv_snapshot (ap_metrics st), live = lv_live (ap_metrics st),
            lastUpdate = lv_update (ap_metrics st) \<rparr>;
          ctx = useMetricsContext provided_metrics own;
          with_view = (\<lambda>f. case useHistoryView provided_view of Inl m \<Rightarrow> Thrown m | Inr hv \<Rightarrow> f hv) in
      case p of
        Dashboard \<Rightarrow>
          with_view (\<lambda>hv. let href = useAgentHref (base Dashboard_Link) (Some ''containers'') None in
            if agent = None then Dashboard_Screen (dashboard_page (e_t e) href hv (ap_hist st) ctx)
            else Agent_Dashboard (hub_agent_dashboard (e_t e) href hv (ap_hist st) ctx (ap_alerts st)))
      | Processes \<Rightarrow>
          with_view (\<lambda>hv. Processes_Screen (processesPage (e_collate e) t Page_Surface True (e_date e) hv
            (ap_hist st) (ap_selection st) ctx (ap_processes st)))
      | Services \<Rightarrow>
          with_view (\<lambda>hv. Services_Screen (servicesPage (e_collate e) t Page_Surface True (e_date e) hv
            (ap_hist st) (ap_selection st) ctx (ap_services st)))
      | Containers \<Rightarrow>
          with_view (\<lambda>hv. Containers_Screen (workbench_page Page_Surface (Some (t ''containers.pageTitle'')) (e_date e)
            hv (ap_hist st) (ap_selection st) ctx (containers_content e st (base Detail_Hub) (base Detail_Link))))
      | Container_Metrics \<Rightarrow>
          Container_Metrics_Screen (container_metrics_page (e_date e) (e_t e)
            (base Metrics_Hub) (base Metrics_Back) (base Metrics_Links) (ap_query st) ctx (ap_container st))
      | Hub_Overview \<Rightarrow>
          Hub_Screen (hubPage (e_date e) (e_now e) (e_t e) (ap_hub_search st) (ap_hub_filter st) (ap_settings st)
            (ap_agents st))
      | Diagnostics_Page \<Rightarrow>
          Diagnostics_Screen (diagnostics_page_view
            (diagnostic_panel (e_num_str e) (e_str_num e) (e_collate e) (e_t e)) agent (ap_agents st) (ap_insights st))
      | Alerts_Page \<Rightarrow> Alerts_Screen (alertsPage t agent (ap_agents st) (ap_alerts st))
      | Redirect_Hub \<Rightarrow> Go_To ''/hub''
      | Redirect_Home \<Rightarrow> Go_To ''/'')"

text \<open>What the outlet of the shell holds: a page, or the frame of an agent around one.\<close>

datatype outlet = Plain_Page screen | Agent_Page "string option" screen | No_Agent_Id string

definition outlet_of :: "app_env \<Rightarrow> app_state \<Rightarrow> history_view option \<Rightarrow> location \<Rightarrow> outlet" where
  "outlet_of e st provided_view loc =
     (case loc of
        Top_Route p \<Rightarrow> Plain_Page (render_page e st provided_view None loc p)
      | Agent_Route a p \<Rightarrow>
          (case hub_agent_layout (Some a) (ap_agents st) (ap_agent_metrics st) of
             Missing_Id \<Rightarrow> No_Agent_Id (e_t e ''hub.agent.missingId'' [])
           | Agent_Frame note ctx \<Rightarrow> Agent_Page note (render_page e st provided_view (Some ctx) loc p)))"

section \<open>The shell\<close>

datatype app_nav = Hub_Nav sidebar_nav | Agent_Nav "nav_link list"

record app_display =
  dp_title :: string
  dp_grid :: string
  dp_nav :: app_nav
  dp_version :: "string option"
  dp_hint :: "string option"
  dp_header :: app_header
  dp_outlet :: outlet

definition agent_nav_class :: "bool \<Rightarrow> string" where
  "agent_nav_class isActive =
     ''px-3 py-2 rounded-md text-sm whitespace-nowrap border-l-2 shrink-0 '' @
     (if isActive then ''bg-primary-container/30 text-primary border-primary''
      else ''text-on-surface-variant hover:bg-surface-high border-transparent'')"

definition appShell ::
  "app_env \<Rightarrow> app_state \<Rightarrow> history_view \<Rightarrow> shell \<Rightarrow> string \<Rightarrow> location \<Rightarrow> app_display" where
  "appShell e st hv s pathname loc =
     (let t = (\<lambda>k. e_t e k []); fr = app_shell s pathname;
          active_agent = (case loc of Top_Route _ \<Rightarrow> None | Agent_Route a _ \<Rightarrow> Some a) in
      \<lparr> dp_title = t ''app.title'',
        dp_grid = ''grid gap-1 '' @ (if sh_mode s = Hub_Mode then ''grid-cols-1''
          else ''grid-cols-2 sm:grid-cols-4 lg:flex lg:flex-col lg:overflow-x-visible''),
        dp_nav = (case fr_nav fr of
            None \<Rightarrow> Hub_Nav (hubSidebarNav (e_collate e) t (e_active e) active_agent (ap_agents st))
          | Some items \<Rightarrow> Agent_Nav (map (\<lambda>(to, key, exact).
              nav_link_of (e_active e) to exact agent_nav_class (t key)) items)),
        dp_version = fr_version fr,
        dp_hint = (if fr_hint fr then Some (t ''agent.hubHint'') else None),
        dp_header = appHeader t (e_locale_time e) (e_dash e) (e_shortcut e) s pathname hv (ap_locale st)
          (ap_search st),
        dp_outlet = outlet_of e st (Some hv) loc \<rparr>)"

text \<open>The layout provides the history view to the shell and everything in it.\<close>

datatype app_screen = Loading_Screen string | Message_Screen string | Shell_Screen app_display

definition app_screen :: "app_env \<Rightarrow> app_state \<Rightarrow> string \<Rightarrow> location \<Rightarrow> app_screen" where
  "app_screen e st pathname loc =
     (case app_layout (\<lambda>k. e_t e k []) (ap_meta st) (ap_metrics st) of
        App_Loading \<Rightarrow> Loading_Screen (e_t e ''app.loading'' [])
      | App_Message m \<Rightarrow> Message_Screen m
      | App_Shell s \<Rightarrow> Shell_Screen (appShell e st (ap_history st) s pathname loc))"

section \<open>Facts\<close>

text \<open>What a display holds in its outlet, if the application is past its start.\<close>

definition shown_screen :: "app_screen \<Rightarrow> screen option" where
  "shown_screen d =
     (case d of Shell_Screen dp \<Rightarrow>
        (case dp_outlet dp of Plain_Page s \<Rightarrow> Some s | Agent_Page note s \<Rightarrow> Some s | No_Agent_Id m \<Rightarrow> None)
      | _ \<Rightarrow> None)"

lemma shown_screen_eq:
  "shown_screen (app_screen e st path loc) = Some s \<longleftrightarrow>
    (\<exists>sh. app_layout (\<lambda>k. e_t e k []) (ap_meta st) (ap_metrics st) = App_Shell sh) \<and>
    (case loc of
       Top_Route p \<Rightarrow> s = render_page e st (Some (ap_history st)) None loc p
     | Agent_Route a p \<Rightarrow> a \<noteq> [] \<and> s = render_page e st (Some (ap_history st))
         (Some \<lparr> snapshot = lv_snapshot (ap_agent_metrics st), live = lv_live (ap_agent_metrics st),
            lastUpdate = lv_update (ap_agent_metrics st) \<rparr>) loc p)"
  by (auto simp: shown_screen_def app_screen_def appShell_def outlet_of_def hub_agent_layout_def given_def Let_def
      split: app_view.splits location.splits)

lemma containers_content_host:
  "containers_content e (st\<lparr> ap_metrics := m \<rparr>) = containers_content e st"
  "containers_content e (st\<lparr> ap_agent_metrics := m \<rparr>) = containers_content e st"
  by (simp_all add: containers_content_def fun_eq_iff split: option.split prod.split)

lemma base_of_host:
  "base_of (st\<lparr> ap_metrics := m \<rparr>) = base_of st" "base_of (st\<lparr> ap_agent_metrics := m \<rparr>) = base_of st"
  by (simp_all add: base_of_def fun_eq_iff)

lemma page_of_provided:
  "render_page e (st\<lparr> ap_metrics := m \<rparr>) v (Some c) loc p = render_page e st v (Some c) loc p"
  by (cases v; cases p)
     (simp_all add: render_page_def useHistoryView_def useMetricsContext_def Let_def containers_content_host base_of_host)

lemma page_of_host:
  "render_page e (st\<lparr> ap_agent_metrics := m \<rparr>) v c loc p = render_page e st v c loc p"
  by (cases v; cases p)
     (simp_all add: render_page_def useHistoryView_def Let_def containers_content_host base_of_host)

lemma same_outlet_same_screen:
  "outlet_of e (st\<lparr> ap_metrics := m \<rparr>) (Some (ap_history st)) loc = outlet_of e st (Some (ap_history st)) loc \<Longrightarrow>
     app_layout (\<lambda>k. e_t e k []) (ap_meta st) m = app_layout (\<lambda>k. e_t e k []) (ap_meta st) (ap_metrics st) \<Longrightarrow>
     app_screen e (st\<lparr> ap_metrics := m \<rparr>) path loc = app_screen e st path loc"
  "outlet_of e (st\<lparr> ap_agent_metrics := m' \<rparr>) (Some (ap_history st)) loc = outlet_of e st (Some (ap_history st)) loc \<Longrightarrow>
     app_screen e (st\<lparr> ap_agent_metrics := m' \<rparr>) path loc = app_screen e st path loc"
  by (simp_all add: app_screen_def appShell_def Let_def split: app_view.split option.split)

text \<open>In history mode these pages do not read the metrics they are given.\<close>

lemma workbench_history:
  "viewMode hv = History \<Longrightarrow>
     workbench_page Page_Surface title date hv st sel ctx content =
     workbench_page Page_Surface title date hv st sel ctx' content"
  by (simp add: workbench_page_def history_workbench_def Let_def split: children.split option.split)

lemma history_page_metrics:
  assumes "viewMode hv = History" and "p \<in> {Dashboard, Processes, Services, Containers}"
  shows "render_page e st (Some hv) c loc p = render_page e (st\<lparr> ap_metrics := m \<rparr>) (Some hv) c' loc p"
proof -
  have "processesPage collate t Page_Surface b date hv h sel ctx pst = processesPage collate t Page_Surface b date hv h sel ctx' pst"
    "servicesPage collate t Page_Surface b date hv h sel ctx sst = servicesPage collate t Page_Surface b date hv h sel ctx' sst"
    for collate t b date h sel ctx ctx' pst sst
    unfolding processesPage_def servicesPage_def by (rule workbench_history [OF assms(1)])+
  moreover have "dashboard_page t href hv h ctx = dashboard_page t href hv h ctx'" for t href h ctx ctx'
    using assms(1) by (simp add: dashboard_page_def)
  moreover note workbench_history [OF assms(1)]
  ultimately show ?thesis
    using assms(2)
    by (auto simp: render_page_def useHistoryView_def Let_def containers_content_host base_of_host hub_agent_dashboard_def)
qed

text \<open>A new offline status takes the application to the history, and only the user back.\<close>

lemma stays_in_history:
  "viewMode (lt_view l) = History \<Longrightarrow> Switched Live \<notin> set evs \<Longrightarrow> viewMode (lt_view (foldl layout_handle l evs)) = History"
proof (induction evs arbitrary: l)
  case (Cons ev evs)
  have "viewMode (lt_view (layout_handle l ev)) = History"
  proof (cases ev)
    case (Switched m)
    with Cons.prems show ?thesis by (cases m) (auto simp: setViewMode_def)
  qed (use Cons.prems in \<open>simp add: setViewMode_def\<close>)
  with Cons show ?case by simp
qed simp

lemma offline_run_in_history:
  assumes "isAgentOffline s" and "lt_status (layout_run hv before) \<noteq> Some s" and "Switched Live \<notin> set since"
  shows "viewMode (lt_view (layout_run hv (before @ Rendered s # since))) = History"
proof -
  have "viewMode (lt_view (layout_handle (layout_run hv before) (Rendered s))) = History"
    using assms(1,2) by (simp add: setViewMode_def)
  then show ?thesis using stays_in_history assms(3) by (simp add: layout_run_def)
qed

text \<open>The switch follows changes of the status, not of the agent: after the user switched back at
  one offline agent, another one with the same status is shown live; and from an offline
  agent the history is carried over to a live one.\<close>

lemma second_offline_agent_live:
  assumes "layout_status (Some b) agents = layout_status (Some a) agents"
  shows "viewMode (lt_view (layout_run hv
    [Rendered (layout_status (Some a) agents), Switched Live, Rendered (layout_status (Some b) agents)])) = Live"
  using assms by (simp add: layout_run_def setViewMode_def)

lemma live_agent_in_history:
  assumes "isAgentOffline (layout_status (Some a) agents)"
  shows "viewMode (lt_view (layout_run hv
    [Rendered (layout_status (Some a) agents), Rendered (layout_status (Some b) agents)])) = History"
  using assms by (auto simp: layout_run_def setViewMode_def)

text \<open>The detail of a container is live also in history mode.\<close>

lemma history_detail_is_live:
  assumes "viewMode hv = History" and "ap_tab st = Overview_Tab" and "cv_snapshot (ap_container st) = Some s"
    and "workbench_page Page_Surface title date hv h sel ctx (containers_content e st test_base base) =
      Page_Workbench title' bar banner ms (Some (scr, Some d))"
    and "cd_content d = Show_Overview v" and "co_cards v = Some cards"
  shows "cards = own_cards (e_t e) (payload s)"
proof -
  obtain c where "containers_content e st test_base base c = (scr, Some d)"
    using assms(1,4) by (auto simp: workbench_page_def Let_def history_workbench_def split: option.splits)
  with assms show ?thesis
    by (auto simp: containers_content_def containerDetail_def container_detail_content_def containerOverview_def Let_def
        split: option.splits prod.splits if_splits)
qed

text \<open>The locations of the table of routes.\<close>

definition served :: "location \<Rightarrow> bool" where
  "served loc =
     (case loc of Top_Route p \<Rightarrow> p \<in> snd ` set top_routes | Agent_Route a p \<Rightarrow> p \<in> snd ` set agent_routes)"

section \<open>Properties\<close>

text \<open>C4: the pages of an agent of the hub show nothing of the host that serves them, and the
  other pages show nothing of the metrics of an agent: in hub mode the whole display below an
  agent, sidebar and header included, is the same whatever the stream of the host says, and
  the display of any other location the same whatever the agent last visited says.\<close>

theorem agent_pages_isolated:
  assumes "is_hub (mv_meta (ap_meta st))"
  shows "app_screen e (st\<lparr> ap_metrics := m \<rparr>) path (Agent_Route a p) = app_screen e st path (Agent_Route a p) \<and>
    app_screen e (st\<lparr> ap_agent_metrics := m \<rparr>) path (Top_Route p) = app_screen e st path (Top_Route p)"
proof
  have "outlet_of e (st\<lparr> ap_metrics := m \<rparr>) v (Agent_Route a p) = outlet_of e st v (Agent_Route a p)" for v
    by (simp add: outlet_of_def page_of_provided split: agent_layout.split)
  moreover have "app_layout t (ap_meta st) m = app_layout t (ap_meta st) (ap_metrics st)" for t
    using assms by (auto simp: app_layout_def is_hub_def Let_def split: option.splits)
  ultimately show "app_screen e (st\<lparr> ap_metrics := m \<rparr>) path (Agent_Route a p) = app_screen e st path (Agent_Route a p)"
    by (rule same_outlet_same_screen(1))
  have "outlet_of e (st\<lparr> ap_agent_metrics := m \<rparr>) v (Top_Route p) = outlet_of e st v (Top_Route p)" for v
    by (simp add: outlet_of_def page_of_host split: agent_layout.split)
  then show "app_screen e (st\<lparr> ap_agent_metrics := m \<rparr>) path (Top_Route p) = app_screen e st path (Top_Route p)"
    by (rule same_outlet_same_screen(2))
qed

text \<open>C3: an offline agent is shown by its history: once the status of an agent becomes offline or
  stale, and until the user switches back, the whole display of its dashboard, its processes,
  services and containers is the same whatever its live metrics say.\<close>

theorem offline_agent_hides_live_data:
  assumes "isAgentOffline s" and "lt_status (layout_run hv before) \<noteq> Some s" and "Switched Live \<notin> set since"
    and "ap_history st = lt_view (layout_run hv (before @ Rendered s # since))"
    and "p \<in> {Dashboard, Processes, Services, Containers}"
  shows "app_screen e (st\<lparr> ap_agent_metrics := m \<rparr>) path (Agent_Route a p) = app_screen e st path (Agent_Route a p)"
proof -
  have hist: "viewMode (ap_history st) = History" using offline_run_in_history [OF assms(1-3)] assms(4) by simp
  have "render_page e st (Some (ap_history st)) c loc p = render_page e st (Some (ap_history st)) c' loc p" for c c' loc
    using history_page_metrics [OF hist assms(5), of e st c loc "ap_metrics st" c'] by simp
  then have "outlet_of e (st\<lparr> ap_agent_metrics := m \<rparr>) (Some (ap_history st)) (Agent_Route a p) =
      outlet_of e st (Some (ap_history st)) (Agent_Route a p)"
    by (simp add: outlet_of_def page_of_host hub_agent_layout_def)
  then show ?thesis by (rule same_outlet_same_screen(2))
qed

text \<open>C10: at the locations of the table of routes the application never fails for a missing
  provider; the insights are always those of a single agent and a table of alerts has the
  columns of a single agent: the variants of both pages for all agents cannot be reached.\<close>

theorem served_screens:
  assumes "served loc" and "shown_screen (app_screen e st path loc) = Some scr"
  shows "(\<forall>m. scr \<noteq> Thrown m) \<and>
    (\<forall>d. scr = Diagnostics_Screen d \<longrightarrow> (\<exists>h cards. d = Single_Diagnostics h cards)) \<and>
    (\<forall>v header rows. scr = Alerts_Screen v \<longrightarrow> as_body v = Alerts_Table header rows \<longrightarrow> length header = 5)"
proof (cases loc)
  case (Top_Route p)
  then have "p \<in> {Dashboard, Processes, Services, Containers, Container_Metrics, Hub_Overview, Redirect_Hub}"
    using assms(1) by (auto simp: served_def top_routes_def)
  with assms(2) Top_Route show ?thesis
    by (auto simp: shown_screen_eq render_page_def useHistoryView_def Let_def)
next
  case (Agent_Route a p)
  then have "p \<in> {Dashboard, Processes, Services, Containers, Container_Metrics, Diagnostics_Page, Alerts_Page}" and "a \<noteq> []"
    using assms by (auto simp: served_def agent_routes_def shown_screen_eq)
  with assms(2) Agent_Route show ?thesis
    by (auto simp: shown_screen_eq render_page_def useHistoryView_def Let_def diagnostics_page_view_def given_def
        alertsPage_def alerts_header_def split: if_splits)
qed

text \<open>A hub with one agent, for the closed instances.\<close>

definition demo_env :: app_env where
  "demo_env =
     \<lparr> e_t = (\<lambda>k opts. k), e_date = parse_iso, e_now = 0, e_collate = (\<lambda>a b. 0), e_num_str = (\<lambda>r. []),
       e_str_num = js_number, e_locale_time = (\<lambda>ms lang. []), e_local_string = (\<lambda>ms. []), e_axis_time = (\<lambda>ms. []), e_dash = ''-'', e_shortcut = ''K'',
       e_active = (\<lambda>target exact. False) \<rparr>"

definition demo_state :: "history_view \<Rightarrow> app_state" where
  "demo_state hv =
     \<lparr> ap_meta = \<lparr> mv_meta = Some hub_meta, mv_error = None \<rparr>,
       ap_page_meta = (\<lambda>call. \<lparr> mv_meta = Some hub_meta, mv_error = None \<rparr>), ap_metrics = live_init, ap_history = hv,
       ap_locale = \<lparr> lc_language = ''en'', lc_storage = Map.empty \<rparr>, ap_search = [], ap_agents = [],
       ap_agent_metrics = live_init, ap_hist = hist_mount 0 day_deps, ap_selection = selection_init Range_24h,
       ap_query = [], ap_processes = process_page_init [], ap_services = service_page_init Page_Surface [],
       ap_containers = containers_init [], ap_tab = Overview_Tab, ap_container = container_init,
       ap_copied = (copy_mount, copy_mount),
       ap_insights = (\<lambda>a. []), ap_alerts = alerts_init, ap_settings = settings_mount, ap_hub_search = [],
       ap_hub_filter = All_Agents \<rparr>"

theorem agent_pages_isolated_witness:
  "let st = demo_state history_view_init; m = live_apply parse_iso (snapshot_at ''x'') live_init in
    app_screen demo_env (st\<lparr> ap_metrics := m \<rparr>) ''/hub/agents/a'' (Agent_Route ''a'' Dashboard) =
      app_screen demo_env st ''/hub/agents/a'' (Agent_Route ''a'' Dashboard)"
  unfolding Let_def
  by (rule agent_pages_isolated [THEN conjunct1]) (simp add: demo_state_def is_hub_def hub_meta_def)

theorem offline_agent_hides_live_data_witness:
  "let st = demo_state (lt_view (layout_run history_view_init [Rendered (Some ''offline'')]));
     m = live_apply parse_iso (snapshot_at ''x'') live_init in
    app_screen demo_env (st\<lparr> ap_agent_metrics := m \<rparr>) ''/hub/agents/a'' (Agent_Route ''a'' Dashboard) =
      app_screen demo_env st ''/hub/agents/a'' (Agent_Route ''a'' Dashboard)"
  unfolding Let_def
  by (rule offline_agent_hides_live_data [of "Some ''offline''" history_view_init "[]" "[]"])
     (simp_all add: demo_state_def isAgentOffline_def layout_run_def)

theorem served_screens_witness:
  "\<exists>scr. shown_screen (app_screen demo_env (demo_state history_view_init) ''/hub/agents/a/alerts'' (Agent_Route ''a'' Alerts_Page)) =
      Some scr \<and> (\<forall>m. scr \<noteq> Thrown m)"
proof -
  let ?st = "demo_state history_view_init" and ?loc = "Agent_Route ''a'' Alerts_Page"
  have "\<exists>sh. app_layout (\<lambda>k. e_t demo_env k []) (ap_meta ?st) (ap_metrics ?st) = App_Shell sh"
    by (simp add: app_layout_def demo_state_def meta_loading_def given_def Let_def)
  then obtain scr where scr: "shown_screen (app_screen demo_env ?st ''/hub/agents/a/alerts'' ?loc) = Some scr"
    by (simp add: shown_screen_eq)
  moreover have "served ?loc" by (simp add: served_def agent_routes_def)
  ultimately show ?thesis using served_screens [of ?loc] by blast
qed

end
