(* ===== verification/Markup.thy ===== *)
theory Markup
  imports PageFrames
begin

text \<open>
  The small components as the elements they return, which the pages of \<open>Screens\<close> are
  built from: \<open>src/components/MetricCard.tsx\<close>, \<open>MetricTrendChart.tsx\<close>, \<open>PillTabs.tsx\<close>,
  \<open>SearchInput.tsx\<close>, \<open>CopyButton.tsx\<close>, \<open>HistoryTimeBar.tsx\<close>, \<open>ProcessDetailPanel.tsx\<close> and
  \<open>ServiceDetailPanel.tsx\<close>. An element is drawn from the record of its values. \<open>Plain\<close> is a
  text of the code or of its translations, \<open>Slot\<close> a value that is displayed. The handlers
  are the operations of the component theories; they and the keys are left out here.
  Characters without a code unit below 256 are written as character references
  (\<open>&mdash;\<close>). \<open>num\<close> prints a number.
\<close>

section \<open>Elements and their links\<close>

definition el :: "string \<Rightarrow> string \<Rightarrow> 'a markup list \<Rightarrow> 'a markup" where
  "el name cls xs = Element name [(''className'', cls)] xs"

definition link_el :: "string \<Rightarrow> string \<Rightarrow> 'a markup list \<Rightarrow> 'a markup" where
  "link_el target cls xs = Element ''Link'' [(''to'', target), (''className'', cls)] xs"

text \<open>What is passed to a layout is put into its place.\<close>

fun fill :: "'a markup markup \<Rightarrow> 'a markup" where
  "fill (Element name as xs) = Element name as (map fill xs)"
| "fill (Slot m) = m"
| "fill (Plain s) = Plain s"

text \<open>The targets of the links, in the order of the document.\<close>

fun links :: "'a markup \<Rightarrow> string list" where
  "links (Element name as xs) =
     (case map_of as ''to'' of None \<Rightarrow> [] | Some target \<Rightarrow> [target]) @ concat (map links xs)"
| "links (Slot a) = []"
| "links (Plain s) = []"

lemma links_el [simp]:
  "links (el name cls xs) = concat (map links xs)"
  "links (link_el target cls xs) = target # concat (map links xs)"
  "links (div_of cls xs) = concat (map links xs)"
  by (simp_all add: el_def link_el_def div_of_def)

lemma links_fill: "set (links (fill m)) = set (links m) \<union> (\<Union>x\<in>set (slots m). set (links x))"
  by (induction m) auto

lemma links_layout [simp]:
  "links (pageShell title variant xs) = []" "links (masterDetailLayout surface ratio m d) = []"
  "links (scrollPane cls xs) = []" "links (definitionList items) = []" "links (emptyState msg) = []"
  "links (errorBanner msg) = []" "links (statusPill label tone pulse) = []"
proof -
  have none: "concat (map (links \<circ> Slot) xs) = []" for xs :: "'b list" by (induction xs) simp_all
  then show "links (pageShell title variant xs) = []" "links (masterDetailLayout surface ratio m d) = []"
    "links (scrollPane cls xs) = []" "links (emptyState msg) = []"
    "links (errorBanner msg) = []" "links (statusPill label tone pulse) = []"
    by (auto simp: layout_defs emptyState_def errorBanner_def statusPill_def Let_def split: option.split)
  show "links (definitionList items) = []"
    by (induction items) (simp_all add: definitionList_def)
qed

section \<open>Controls\<close>

definition pillTabs_markup :: "('i, string) pill_tabs \<Rightarrow> 'a markup" where
  "pillTabs_markup p =
     (let n = show_nat (pt_columns p) in
      Element ''div''
        [(''className'', ''relative grid p-1 rounded-lg bg-surface-high border border-outline-variant gap-1''),
         (''style'', ''gridTemplateColumns: repeat('' @ n @ '', minmax(0, 1fr))'')]
        (Element ''span''
           [(''className'', ''absolute top-1 bottom-1 rounded-md bg-primary-container transition-all duration-200''),
            (''style'', ''left: calc('' @ show_int (pt_marker p) @ '' * (100% / '' @ n @
               '') + 4px), width: calc(100% / '' @ n @ '' - 8px)''),
            (''aria-hidden'', ''true'')] [] #
         map (\<lambda>b. Element ''button''
           [(''type'', ''button''),
            (''className'',
               ''relative z-10 px-4 py-2 rounded-md text-sm font-medium transition-colors text-center '' @
               (if tb_active b then ''text-white'' else ''text-on-surface-variant hover:text-on-surface''))]
           [Plain (tb_label b)]) (pt_buttons p)))"

definition searchInput_markup :: "search_input \<Rightarrow> 'a markup" where
  "searchInput_markup s =
     div_of ''relative''
       (Element ''input''
          [(''type'', ''search''), (''value'', si_value s), (''placeholder'', si_placeholder s),
           (''className'', ''w-full pl-3 pr-16 py-2 rounded-lg bg-surface-high border border-outline-variant '' @
              ''text-sm placeholder:text-on-surface-variant/70'')] [] #
        (case si_shortcut s of None \<Rightarrow> []
         | Some k \<Rightarrow> [el ''span'' (''absolute right-3 top-1/2 -translate-y-1/2 text-xs text-on-surface-variant '' @
             ''border border-outline-variant rounded px-1.5 py-0.5'') [Plain k]]))"

definition copyButton_markup :: "(string \<Rightarrow> string) \<Rightarrow> string option \<Rightarrow> copy_button \<Rightarrow> 'a markup" where
  "copyButton_markup t label cb =
     Element ''button''
       [(''type'', ''button''),
        (''className'', ''text-xs px-2 py-1 rounded border border-outline-variant '' @
           ''hover:bg-surface-high text-on-surface-variant''),
        (''aria-label'', case label of Some l \<Rightarrow> l | None \<Rightarrow> t ''containers.detail.copyId'')]
       [Plain (copy_label t label cb)]"

lemma links_controls [simp]:
  "links (pillTabs_markup p) = []" "links (searchInput_markup s) = []" "links (copyButton_markup t label cb) = []"
  by (auto simp: pillTabs_markup_def searchInput_markup_def copyButton_markup_def Let_def comp_def split: option.split)

section \<open>Cards and charts\<close>

definition bar_markup :: "(rat \<Rightarrow> string) \<Rightarrow> tone \<times> rat \<Rightarrow> 'a markup" where
  "bar_markup num = (\<lambda>(tn, w). Element ''div''
     [(''className'', ''h-full '' @ (case toneClass tn of None \<Rightarrow> ''undefined'' | Some c \<Rightarrow> c)),
      (''style'', ''width: '' @ num w @ ''%'')] [])"

definition metricCard_markup :: "(rat \<Rightarrow> string) \<Rightarrow> metric_card \<Rightarrow> string markup" where
  "metricCard_markup num c =
     div_of ''panel p-5 flex flex-col gap-3 min-w-0''
       ([div_of ''label-caps'' [Plain (mc_label c)], div_of ''text-xl font-semibold mono truncate'' [Slot (mc_value c)]] @
        (case mc_subtitle c of None \<Rightarrow> []
         | Some s \<Rightarrow> [div_of ''text-xs text-on-surface-variant mono'' [Slot s]]) @
        (case mc_bar c of None \<Rightarrow> []
         | Some b \<Rightarrow> [div_of ''h-2 rounded-full bg-surface-highest overflow-hidden'' [bar_markup num b]]))"

text \<open>A chart prints three values: the last one above it, and the top and the middle of its
  axis. \<open>fmt\<close> is \<open>formatValue\<close>.\<close>

definition axis_labels :: "(rat \<Rightarrow> string) \<Rightarrow> trend_chart \<Rightarrow> string list" where
  "axis_labels fmt ch = [fmt (ch_ymax ch), fmt (ch_ymax ch / 2)]"

definition axis_text :: "(rat \<Rightarrow> string) \<Rightarrow> (string \<times> rat) \<times> (string \<times> rat) \<times> bool \<Rightarrow> string \<Rightarrow> string markup" where
  "axis_text num = (\<lambda>((xs, x), (ys, y), at_end) label. Element ''text''
     ([(xs, num x), (ys, num y)] @ (if at_end then [(''textAnchor'', ''end'')] else []) @
      [(''className'', ''fill-on-surface-variant text-[10px]'')]) [Slot label])"

definition trendChart_markup ::
  "(rat \<Rightarrow> string) \<Rightarrow> string \<Rightarrow> (rat \<Rightarrow> string) \<Rightarrow> string \<Rightarrow> trend_chart option \<Rightarrow> string markup" where
  "trendChart_markup num label fmt color chart =
     (case chart of
        None \<Rightarrow> div_of ''panel p-4''
          [el ''h3'' ''label-caps mb-2'' [Plain label],
           div_of ''h-[140px] flex items-center justify-center text-sm text-on-surface-variant'' [Plain ''&mdash;'']]
      | Some ch \<Rightarrow>
          (let baseline = num (pad_top + (chart_height - pad_top - pad_bottom));
               left = pad_left - 6; foot = chart_height - 6 in
           div_of ''panel p-4''
             [div_of ''flex items-baseline justify-between gap-2 mb-3''
                [el ''h3'' ''label-caps'' [Plain label],
                 el ''span'' ''text-sm mono text-primary'' [Slot (fmt (point_value (ch_last ch)))]],
              Element ''svg''
                [(''viewBox'', ''0 0 '' @ num chart_width @ '' '' @ num chart_height), (''className'', ''w-full h-auto''),
                 (''role'', ''img''), (''aria-label'', label)]
                [Element ''line'' [(''x1'', num pad_left), (''y1'', baseline), (''x2'', num (chart_width - pad_right)),
                   (''y2'', baseline), (''stroke'', ''var(--color-outline-variant)''), (''strokeWidth'', ''1'')] [],
                 axis_text num ((''x'', left), (''y'', ch_ytop ch + 4), True) (axis_labels fmt ch ! 0),
                 axis_text num ((''x'', left), (''y'', ch_ymid ch + 4), True) (axis_labels fmt ch ! 1),
                 Element ''path'' [(''d'', ch_area ch), (''fill'', color), (''fillOpacity'', ''0.2'')] [],
                 Element ''path'' [(''d'', ch_line ch), (''fill'', ''none''), (''stroke'', color), (''strokeWidth'', ''2''),
                   (''strokeLinejoin'', ''round'')] [],
                 axis_text num ((''x'', pad_left), (''y'', foot), False) (ch_firstLabel ch),
                 axis_text num ((''x'', chart_width - pad_right), (''y'', foot), True) (ch_lastLabel ch)]]))"

lemma links_cards [simp]:
  "links (bar_markup num b) = []" "links (metricCard_markup num c) = []"
  "links (trendChart_markup num label fmt color ch) = []"
  by (auto simp: bar_markup_def metricCard_markup_def trendChart_markup_def axis_text_def Let_def
      split: option.split prod.split)

section \<open>The time bar\<close>

definition sample_count :: "translate \<Rightarrow> nat \<Rightarrow> string" where
  "sample_count t n = t ''history.sampleCount'' [(''count'', Number (Some (of_nat n)))]"

definition timeRangePicker :: "(string \<Rightarrow> string) \<Rightarrow> history_range \<Rightarrow> 'a markup" where
  "timeRangePicker t r = pillTabs_markup (segmentedControl (range_options t) r)"

definition historyTimeBar_markup :: "translate \<Rightarrow> time_bar \<Rightarrow> string markup" where
  "historyTimeBar_markup t b =
     div_of ''panel p-3 mb-4 space-y-3 shrink-0''
       (div_of ''flex flex-col sm:flex-row sm:items-center gap-3''
          [timeRangePicker (\<lambda>k. t k []) (tb_range b),
           el ''span'' ''text-xs text-on-surface-variant'' [Plain (sample_count t (tb_count b))]] #
        (if tb_slider b then
          [div_of ''space-y-1''
             [div_of ''flex items-center justify-between gap-2 text-xs text-on-surface-variant''
                (Element ''span'' [] [Plain (t ''history.scrubber'' [])] #
                 (case tb_collected b of None \<Rightarrow> []
                  | Some c \<Rightarrow> if c = [] then [] else [el ''span'' ''mono'' [Slot c]])),
              Element ''input''
                ([(''type'', ''range''), (''min'', ''0''), (''max'', show_int (tb_max b)), (''value'', show_int (tb_value b)),
                  (''className'', ''w-full accent-primary'')] @
                 (if tb_disabled b then [(''disabled'', ''true'')] else [])) []]]
         else []))"

lemma links_time_bar [simp]: "links (timeRangePicker tr r) = []" "links (historyTimeBar_markup t b) = []"
  by (auto simp: timeRangePicker_def historyTimeBar_markup_def split: option.split)

section \<open>The details of a process and a service\<close>

text \<open>The list of related items: target, title and text of each link.\<close>

definition related_markup :: "string \<Rightarrow> string \<Rightarrow> string \<Rightarrow> (string \<times> string \<times> string) list \<Rightarrow> string markup" where
  "related_markup heading hint nothing items =
     div_of ''min-w-0 flex-1 overflow-y-auto''
       [div_of ''label-caps mb-2'' [Plain heading],
        el ''p'' ''text-xs text-on-surface-variant mb-2'' [Plain hint],
        (if items = [] then el ''p'' ''text-sm text-on-surface-variant'' [Plain nothing]
         else el ''ul'' ''space-y-2'' (map (\<lambda>(target, title, label).
           el ''li'' ''min-w-0''
             [Element ''Link''
                [(''to'', target), (''className'', ''text-sm text-primary hover:underline mono block truncate''),
                 (''title'', title)] [Slot label]]) items))]"

definition processDetailPanel :: "(string \<Rightarrow> string) \<Rightarrow> bool \<Rightarrow> process_detail \<Rightarrow> string markup" where
  "processDetailPanel t narrow d =
     div_of (''panel space-y-4 h-full overflow-hidden flex flex-col min-w-0 '' @ (if narrow then ''p-4'' else ''p-5''))
       [el ''h2'' (''font-semibold shrink-0 '' @ (if narrow then ''text-base'' else ''text-lg''))
          [Plain (t ''processes.detail.title'')],
        definitionList (map (\<lambda>(k, v). \<lparr> di_label = t k, di_value = v, di_mono = None \<rparr>) (pd_values d)),
        div_of ''min-w-0''
          [div_of ''label-caps mb-2'' [Plain (t ''processes.detail.command'')],
           el ''pre'' (''mono text-xs bg-surface-high p-3 rounded-lg overflow-hidden whitespace-pre-wrap break-all '' @
             ''overflow-y-auto '' @ (if narrow then ''max-h-28'' else ''max-h-40'')) [Slot (pd_command d)]],
        related_markup (t ''processes.detail.relatedServices'') (t ''processes.detail.relatedServicesHint'')
          (t ''processes.detail.noRelatedServices'') (map (\<lambda>(target, label). (target, label, label)) (pd_related d))]"

definition serviceDetailPanel :: "(string \<Rightarrow> string) \<Rightarrow> bool \<Rightarrow> service_detail \<Rightarrow> string markup" where
  "serviceDetailPanel t narrow d =
     div_of (''panel space-y-4 h-full max-h-full overflow-hidden flex flex-col min-w-0 '' @
         (if narrow then ''p-4'' else ''p-5''))
       [el ''h2'' (''font-semibold '' @ (if narrow then ''text-base'' else ''text-lg''))
          [Plain (t ''services.detail.title'')],
        statusPill (sd_status d) (sd_tone d) (sd_pulse d),
        definitionList
          [\<lparr> di_label = t ''services.detail.name'', di_value = sd_name d, di_mono = None \<rparr>,
           \<lparr> di_label = t ''services.detail.description'',
             di_value = (case sd_description d of None \<Rightarrow> ''&mdash;'' | Some s \<Rightarrow> s), di_mono = Some False \<rparr>],
        Element ''div'' []
          [div_of ''label-caps mb-2'' [Plain (t ''services.detail.breadcrumb'')],
           div_of ''text-sm mono text-on-surface-variant break-all'' [Slot (join '' &rsaquo; '' (sd_path d))]],
        related_markup (t ''services.detail.relatedProcesses'') (t ''services.detail.relatedProcessesHint'')
          (t ''services.detail.noRelatedProcesses'')
          (map (\<lambda>(target, label, cmd). (target, cmd, label @ '' &mdash; '' @ cmd)) (sd_related d))]"

lemma links_related: "links (related_markup heading hint nothing items) = map fst items"
proof -
  have "concat (map (\<lambda>x. [fst x]) items) = map fst items" by (induction items) simp_all
  then show ?thesis by (simp add: related_markup_def comp_def split_beta)
qed

lemma links_details [simp]:
  "links (processDetailPanel t narrow d) = map fst (pd_related d)"
  "links (serviceDetailPanel t narrow d') = map fst (sd_related d')"
  by (simp_all add: processDetailPanel_def serviceDetailPanel_def links_related comp_def split_beta)

end
