(* ===== verification/Screens.thy ===== *)
theory Screens
  imports HubScreens Markup
begin

text \<open>
  What the pages return, with their headings, labels and links, drawn from the views of the
  component theories: \<open>src/routes/dashboard/\<close>, \<open>src/components/ProcessSplitView.tsx\<close>,
  \<open>ServiceSplitView.tsx\<close>, \<open>HistoryWorkbench.tsx\<close> and \<open>DiagnosticPanel.tsx\<close>,
  \<open>src/routes/containers/\<close>, \<open>src/routes/container-metrics/\<close>,
  \<open>src/routes/diagnostics/DiagnosticsPage.tsx\<close>, \<open>src/routes/hub/HubAgentLayout.tsx\<close> and
  \<open>HubAgentDashboard.tsx\<close>. The conventions are those of \<open>Markup\<close>. The facts give the links
  of each page.
\<close>

section \<open>Shared parts\<close>

definition page_of :: "string option \<Rightarrow> page_variant \<Rightarrow> string markup list \<Rightarrow> string markup" where
  "page_of title variant xs = fill (pageShell (map_option Plain title) variant xs)"

lemma links_page_of: "set (links (page_of title variant xs)) = (\<Union>x\<in>set xs. set (links x))"
  by (auto simp: page_of_def links_fill pageShell_slots split: option.splits)

text \<open>A section with a table: the class of its head, and class and text of each heading.\<close>

definition table_section :: "string \<Rightarrow> string \<Rightarrow> (string \<times> string) list \<Rightarrow> string markup list \<Rightarrow> string markup" where
  "table_section heading head_cls columns rows =
     el ''section'' ''panel p-4''
       [el ''h2'' ''label-caps mb-4'' [Plain heading],
        div_of ''overflow-x-auto''
          [el ''table'' ''w-full text-sm''
             [Element ''thead'' [] [el ''tr'' head_cls (map (\<lambda>(cls, label). el ''th'' cls [Plain label]) columns)],
              Element ''tbody'' [] rows]]]"

definition disk_columns :: "(string \<Rightarrow> string) \<Rightarrow> (string \<times> string) list" where
  "disk_columns t =
     [(''pb-2'', t ''table.mount''), (''pb-2'', t ''table.name''), (''pb-2 text-right'', t ''table.used''),
      (''pb-2 text-right'', t ''table.total'')]"

definition network_columns :: "(string \<Rightarrow> string) \<Rightarrow> (string \<times> string) list" where
  "network_columns t =
     [(''pb-2'', t ''table.name''), (''pb-2 text-right'', t ''table.rx''), (''pb-2 text-right'', t ''table.tx'')]"

definition network_row_markup :: "string \<times> string \<times> string \<Rightarrow> string markup" where
  "network_row_markup = (\<lambda>(name, received, sent). el ''tr'' ''border-t border-outline-variant/50''
     [el ''td'' ''py-2 mono'' [Slot name], el ''td'' ''py-2 text-right mono'' [Slot received],
      el ''td'' ''py-2 text-right mono'' [Slot sent]])"

definition tile_markup :: "(string \<Rightarrow> string) \<Rightarrow> container_tile \<Rightarrow> string markup" where
  "tile_markup t c =
     link_el (ct_link c) ''p-3 rounded-lg border border-outline-variant hover:bg-surface-high''
       [div_of ''flex items-center gap-2 mb-1''
          (el ''span'' ''text-sm font-medium truncate'' [Slot (ct_name c)] #
           (if ct_agent c then [el ''span'' ''text-xs text-tertiary'' [Plain (t ''containers.metrics.agentShort'')]] else [])),
        statusPill (ct_label c) (ct_tone c) False]"

text \<open>The section of containers is absent when there are none.\<close>

definition tiles_markup :: "(string \<Rightarrow> string) \<Rightarrow> container_tile list \<Rightarrow> string markup list" where
  "tiles_markup t tiles =
     (if tiles = [] then []
      else [el ''section'' ''panel p-4''
        [el ''h2'' ''label-caps mb-4'' [Plain (t ''section.docker'')],
         div_of ''grid grid-cols-1 sm:grid-cols-2 lg:grid-cols-3 gap-3'' (map (tile_markup t) tiles)]])"

section \<open>The dashboard\<close>

definition disk_row_markup :: "(rat \<Rightarrow> string) \<Rightarrow> disk_row \<Rightarrow> string markup" where
  "disk_row_markup num d =
     el ''tr'' ''border-t border-outline-variant/50''
       [Element ''td'' [(''className'', ''py-2 mono max-w-[10rem] truncate''), (''title'', dr_mount d)] [Slot (dr_mount d)],
        el ''td'' ''py-2 text-on-surface-variant text-xs'' [Slot (dr_filesystem d)],
        el ''td'' ''py-2''
          [div_of ''flex items-center gap-2 justify-end''
             [div_of ''hidden sm:block w-20 h-1.5 rounded-full bg-surface-highest overflow-hidden shrink-0''
                [bar_markup num (dr_bar d)],
              el ''span'' ''mono text-right w-12 shrink-0'' [Slot (dr_used d)]]],
        el ''td'' ''py-2 text-right mono text-on-surface-variant'' [Slot (dr_total d)]]"

definition live_dashboard_markup :: "(rat \<Rightarrow> string) \<Rightarrow> (string \<Rightarrow> string) \<Rightarrow> dashboard \<Rightarrow> string markup" where
  "live_dashboard_markup num t d =
     page_of (Some (t ''nav.dashboard'')) Scroll_Variant
       ([div_of ''grid grid-cols-1 sm:grid-cols-2 xl:grid-cols-4 gap-4'' (map (metricCard_markup num) (db_cards d)),
         div_of ''grid grid-cols-1 lg:grid-cols-2 gap-4''
           [table_section (t ''section.disk'') ''text-left label-caps border-b border-outline-variant'' (disk_columns t)
              (map (disk_row_markup num) (db_disks d)),
            table_section (t ''section.network'') ''text-left label-caps border-b border-outline-variant''
              (network_columns t) (map network_row_markup (db_networks d))]] @
        tiles_markup t (db_tiles d))"

text \<open>The charts with their labels, data, greatest value, format and colour.\<close>

definition count_text :: "rat \<Rightarrow> string" where
  "count_text v = show_int (js_round v)"

definition chart_list ::
  "(string \<Rightarrow> string) \<Rightarrow> history_charts \<Rightarrow>
   (string \<times> history_point list \<times> rat \<times> (rat \<Rightarrow> string) \<times> string) list" where
  "chart_list t c =
     (let usual = ''var(--color-primary-container)'' in
      [(t ''card.cpu'', hc_cpu c, 100, formatPercent, usual), (t ''card.memory'', hc_memory c, 100, formatPercent, usual)] @
      (case hc_disk c of None \<Rightarrow> [] | Some d \<Rightarrow> [(t ''section.disk'', d, 100, formatPercent, usual)]) @
      (case hc_containers c of None \<Rightarrow> []
       | Some (ps, m) \<Rightarrow> [(t ''card.containers'', ps, m, count_text, ''var(--color-tertiary)'')]))"

definition history_dashboard_markup ::
  "(rat \<Rightarrow> string) \<Rightarrow> date_parser \<Rightarrow> (int \<Rightarrow> string) \<Rightarrow> translate \<Rightarrow> history_dashboard \<Rightarrow> string markup" where
  "history_dashboard_markup num date locale_string t d =
     (let tr = (\<lambda>k. t k []) in
      page_of (Some (tr ''nav.dashboard'')) Scroll_Variant
        ([div_of ''flex flex-col sm:flex-row sm:items-center gap-3 mb-2''
            [timeRangePicker tr (hd_range d),
             el ''span'' ''text-xs text-on-surface-variant'' [Plain (sample_count t (hd_count d))]]] @
         (if hd_error d then [errorBanner (tr ''history.error'')] else []) @
         map (\<lambda>k. emptyState (tr k)) (hd_messages d) @
         (case hd_charts d of None \<Rightarrow> []
          | Some c \<Rightarrow> [div_of ''grid grid-cols-1 lg:grid-cols-2 gap-4''
              (map (\<lambda>(label, points, m, fmt, color).
                trendChart_markup num label fmt color (metricTrendChart date locale_string m points))
                (chart_list tr c))])))"

definition dashboard_markup ::
  "(rat \<Rightarrow> string) \<Rightarrow> date_parser \<Rightarrow> (int \<Rightarrow> string) \<Rightarrow> translate \<Rightarrow> dashboard_view \<Rightarrow> string markup" where
  "dashboard_markup num date locale_string t v =
     (case v of
        Dash_History d \<Rightarrow> history_dashboard_markup num date locale_string t d
      | Dash_Waiting \<Rightarrow> emptyState (t ''app.waiting'' [])
      | Dash_Live d \<Rightarrow> live_dashboard_markup num (\<lambda>k. t k []) d)"

section \<open>The workbench\<close>

definition workbench_markup :: "translate \<Rightarrow> ('a \<Rightarrow> string markup) \<Rightarrow> 'a page_view \<Rightarrow> string markup" where
  "workbench_markup t content v =
     (case v of
        Page_Waiting k \<Rightarrow> emptyState (t k [])
      | Page_Embedded c \<Rightarrow> content c
      | Page_Workbench title bar banner messages c \<Rightarrow>
          page_of title Workbench_Variant
            ((case bar of None \<Rightarrow> [] | Some b \<Rightarrow> [historyTimeBar_markup t b]) @
             (if banner then [errorBanner (t ''history.error'' [])] else []) @
             map (\<lambda>k. emptyState (t k [])) messages @
             (case c of None \<Rightarrow> [] | Some x \<Rightarrow> [content x])))"

section \<open>Processes and services\<close>

text \<open>Class of the heading and of the cell in a column.\<close>

definition process_column_class :: "string \<Rightarrow> string \<times> string" where
  "process_column_class key =
     (if key = ''table.pid'' then (''p-2.5 w-16 cursor-pointer'', ''p-2.5 mono'')
      else if key = ''table.user'' then (''p-2.5 w-24 cursor-pointer'', ''p-2.5 truncate'')
      else if key = ''processes.table.command'' then (''p-2.5'', ''p-2.5 mono truncate'')
      else (''p-2.5 w-14 text-right cursor-pointer'', ''p-2.5 text-right mono''))"

definition process_cell_markup :: "string \<Rightarrow> string \<Rightarrow> string markup" where
  "process_cell_markup key cell =
     Element ''td'' ((''className'', snd (process_column_class key)) #
       (if key = ''processes.table.command'' then [(''title'', cell)] else [])) [Slot cell]"

fun process_pane_markup :: "(string \<Rightarrow> string) \<Rightarrow> bool \<Rightarrow> process_pane \<Rightarrow> string markup" where
  "process_pane_markup t narrow (Process_Master s columns rows) =
     div_of ''flex flex-col h-full min-h-0 overflow-hidden''
       [div_of ''p-3 border-b border-outline-variant shrink-0'' [searchInput_markup s],
        fill (scrollPane []
          [el ''table'' (''w-full text-sm '' @ (if narrow then [] else ''table-fixed''))
             [el ''thead'' ''sticky top-0 bg-surface z-10''
                [el ''tr'' ''text-left label-caps border-b border-outline-variant''
                   (map (\<lambda>(key, _). el ''th'' (fst (process_column_class key)) [Plain (t key)]) columns)],
              Element ''tbody'' [] (map (\<lambda>(cells, marked).
                el ''tr'' (''border-b border-outline-variant/40 cursor-pointer hover:bg-surface-high border-l-2 '' @
                    (if marked then ''bg-primary-container/15 border-l-primary'' else ''border-l-transparent''))
                  (map (\<lambda>((key, _), cell). process_cell_markup key cell) (zip columns cells))) rows)]])]"
| "process_pane_markup t narrow (Process_Detail d) = processDetailPanel t narrow d"
| "process_pane_markup t narrow (Pick_Process hint) =
     div_of ''panel p-8 text-center text-on-surface-variant h-full flex items-center justify-center'' [Plain hint]"

definition indent_style :: "nat \<Rightarrow> nat \<Rightarrow> string \<times> string" where
  "indent_style depth indent = (''style'', ''paddingLeft: '' @ show_nat (depth * 16 + indent))"

definition service_pill :: "service_info \<Rightarrow> string markup" where
  "service_pill s = statusPill (s_status s) (serviceStatusTone (s_status s)) (s_status s = ''RUNNING'')"

text \<open>The rows of the tree and of the list look different.\<close>

fun tree_row_markup :: "row \<times> bool \<Rightarrow> string markup" where
  "tree_row_markup (Branch_Row path name depth opened, marked) =
     Element ''button''
       [(''type'', ''button''), indent_style depth 0,
        (''className'', ''w-full text-left py-1.5 pr-3 flex items-center gap-2 hover:bg-surface-high min-w-0'')]
       [Element ''span''
          [(''className'', ''text-on-surface-variant w-4 shrink-0 text-center''), (''aria-hidden'', ''true'')]
          [Plain (if opened then ''&#9662;'' else ''&#9656;'')],
        el ''span'' ''text-sm text-on-surface-variant truncate border-l border-outline-variant pl-2 min-w-0'' [Slot name]]"
| "tree_row_markup (Service_Row s depth label tn, marked) =
     Element ''button''
       [(''type'', ''button''), indent_style depth 20,
        (''className'', ''w-full text-left py-2 pr-3 flex items-center justify-between gap-2 border-l-2 min-w-0 '' @
           (if marked then ''bg-primary-container/15 border-l-primary''
            else ''border-l-transparent hover:bg-surface-high''))]
       [Element ''span'' [(''className'', ''mono text-sm truncate min-w-0''), (''title'', serviceName s)] [Slot label],
        service_pill s]"

definition list_row_markup :: "row \<times> bool \<Rightarrow> string markup" where
  "list_row_markup = (\<lambda>(r, marked).
     Element ''button''
       [(''type'', ''button''),
        (''className'', ''w-full text-left p-3 flex items-center justify-between gap-2 '' @
           ''border-b border-outline-variant/40 border-l-2 hover:bg-surface-high '' @
           (if marked then ''bg-primary-container/15 border-l-primary'' else ''border-l-transparent''))]
       [el ''span'' ''mono text-sm break-all'' [Slot (serviceName (row_service r))], service_pill (row_service r)])"

fun service_pane_markup :: "(string \<Rightarrow> string) \<Rightarrow> bool \<Rightarrow> service_mode \<Rightarrow> service_pane \<Rightarrow> string markup" where
  "service_pane_markup t narrow m (Service_Master s modes rows) =
     div_of ''flex flex-col h-full min-h-0 overflow-hidden''
       [div_of (''border-b border-outline-variant space-y-3 shrink-0 '' @ (if narrow then ''p-3'' else ''p-4''))
          [searchInput_markup s, pillTabs_markup modes],
        fill (scrollPane ''p-2'' (map (if m = List_Mode then list_row_markup else tree_row_markup) rows))]"
| "service_pane_markup t narrow m (Service_Detail d) = serviceDetailPanel t narrow d"
| "service_pane_markup t narrow m (Pick_Service hint) =
     div_of ''panel p-8 text-center text-on-surface-variant h-full flex items-center justify-center'' [Plain hint]"

text \<open>The content of a page in its two panes, or nothing.\<close>

definition panes_markup :: "('a \<Rightarrow> string markup) \<Rightarrow> 'a markup option \<Rightarrow> string markup" where
  "panes_markup f m = (case m of None \<Rightarrow> Plain [] | Some x \<Rightarrow> fill (map_markup f x))"

section \<open>Containers\<close>

definition agent_badge :: "(string \<Rightarrow> string) \<Rightarrow> string \<Rightarrow> bool \<Rightarrow> string markup list" where
  "agent_badge t cls agent = (if agent then [el ''span'' cls [Plain (t ''containers.metrics.agentShort'')]] else [])"

definition container_row_markup :: "(string \<Rightarrow> string) \<Rightarrow> container_row \<Rightarrow> string markup" where
  "container_row_markup t r =
     (case cr_status r of (label, tn, pulse) \<Rightarrow>
      Element ''button''
        [(''type'', ''button''),
         (''className'', ''w-full text-left p-4 border-b border-outline-variant/40 hover:bg-surface-high border-l-2 '' @
            (if cr_selected r then ''bg-primary-container/15 border-l-primary'' else ''border-l-transparent''))]
        [div_of ''flex flex-wrap items-center gap-2 mb-1''
           (el ''span'' ''font-medium text-sm break-all'' [Slot (cr_name r)] #
            agent_badge t (''text-xs px-2 py-0.5 rounded-full bg-tertiary/20 text-tertiary '' @
              ''border border-tertiary/30'') (cr_agent r) @
            [statusPill label tn pulse] @
            (case cr_health r of None \<Rightarrow> [] | Some (h, htn) \<Rightarrow> [statusPill h htn False]) @
            [el ''span'' ''text-xs mono text-on-surface-variant'' [Plain ''&#8635; '', Slot (show_int (cr_restarts r))]]),
         div_of ''text-xs mono text-on-surface-variant'' [Slot (cr_image r)],
         div_of ''flex flex-wrap gap-1 mt-2'' (map (\<lambda>p.
           el ''span'' ''text-xs mono px-2 py-0.5 rounded bg-surface-highest border border-outline-variant'' [Slot p])
           (cr_ports r))])"

definition peers_markup :: "(string \<Rightarrow> string) \<Rightarrow> container_info list \<Rightarrow> string markup" where
  "peers_markup t cs =
     el ''section'' ''panel p-4''
       [el ''h3'' ''label-caps mb-2'' [Plain (t ''containers.detail.composePeers'')],
        el ''p'' ''text-xs text-on-surface-variant mb-3'' [Plain (t ''containers.detail.composePeersHint'')],
        el ''table'' ''w-full text-sm''
          [Element ''tbody'' [] (map (\<lambda>c. el ''tr'' ''border-t border-outline-variant/40''
             [el ''td'' ''py-2 mono'' [Slot (c_name c)],
              el ''td'' ''py-2 text-right''
                [Element ''button'' [(''type'', ''button''), (''className'', ''text-primary text-xs hover:underline'')]
                   [Plain (t ''containers.detail.viewFull'')]]]) cs)]]"

text \<open>A missing value is a dash.\<close>

definition dashed :: "string option \<Rightarrow> string" where
  "dashed v = (case v of None \<Rightarrow> ''&mdash;'' | Some s \<Rightarrow> s)"

definition overview_items :: "(string \<Rightarrow> string) \<Rightarrow> copy_button \<Rightarrow> container_overview \<Rightarrow> string markup definition_item list" where
  "overview_items t cb v =
     (let item = (\<lambda>k m. \<lparr> di_label = t k, di_value = m, di_mono = None \<rparr>) in
      [item ''container.id'' (el ''span'' ''flex items-center gap-2''
         [Slot (co_short_id v), Plain ''&hellip; '', copyButton_markup t None cb])] @
      map (\<lambda>(k, w). item k (Slot (dashed w))) (co_values v) @
      [item ''container.composeProject'' (Slot (dashed (fst (co_compose v)) @ '' / '' @ dashed (snd (co_compose v))))])"

definition container_overview_markup ::
  "(rat \<Rightarrow> string) \<Rightarrow> (string \<Rightarrow> string) \<Rightarrow> copy_button \<Rightarrow> container_overview \<Rightarrow> string markup" where
  "container_overview_markup num t cb v =
     div_of ''space-y-4''
       ([fill (definitionList (overview_items t cb v))] @
        (case co_cards v of None \<Rightarrow> []
         | Some cards \<Rightarrow> [div_of ''grid grid-cols-1 sm:grid-cols-3 gap-3'' (map (metricCard_markup num) cards)]) @
        (if co_peers v = [] then [] else [peers_markup t (co_peers v)]) @
        (case co_link v of None \<Rightarrow> []
         | Some target \<Rightarrow> [link_el target ''inline-block text-sm text-primary hover:underline''
             [Plain (t ''containers.detail.openAgentDashboard'')]]))"

fun tab_name :: "container_tab \<Rightarrow> string" where
  "tab_name Overview_Tab = ''overview''"
| "tab_name Processes_Tab = ''processes''"
| "tab_name Services_Tab = ''services''"

text \<open>\<open>inner\<close> draws the pages of processes and services inside of the detail.\<close>

definition detail_content_markup ::
  "(rat \<Rightarrow> string) \<Rightarrow> (string \<Rightarrow> string) \<Rightarrow> copy_button \<Rightarrow> (container_tab \<Rightarrow> metrics_context \<Rightarrow> string markup) \<Rightarrow>
   detail_content \<Rightarrow> string markup" where
  "detail_content_markup num t cb inner content =
     (case content of
        Show_Overview v \<Rightarrow> container_overview_markup num t cb v
      | Show_Processes c \<Rightarrow> inner Processes_Tab c
      | Show_Services c \<Rightarrow> inner Services_Tab c
      | No_Agent_Metrics \<Rightarrow> emptyState (t ''containers.tabs.noAgentMetrics''))"

text \<open>The two copy buttons are the one of the head and the one of the overview.\<close>

definition container_detail_markup ::
  "(rat \<Rightarrow> string) \<Rightarrow> (string \<Rightarrow> string) \<Rightarrow> copy_button \<Rightarrow> copy_button \<Rightarrow>
   (container_tab \<Rightarrow> metrics_context \<Rightarrow> string markup) \<Rightarrow> container_tab \<Rightarrow> bool \<Rightarrow> container_detail \<Rightarrow> string markup" where
  "container_detail_markup num t cb cb' inner tab on_back d =
     div_of ''panel flex flex-col h-full min-h-0 overflow-hidden''
       ((if on_back then
          [Element ''button''
             [(''type'', ''button''),
              (''className'', ''lg:hidden text-sm text-primary hover:underline shrink-0 text-left px-4 pt-4'')]
             [Plain (t ''containers.mobile.back'')]] else []) @
        [div_of ''p-4 space-y-2 shrink-0 border-b border-outline-variant''
           [div_of ''flex flex-wrap items-start justify-between gap-2''
              [div_of ''min-w-0 flex-1''
                 [statusPill (cd_label d) (cd_tone d) (cd_pulse d),
                  el ''h2'' ''text-lg font-semibold mt-2 break-all'' [Slot (cd_name d)],
                  div_of ''flex items-center gap-2 mt-1 min-w-0''
                    [el ''span'' ''mono text-xs text-on-surface-variant truncate'' [Slot (cd_id d)],
                     copyButton_markup t None cb]],
               div_of ''flex flex-wrap gap-2''
                 (case cd_dashboard_link d of None \<Rightarrow> []
                  | Some target \<Rightarrow>
                      [link_el target ''px-3 py-2 rounded-lg bg-primary-container text-white text-sm hover:opacity-90''
                         [Plain (t ''containers.detail.openAgentDashboard'')]])],
            pillTabs_markup (metrics_tabs t (tab_name tab))],
         fill (scrollPane ''p-4'' [detail_content_markup num t cb' inner (cd_content d)])])"

text \<open>The head and the rows of the list.\<close>

definition container_list_markup :: "translate \<Rightarrow> search_input \<Rightarrow> nat \<Rightarrow> string markup list \<Rightarrow> string markup" where
  "container_list_markup t s n xs =
     div_of ''flex flex-col h-full min-h-0 overflow-hidden''
       [div_of ''p-4 border-b border-outline-variant space-y-2 shrink-0''
          [searchInput_markup s,
           div_of ''text-xs text-on-surface-variant''
             [Plain (t ''containers.total'' [(''count'', Number (Some (of_nat n)))])]],
        fill (scrollPane [] xs)]"

fun container_pane_markup :: "translate \<Rightarrow> (bool \<Rightarrow> string markup) \<Rightarrow> container_pane \<Rightarrow> string markup" where
  "container_pane_markup t detail (Container_Master s n rows) =
     container_list_markup t s n (map (container_row_markup (\<lambda>k. t k [])) rows)"
| "container_pane_markup t detail (Container_No_Match s n msg) =
     container_list_markup t s n
       [div_of (''flex items-center justify-center min-h-[12rem] p-8 text-sm '' @
          ''text-on-surface-variant text-center'') [Plain msg]]"
| "container_pane_markup t detail (Container_Detail c on_back) = detail on_back"
| "container_pane_markup t detail (Pick_Container hint) =
     div_of (''panel h-full flex items-center justify-center p-8 text-center '' @
       ''text-on-surface-variant text-sm'') [Plain hint]"

text \<open>The narrow and the wide layout; \<open>detail\<close> draws the detail, given whether it has a way
  back.\<close>

definition containers_screen_markup ::
  "translate \<Rightarrow> (bool \<Rightarrow> string markup) \<Rightarrow> containers_screen \<Rightarrow> string markup" where
  "containers_screen_markup t detail scr =
     (let pane = container_pane_markup t detail in
      Element ''Fragment'' []
        [div_of ''h-full min-h-0 lg:hidden''
           [(case cn_narrow scr of
               Container_Detail c on_back \<Rightarrow> div_of ''h-full min-h-0 overflow-hidden'' [pane (cn_narrow scr)]
             | _ \<Rightarrow> div_of ''panel overflow-hidden flex flex-col h-full min-h-0'' [pane (cn_narrow scr)])],
         div_of ''hidden lg:block h-full min-h-0'' [fill (map_markup pane (cn_wide scr))]])"

section \<open>The page of a container with an agent\<close>

definition overview_disk_markup :: "string \<times> string \<times> string \<times> string \<Rightarrow> string markup" where
  "overview_disk_markup = (\<lambda>(mnt, fs, used, total). el ''tr'' ''border-t border-outline-variant/50''
     [el ''td'' ''py-2 mono'' [Slot mnt], el ''td'' ''py-2 text-on-surface-variant text-xs'' [Slot fs],
      el ''td'' ''py-2 text-right mono'' [Slot used],
      el ''td'' ''py-2 text-right mono text-on-surface-variant'' [Slot total]])"

definition overview_markup :: "(rat \<Rightarrow> string) \<Rightarrow> (string \<Rightarrow> string) \<Rightarrow> overview \<Rightarrow> string markup" where
  "overview_markup num t v =
     div_of ''space-y-6''
       ([div_of ''grid grid-cols-1 sm:grid-cols-3 gap-4'' (map (metricCard_markup num) (ov_cards v)),
         div_of ''grid grid-cols-1 lg:grid-cols-2 gap-4''
           [table_section (t ''section.disk'') ''text-left label-caps border-b border-outline-variant'' (disk_columns t)
              (map overview_disk_markup (ov_disks v)),
            table_section (t ''section.network'') ''text-left label-caps'' (network_columns t)
              (map network_row_markup (ov_networks v))]] @
        tiles_markup t (ov_tiles v))"

definition metrics_content_markup ::
  "(rat \<Rightarrow> string) \<Rightarrow> (string \<Rightarrow> string) \<Rightarrow> (container_tab \<Rightarrow> metrics_context \<Rightarrow> string markup) \<Rightarrow> metrics_content \<Rightarrow>
   string markup list" where
  "metrics_content_markup num t inner content =
     (case content of
        Content_Overview v \<Rightarrow> (case v of None \<Rightarrow> [] | Some ov \<Rightarrow> [overview_markup num t ov])
      | Content_Processes c \<Rightarrow> [inner Processes_Tab c]
      | Content_Services c \<Rightarrow> [inner Services_Tab c]
      | Content_Nothing \<Rightarrow> []
      | Content_Waiting \<Rightarrow> [emptyState (t ''app.waiting'')])"

definition switch_markup :: "(string \<Rightarrow> string) \<Rightarrow> string \<times> string \<times> bool \<Rightarrow> string markup" where
  "switch_markup t = (\<lambda>(target, name, current).
     link_el target (''shrink-0 px-3 py-2 rounded-full border text-sm flex items-center gap-2 '' @
         (if current then ''bg-primary-container text-white border-primary-container''
          else ''border-outline-variant hover:bg-surface-high''))
       [Slot name, el ''span'' ''text-xs opacity-80'' [Plain (t ''containers.metrics.agentShort'')]])"

definition metrics_page_markup ::
  "(rat \<Rightarrow> string) \<Rightarrow> (string \<Rightarrow> string) \<Rightarrow> copy_button \<Rightarrow> (container_tab \<Rightarrow> metrics_context \<Rightarrow> string markup) \<Rightarrow>
   metrics_page \<Rightarrow> string markup" where
  "metrics_page_markup num t cb inner p =
     (let c = mp_container p; split = (metrics_variant (mp_tab p) = Workbench_Variant) in
      page_of None (metrics_variant (mp_tab p))
        [div_of (''flex flex-col gap-4 '' @ (if split then ''h-full min-h-0'' else []))
           [div_of ''space-y-4 shrink-0''
              ([link_el (mp_back p) ''text-sm text-primary hover:underline'' [Plain (t ''containers.metrics.back'')],
                div_of ''panel p-5 space-y-3''
                  [statusPill (container_state_label c) Success True,
                   el ''h1'' ''text-2xl font-semibold break-all'' [Slot (c_name c)],
                   el ''p'' ''text-sm text-on-surface-variant'' [Plain (t ''containers.metrics.agentBadge'')],
                   div_of ''flex items-center gap-2''
                     [el ''span'' ''mono text-xs text-on-surface-variant'' [Slot (c_id c)], copyButton_markup t None cb]]] @
               (if mp_unavailable p then [errorBanner (t ''containers.metrics.unavailable'')] else []) @
               [Element ''div'' []
                  [div_of ''label-caps mb-2'' [Plain (t ''containers.metrics.switchContainer'')],
                   div_of ''flex gap-2 overflow-x-auto pb-2'' (map (switch_markup t) (mp_switch p))],
                pillTabs_markup (metrics_tabs t (mp_tab p))]),
            div_of (if split then ''flex-1 min-h-0'' else []) (metrics_content_markup num t inner (mp_content p))]])"

definition metrics_view_markup ::
  "(rat \<Rightarrow> string) \<Rightarrow> (string \<Rightarrow> string) \<Rightarrow> copy_button \<Rightarrow> (container_tab \<Rightarrow> metrics_context \<Rightarrow> string markup) \<Rightarrow>
   metrics_page_view \<Rightarrow> string markup" where
  "metrics_view_markup num t cb inner v =
     (case v of Metrics_Message k \<Rightarrow> emptyState (t k) | Metrics_Page p \<Rightarrow> metrics_page_markup num t cb inner p)"

section \<open>Insights\<close>

text \<open>\<open>new Date(s).toLocaleString()\<close>\<close>

definition local_date :: "date_parser \<Rightarrow> (int \<Rightarrow> string) \<Rightarrow> string \<Rightarrow> string" where
  "local_date date locale_string s = (case date s of None \<Rightarrow> ''Invalid Date'' | Some ms \<Rightarrow> locale_string ms)"

definition diagnostic_card_markup ::
  "(string \<Rightarrow> string) \<Rightarrow> date_parser \<Rightarrow> (int \<Rightarrow> string) \<Rightarrow> diagnostic_card \<Rightarrow> string markup" where
  "diagnostic_card_markup t date locale_string d =
     el ''article'' (''panel border-l-4 '' @ card_accent d @ '' p-5 space-y-4'')
       ([div_of ''flex flex-wrap items-start justify-between gap-3''
           [el ''h3'' ''text-base font-semibold leading-snug'' [Plain (card_title d)],
            statusPill (card_severity d) (card_tone d) False],
         el ''p'' ''text-sm text-on-surface-variant leading-relaxed'' [Plain (card_reason d)]] @
        (if card_metrics d = [] then []
         else [div_of ''grid grid-cols-2 sm:grid-cols-3 gap-2'' (map (\<lambda>(label, v).
           div_of ''rounded-md bg-surface-high/70 px-3 py-2 min-w-0''
             [div_of ''text-[10px] label-caps truncate'' [Plain label],
              Element ''div'' [(''className'', ''text-sm font-medium mono mt-1 truncate''), (''title'', v)] [Slot v]])
           (card_metrics d))]) @
        [div_of ''text-xs text-on-surface-variant/70 pt-1 border-t border-outline-variant/40''
           [Plain (t ''diagnostics.lastSeen''), Plain '': '', Slot (local_date date locale_string (card_detectedAt d))]])"

definition diagnostic_panel_markup ::
  "(string \<Rightarrow> string) \<Rightarrow> date_parser \<Rightarrow> (int \<Rightarrow> string) \<Rightarrow> diagnostic_card list \<Rightarrow> string markup" where
  "diagnostic_panel_markup t date locale_string cards =
     div_of ''space-y-4'' (map (diagnostic_card_markup t date locale_string) cards)"

definition diagnostics_markup ::
  "(string \<Rightarrow> string) \<Rightarrow> date_parser \<Rightarrow> (int \<Rightarrow> string) \<Rightarrow> string option \<Rightarrow> diagnostics_page \<Rightarrow> string markup" where
  "diagnostics_markup t date locale_string agent d =
     (let page = page_of (Some (t ''diagnostics.pageTitle'')) Scroll_Variant;
          subtitle = (\<lambda>k. el ''p'' ''text-sm text-on-surface-variant -mt-2 mb-6'' [Plain (t k)]);
          panel = diagnostic_panel_markup t date locale_string in
      case d of
        No_Agents \<Rightarrow> page [emptyState (t ''hub.noAgents'')]
      | All_Diagnostics blocks \<Rightarrow> page
          [subtitle ''diagnostics.allAgentsSubtitle'',
           div_of ''space-y-8'' (map (\<lambda>(host, i, cards). el ''section'' ''space-y-3''
             [Element ''div'' []
                [el ''h2'' ''text-lg font-semibold'' [Slot host], el ''p'' ''text-xs mono text-on-surface-variant'' [Slot i]],
              panel cards]) blocks)]
      | Single_Diagnostics host cards \<Rightarrow> page
          ([subtitle ''diagnostics.subtitle''] @
           (case host of None \<Rightarrow> []
            | Some h \<Rightarrow> [el ''p'' ''text-sm text-on-surface-variant mb-4''
                [Slot h, Plain '' '', el ''span'' ''mono text-xs'' [Plain ''('', Slot (dashed agent), Plain '')'']]]) @
           [(case cards of None \<Rightarrow> emptyState (t ''diagnostics.empty'') | Some cs \<Rightarrow> panel cs)]))"

section \<open>The frame and the dashboard of an agent\<close>

definition agent_frame_markup ::
  "(string \<Rightarrow> string) \<Rightarrow> date_parser \<Rightarrow> (int \<Rightarrow> string) \<Rightarrow> string option \<Rightarrow> string markup \<Rightarrow> string markup" where
  "agent_frame_markup t date locale_string note page =
     div_of ''flex flex-col h-full min-h-0 overflow-hidden''
       ((case note of None \<Rightarrow> []
         | Some s \<Rightarrow>
             [div_of (''shrink-0 mb-3 panel px-4 py-2 text-sm text-on-surface-variant '' @ ''border-l-4 border-warning'')
                [Plain (t ''hub.lastDataAt''), Plain '': '', el ''span'' ''mono'' [Slot (local_date date locale_string s)]]]) @
        [page])"

definition dashboard_alert_markup ::
  "(string \<Rightarrow> string) \<Rightarrow> string \<times> string \<times> string \<times> tone \<times> bool option \<Rightarrow> string markup" where
  "dashboard_alert_markup t = (\<lambda>(rule, sev, label, tn, acking).
     el ''li'' ''flex flex-wrap items-center justify-between gap-2 border-b border-outline-variant/50 pb-2''
       [el ''span'' ''mono'' [Slot rule],
        div_of ''flex items-center gap-2''
          ([el ''span'' ''text-on-surface-variant'' [Slot sev], statusPill label tn False] @
           (case acking of None \<Rightarrow> []
            | Some busy \<Rightarrow>
                [Element ''button''
                   ((''type'', ''button'') # (if busy then [(''disabled'', ''true'')] else []) @
                    [(''className'', ''px-2 py-1 rounded text-xs bg-primary-container/30 text-primary '' @
                        ''hover:bg-primary-container/50 disabled:opacity-50'')])
                   [Plain (t (if busy then ''alerts.acking'' else ''alerts.ack''))]]))])"

definition agent_dashboard_markup ::
  "(string \<Rightarrow> string) \<Rightarrow> string markup \<Rightarrow> (string \<times> string \<times> string \<times> tone \<times> bool option) list \<Rightarrow>
   string markup" where
  "agent_dashboard_markup t dashboard rows =
     div_of ''flex-1 min-h-0 overflow-y-auto space-y-4''
       (dashboard #
        (if rows = [] then []
         else [el ''section'' ''panel p-4 space-y-2''
           [el ''h2'' ''label-caps'' [Plain (t ''nav.alerts'')],
            el ''ul'' ''text-sm space-y-2'' (map (dashboard_alert_markup t) rows)]]))"

section \<open>The links of a page\<close>

lemma links_table_section [simp]: "links (table_section h cls columns rows) = concat (map links rows)"
proof -
  have "concat (map (links \<circ> (\<lambda>(cls, label). el ''th'' cls [Plain label])) columns) = []" by (induction columns) auto
  then show ?thesis by (simp add: table_section_def)
qed

text \<open>Parts that have no link, and the links of lists of parts.\<close>

lemma no_links_concat: "(\<And>x. x \<in> set xs \<Longrightarrow> links (f x) = []) \<Longrightarrow> concat (map (links \<circ> f) xs) = []"
  by (induction xs) auto

lemma links_map: "links (map_markup f m) = links m"
  by (induction m) (auto simp: comp_def intro!: arg_cong [where f = concat] map_cong)

lemma slots_map: "slots (map_markup f m) = map f (slots m)"
proof (induction m)
  case (Element name as xs)
  then have eq: "map (slots \<circ> map_markup f) xs = map (map f \<circ> slots) xs" by simp
  show ?case by (simp add: map_concat eq)
qed simp_all

lemma links_panes:
  "set (links (fill (map_markup f (masterDetailLayout surface ratio m d)))) = set (links (f m)) \<union> set (links (f d))"
  by (simp add: links_fill links_map slots_map masterDetailLayout_panes)

lemma links_scroll: "set (links (fill (scrollPane cls xs))) = (\<Union>x\<in>set xs. set (links x))"
  by (simp add: links_fill scrollPane_slots)

lemma links_rows [simp]:
  "links (network_row_markup n) = []" "links (disk_row_markup num d) = []" "links (overview_disk_markup o4) = []"
  "links (process_cell_markup k cell) = []" "links (tree_row_markup rm) = []" "links (list_row_markup rm) = []"
  "links (container_row_markup t r) = []" "links (peers_markup t cs) = []" "links (dashboard_alert_markup t al) = []"
  "links (diagnostic_card_markup t date ls dc) = []"
proof -
  show "links (network_row_markup n) = []" "links (disk_row_markup num d) = []" "links (overview_disk_markup o4) = []"
    "links (process_cell_markup k cell) = []" "links (list_row_markup rm) = []" "links (dashboard_alert_markup t al) = []"
    by (auto simp: network_row_markup_def disk_row_markup_def overview_disk_markup_def process_cell_markup_def
        list_row_markup_def service_pill_def dashboard_alert_markup_def split: prod.split option.split)
  show "links (tree_row_markup rm) = []" by (cases rm rule: tree_row_markup.cases) (simp_all add: indent_style_def service_pill_def)
  show "links (container_row_markup t r) = []" "links (peers_markup t cs) = []"
    by (auto simp: container_row_markup_def agent_badge_def peers_markup_def no_links_concat split: prod.split option.split)
  show "links (diagnostic_card_markup t date ls dc) = []"
    by (auto simp: diagnostic_card_markup_def split: prod.split)
qed

lemma concat_singletons: "concat (map (\<lambda>x. [f x]) xs) = map f xs"
  by (induction xs) simp_all

lemma links_tile [simp]: "links (tile_markup t c) = [ct_link c]"
  by (simp add: tile_markup_def)

lemma links_tiles: "concat (map links (tiles_markup t tiles)) = map ct_link tiles"
  by (simp add: tiles_markup_def comp_def concat_singletons)

lemma links_dashboard:
  "set (links (dashboard_markup num date ls t v)) = (case v of Dash_Live d \<Rightarrow> ct_link ` set (db_tiles d) | _ \<Rightarrow> {})"
proof -
  have "(\<Union>x\<in>set (tiles_markup tr tiles). set (links x)) = ct_link ` set tiles" for tr and tiles
    using arg_cong [OF links_tiles, of set tr tiles] by simp
  then show ?thesis
    by (auto simp: dashboard_markup_def history_dashboard_markup_def live_dashboard_markup_def links_page_of
        links_table_section comp_def Let_def split: dashboard_view.split option.splits)
qed

lemma links_workbench:
  "set (links (workbench_markup t content v)) =
     (case v of Page_Waiting k \<Rightarrow> {} | Page_Embedded c \<Rightarrow> set (links (content c))
      | Page_Workbench title bar banner messages c \<Rightarrow> (case c of None \<Rightarrow> {} | Some x \<Rightarrow> set (links (content x))))"
  by (auto simp: workbench_markup_def links_page_of split: page_view.split option.splits)

lemma links_process_pane:
  "links (process_pane_markup t narrow p) = (case p of Process_Detail d \<Rightarrow> map fst (pd_related d) | _ \<Rightarrow> [])"
proof (cases p)
  case (Process_Master s columns rows)
  then show ?thesis by (auto simp: links_scroll simp flip: set_empty split: prod.splits dest!: in_set_zipE)
qed simp_all

lemma links_service_pane:
  "links (service_pane_markup t narrow m p) = (case p of Service_Detail d \<Rightarrow> map fst (sd_related d) | _ \<Rightarrow> [])"
  by (cases p) (auto simp: links_scroll simp flip: set_empty)

lemma links_container_detail:
  "set (links (container_detail_markup num t cb cb' inner tab on_back d)) =
     set_option (cd_dashboard_link d) \<union>
     (case cd_content d of
        Show_Overview v \<Rightarrow> set_option (co_link v)
      | Show_Processes c \<Rightarrow> set (links (inner Processes_Tab c))
      | Show_Services c \<Rightarrow> set (links (inner Services_Tab c))
      | No_Agent_Metrics \<Rightarrow> {})"
proof -
  have "links (fill (definitionList (overview_items t cb' v))) = []" for v
    by (auto simp: links_fill definitionList_slots overview_items_def Let_def simp flip: set_empty)
  then have "set (links (container_overview_markup num t cb' v)) = set_option (co_link v)" for v
    by (auto simp: container_overview_markup_def split: option.splits)
  then show ?thesis
    by (auto simp: container_detail_markup_def detail_content_markup_def links_scroll split: detail_content.split option.splits)
qed

lemma links_container_pane:
  "set (links (container_pane_markup t detail p)) =
     (case p of Container_Detail c on_back \<Rightarrow> set (links (detail on_back)) | _ \<Rightarrow> {})"
  by (cases p) (auto simp: container_list_markup_def links_scroll)

declare process_pane_markup.simps [simp del] service_pane_markup.simps [simp del] container_pane_markup.simps [simp del]

lemma links_containers_screen:
  assumes "containersWorkbench tr ctx st = Some scr"
  shows "set (links (containers_screen_markup t detail scr)) \<subseteq> set (links (detail True)) \<union> set (links (detail False))"
proof -
  let ?pane = "container_pane_markup t detail"
  have "set (links (?pane p)) \<subseteq> set (links (detail True)) \<union> set (links (detail False))" for p
  proof (cases p)
    case (Container_Detail c on_back)
    then show ?thesis unfolding links_container_pane by (cases on_back) auto
  qed (simp_all add: links_container_pane)
  moreover obtain m d where "cn_wide scr = masterDetailLayout Page_Surface Ratio_55_45 m d"
    using assms by (auto simp: containersWorkbench_def Let_def)
  moreover have "set (links (containers_screen_markup t detail scr)) =
      set (links (?pane (cn_narrow scr))) \<union> set (links (fill (map_markup ?pane (cn_wide scr))))"
    by (auto simp: containers_screen_markup_def Let_def split: container_pane.split)
  ultimately show ?thesis by (simp add: links_panes)
qed

lemma links_metrics_page:
  "set (links (metrics_page_markup num t cb inner p)) =
     insert (mp_back p) (fst ` set (mp_switch p)) \<union> (\<Union>m\<in>set (metrics_content_markup num t inner (mp_content p)). set (links m))"
  by (force simp: metrics_page_markup_def Let_def links_page_of switch_markup_def split_beta)

lemma links_overview: "set (links (overview_markup num t v)) = ct_link ` set (ov_tiles v)"
proof -
  have "(\<Union>x\<in>set (tiles_markup t (ov_tiles v)). set (links x)) = ct_link ` set (ov_tiles v)"
    using arg_cong [OF links_tiles, of set t "ov_tiles v"] by simp
  then show ?thesis by (auto simp: overview_markup_def comp_def)
qed

lemma links_diagnostics: "links (diagnostics_markup t date ls agent d) = []"
proof -
  have panel: "links (diagnostic_panel_markup t date ls cards) = []" for cards
    by (simp add: diagnostic_panel_markup_def)
  show ?thesis
    by (cases d) (auto simp: diagnostics_markup_def Let_def links_page_of panel simp flip: set_empty split: option.splits)
qed

lemma links_agent_parts:
  "links (agent_frame_markup t date ls note page) = links page"
  "links (agent_dashboard_markup t page rows) = links page"
  by (auto simp: agent_frame_markup_def agent_dashboard_markup_def split: option.split)

section \<open>The axis of the chart of containers\<close>

text \<open>The greatest number of containers is at the top of the axis, but half of an odd number is
  rounded up: when no sample has more than one container, both labels of the axis are 1.\<close>

lemma container_axis_labels:
  assumes "hc_containers (charts_of samples) = Some (ps, m)" and "metricTrendChart date ls m ps = Some ch"
  shows "\<exists>n::int. 1 \<le> n \<and> (\<forall>p\<in>set ps. point_value p \<le> of_int n) \<and> (\<exists>p\<in>set ps. point_value p = of_int n) \<and>
    axis_labels count_text ch = [show_int n, show_int ((n + 1) div 2)] \<and>
    (axis_labels count_text ch ! 0 = axis_labels count_text ch ! 1 \<longleftrightarrow> n = 1)"
proof -
  let ?vs = "map point_value ps"
  have ps: "ps = containerSeries samples" and m: "m = max_of 1 ?vs" and pos: "\<exists>p\<in>set ps. 0 < point_value p"
    using assms(1) by (auto simp: charts_of_def Let_def list_ex_iff split: if_splits)
  have ymax: "ch_ymax ch = y_max m ?vs" using assms(2) by (auto simp: metricTrendChart_def Let_def split: if_splits)
  have whole: "\<exists>k::nat. v = of_nat k" if "v \<in> set ?vs" for v using that unfolding ps by (auto simp: containerSeries_def)
  obtain p where p: "p \<in> set ps" "0 < point_value p" using pos by blast
  then obtain k where k: "point_value p = of_nat k" "0 < k" using whole by fastforce
  have ge: "v \<le> y_max m ?vs" if "v \<in> set ?vs" for v using that by (rule y_max_ge(3))
  have "m \<in> insert 1 (set ?vs)" unfolding m by (rule max_of_in)
  then have "y_max m ?vs \<in> insert 1 (set ?vs)"
    using max_of_in [of m "?vs @ [1]"] unfolding y_max_def by auto
  moreover have "(1::rat) \<le> point_value p" using k by simp
  ultimately have top_value: "y_max m ?vs \<in> set ?vs" using ge [of "point_value p"] p(1) by force
  then obtain j where j: "y_max m ?vs = of_nat j" using whole by blast
  have j1: "1 \<le> j" using y_max_ge(1) [of m ?vs] unfolding j by simp
  have "js_round (of_int n) = n" "js_round (of_int n / 2) = (n + 1) div 2" for n :: int
  proof -
    show "js_round (of_int n) = n" by (simp add: js_round_def floor_eq_iff)
    have "(of_int n / 2 + 1 / 2 :: rat) = of_int (n + 1) / of_int 2" by (simp add: add_divide_distrib)
    then show "js_round (of_int n / 2) = (n + 1) div 2"
      unfolding js_round_def by (simp only: floor_divide_of_int_eq)
  qed
  from this [of "int j"] have labels: "axis_labels count_text ch = [show_int (int j), show_int ((int j + 1) div 2)]"
    by (simp add: axis_labels_def count_text_def ymax j)
  have "show_int a = show_int b \<longleftrightarrow> a = b" for a b by (metis read_show_int)
  moreover have "int j = (int j + 1) div 2 \<longleftrightarrow> int j = 1" using j1 by presburger
  ultimately have "axis_labels count_text ch ! 0 = axis_labels count_text ch ! 1 \<longleftrightarrow> int j = 1" by (simp add: labels)
  moreover have "\<forall>p\<in>set ps. point_value p \<le> of_int (int j)" using ge unfolding j by simp
  moreover have "\<exists>p\<in>set ps. point_value p = of_int (int j)" using top_value unfolding j by force
  ultimately show ?thesis using j1 labels by (intro exI [of _ "int j"]) simp
qed

end
