(* ===== verification/SiteMap.thy ===== *)
theory SiteMap
  imports Application Screens
begin

text \<open>
  The links of the whole application. \<open>screen_markup\<close> draws the screens of \<open>Application\<close>
  with \<open>Screens\<close>, the pages of processes and services inside of a container included, and
  \<open>display_links\<close> collects the targets of every link that is displayed: of the sidebar, of
  the cards of the hub and of the pages. \<open>routed\<close> reads the table of routes of
  \<open>src/app/router.tsx\<close>.
\<close>

section \<open>Drawing the application\<close>

text \<open>The pages inside of a container, in its metrics and with the history view provided.\<close>

definition inner_page ::
  "app_env \<Rightarrow> app_state \<Rightarrow> history_view \<Rightarrow> surface \<Rightarrow> bool \<Rightarrow> container_tab \<Rightarrow> metrics_context \<Rightarrow> string markup" where
  "inner_page e st hv surface showTitle tab ctx =
     (let t = (\<lambda>k. e_t e k []); narrow = (surface = ContainerDetail_Surface) in
      if tab = Services_Tab
      then workbench_markup (e_t e)
        (panes_markup (service_pane_markup t narrow (sp_mode (ap_services st))))
        (servicesPage (e_collate e) t surface showTitle (e_date e) hv (ap_hist st) (ap_selection st) ctx (ap_services st))
      else workbench_markup (e_t e) (panes_markup (process_pane_markup t narrow))
        (processesPage (e_collate e) t surface showTitle (e_date e) hv (ap_hist st) (ap_selection st) ctx (ap_processes st)))"

definition containers_content_markup ::
  "app_env \<Rightarrow> app_state \<Rightarrow> history_view \<Rightarrow> containers_screen option \<times> container_detail option \<Rightarrow> string markup" where
  "containers_content_markup e st hv = (\<lambda>(scr, d).
     (case scr of
        None \<Rightarrow> Plain []
      | Some s \<Rightarrow> containers_screen_markup (e_t e)
          (\<lambda>on_back. (case d of
             None \<Rightarrow> Plain []
           | Some x \<Rightarrow> container_detail_markup (e_num_str e) (\<lambda>k. e_t e k []) (fst (ap_copied st)) (snd (ap_copied st))
               (inner_page e st hv ContainerDetail_Surface True) (ap_tab st) on_back x)) s))"

text \<open>The hub, the alerts and the sidebar are records with their links already.\<close>

definition screen_markup ::
  "app_env \<Rightarrow> app_state \<Rightarrow> history_view \<Rightarrow> string option \<Rightarrow> screen \<Rightarrow> string markup option" where
  "screen_markup e st hv agent scr =
     (let t = e_t e; tr = (\<lambda>k. t k []); num = e_num_str e; date = e_date e;
          dashboard = dashboard_markup num date (e_axis_time e) t in
      case scr of
        Dashboard_Screen v \<Rightarrow> Some (dashboard v)
      | Agent_Dashboard d \<Rightarrow> Some (agent_dashboard_markup tr (dashboard (fst d)) (snd d))
      | Processes_Screen v \<Rightarrow> Some (workbench_markup t (panes_markup (process_pane_markup tr False)) v)
      | Services_Screen v \<Rightarrow>
          Some (workbench_markup t (panes_markup (service_pane_markup tr False (sp_mode (ap_services st)))) v)
      | Containers_Screen v \<Rightarrow> Some (workbench_markup t (containers_content_markup e st hv) v)
      | Container_Metrics_Screen v \<Rightarrow>
          Some (metrics_view_markup num tr (fst (ap_copied st)) (inner_page e st hv Page_Surface False) v)
      | Diagnostics_Screen d \<Rightarrow> Some (diagnostics_markup tr date (e_local_string e) agent d)
      | _ \<Rightarrow> None)"

definition screen_links ::
  "app_env \<Rightarrow> app_state \<Rightarrow> history_view \<Rightarrow> string option \<Rightarrow> screen \<Rightarrow> string list" where
  "screen_links e st hv agent scr =
     (case scr of
        Hub_Screen h \<Rightarrow> (case hs_content h of Inl m \<Rightarrow> [] | Inr cards \<Rightarrow> map gc_link cards)
      | _ \<Rightarrow> (case screen_markup e st hv agent scr of None \<Rightarrow> [] | Some m \<Rightarrow> links m))"




section \<open>The table of routes\<close>

definition link_path :: "string \<Rightarrow> string" where
  "link_path l = takeWhile (\<lambda>c. c \<noteq> CHR ''?'') l"



text \<open>The calls of \<open>useAgentBasePath\<close> in a page, as far as its links depend on them.\<close>

definition page_calls :: "page \<Rightarrow> base_call list" where
  "page_calls p =
     (case p of
        Dashboard \<Rightarrow> [Dashboard_Link]
      | Containers \<Rightarrow> [Detail_Hub, Detail_Link]
      | Container_Metrics \<Rightarrow> [Metrics_Hub, Metrics_Back, Metrics_Links]
      | _ \<Rightarrow> [])"

section \<open>Facts\<close>

lemma hub_base_no_query: "CHR ''?'' \<notin> set (hub_base a)"
  using encode_no_delimiter [of a] by (auto simp: hub_base_def)

lemma link_path_query:
  "CHR ''?'' \<notin> set p \<Longrightarrow> link_path (p @ CHR ''?'' # q) = p"
  "CHR ''?'' \<notin> set p \<Longrightarrow> link_path p = p"
  by (induction p) (auto simp: link_path_def)

lemma link_path_href:
  assumes "CHR ''?'' \<notin> set base" and "CHR ''?'' \<notin> set seg" and "seg \<noteq> []"
  shows "link_path (useAgentHref base (Some seg) q) = base @ ''/'' @ seg"
    "link_path (useAgentHref base (Some seg) None @ CHR ''?'' # x) = base @ ''/'' @ seg"
  using assms link_path_query [of "base @ ''/'' @ seg"] link_path_query [of "''/'' @ seg"]
  by (auto simp: useAgentHref_def given_def Let_def split: option.split)

lemma link_path_related: "link_path (service_link ''/services'' s) = ''/services''" "link_path (process_link ''/processes'' p) = ''/processes''"
  using link_path_query(1) [of "''/services''"] link_path_query(1) [of "''/processes''"]
  by (simp_all add: service_link_def process_link_def)

text \<open>The pages of processes and services.\<close>

lemma workbench_content:
  "(case workbench_page surface title date hv st sel ctx content of
      Page_Waiting k \<Rightarrow> {} | Page_Embedded c \<Rightarrow> f c
    | Page_Workbench title bar banner messages c \<Rightarrow> (case c of None \<Rightarrow> {} | Some x \<Rightarrow> f x)) \<subseteq> (\<Union>c. f (content c))"
  by (auto simp: workbench_page_def Let_def split: children.split)

lemma links_of_workbench:
  "set (links (workbench_markup t f (workbench_page surface title date hv st sel ctx content))) \<subseteq>
     (\<Union>c. set (links (f (content c))))"
  unfolding links_workbench by (rule workbench_content)

lemma process_page_links:
  assumes "l \<in> set (links (workbench_markup t (panes_markup (process_pane_markup tr narrow))
    (processesPage collate tr surface b date hv h sel ctx pst)))"
  shows "link_path l = ''/services''"
proof -
  obtain c where "l \<in> set (links (panes_markup (process_pane_markup tr narrow) (processesContent collate tr surface c pst)))"
    using assms links_of_workbench unfolding processesPage_def by blast
  then show ?thesis
    by (auto simp: panes_markup_def processesContent_def processSplitView_def Let_def links_panes links_process_pane
        process_detail_panel_def link_path_related split: option.splits)
qed

lemma service_page_links:
  assumes "l \<in> set (links (workbench_markup t (panes_markup (service_pane_markup tr narrow m))
    (servicesPage collate tr surface b date hv h sel ctx sst)))"
  shows "link_path l = ''/processes''"
proof -
  obtain c where "l \<in> set (links (panes_markup (service_pane_markup tr narrow m) (servicesContent collate tr surface c sst)))"
    using assms links_of_workbench unfolding servicesPage_def by blast
  then show ?thesis
    by (auto simp: panes_markup_def servicesContent_def serviceSplitView_def Let_def links_panes links_service_pane
        service_detail_panel_def link_path_related split: option.splits)
qed

lemma inner_page_links:
  "l \<in> set (links (inner_page e st hv surface b tab ctx)) \<Longrightarrow> link_path l \<in> {''/services'', ''/processes''}"
  using process_page_links service_page_links by (fastforce simp: inner_page_def Let_def split: if_splits)

text \<open>The dashboard and the pages of containers.\<close>

lemma dashboard_links:
  assumes "CHR ''?'' \<notin> set base"
    and "l \<in> set (links (dashboard_markup num date ls t (dashboard_page t (useAgentHref base (Some ''containers'') None) hv st ctx)))"
  shows "link_path l = base @ ''/containers''"
  using assms(2) link_path_href(2) [OF assms(1), of "''containers''"]
  by (auto simp: links_dashboard dashboard_page_def live_dashboard_def container_tiles_def container_tile_of_def
      split: if_splits option.splits)

lemma detail_links:
  assumes "CHR ''?'' \<notin> set base"
    and "l \<in> set (links (container_detail_markup num tr cb cb' (inner_page e st hv surface b) tab on_back
      (containerDetail date t test_base base host c own tab)))"
  shows "link_path l = base @ ''/container-metrics'' \<or>
    cv_snapshot own \<noteq> None \<and> link_path l \<in> {''/services'', ''/processes''}"
  using assms(2) link_path_href(1) [OF assms(1), of "''container-metrics''"] inner_page_links
  unfolding links_container_detail
  by (fastforce simp: containerDetail_def container_detail_content_def containerOverview_def own_context_def Let_def
      split: if_splits option.splits)

lemma containers_page_links:
  assumes "CHR ''?'' \<notin> set base"
    and "l \<in> set (links (workbench_markup t (containers_content_markup e st hv)
      (workbench_page Page_Surface title date hv h sel ctx (containers_content e st test_base base))))"
  shows "link_path l = base @ ''/container-metrics'' \<or>
    cv_snapshot (ap_container st) \<noteq> None \<and> link_path l \<in> {''/services'', ''/processes''}"
proof -
  obtain c where l: "l \<in> set (links (containers_content_markup e st hv (containers_content e st test_base base c)))"
    using assms(2) links_of_workbench by blast
  let ?draw = "\<lambda>on_back. case snd (containers_content e st test_base base c) of None \<Rightarrow> Plain []
    | Some x \<Rightarrow> container_detail_markup (e_num_str e) (\<lambda>k. e_t e k []) (fst (ap_copied st)) (snd (ap_copied st))
        (inner_page e st hv ContainerDetail_Surface True) (ap_tab st) on_back x"
  obtain scr where "containersWorkbench (\<lambda>k. e_t e k []) c (ap_containers st) = Some scr"
    and "l \<in> set (links (containers_screen_markup (e_t e) ?draw scr))"
    using l by (auto simp: containers_content_markup_def containers_content_def split: option.splits)
  then have "\<exists>on_back. l \<in> set (links (?draw on_back))" using links_containers_screen by blast
  then obtain on_back x where x: "snd (containers_content e st test_base base c) = Some x"
    and "l \<in> set (links (container_detail_markup (e_num_str e) (\<lambda>k. e_t e k []) (fst (ap_copied st))
      (snd (ap_copied st)) (inner_page e st hv ContainerDetail_Surface True) (ap_tab st) on_back x))"
    by (auto split: option.splits)
  moreover obtain host y where "x = containerDetail (e_date e) (e_t e) test_base base host y (ap_container st) (ap_tab st)"
    using x by (auto simp: containers_content_def split: option.splits)
  ultimately show ?thesis using detail_links [OF assms(1)] by blast
qed

lemma metrics_page_links:
  assumes "CHR ''?'' \<notin> set back_base" and "CHR ''?'' \<notin> set base"
    and "l \<in> set (links (metrics_view_markup num tr cb (inner_page e st hv surface b)
      (container_metrics_page date t test_base back_base base ps host own)))"
  shows "\<not> useIsHubAgentContext test_base \<and> link_path l \<in>
    {back_base @ ''/containers'', base @ ''/container-metrics'', ''/container-metrics'', ''/services'', ''/processes''}"
proof -
  obtain p where p: "container_metrics_page date t test_base back_base base ps host own = Metrics_Page p"
    and l: "l \<in> set (links (metrics_page_markup num tr cb (inner_page e st hv surface b) p))"
    using assms(3) by (auto simp: metrics_view_markup_def split: metrics_page_view.splits)
  have hub: "\<not> useIsHubAgentContext test_base" and back_link: "mp_back p = useAgentHref back_base (Some ''containers'') None"
    and switch: "fst ` set (mp_switch p) \<subseteq> range (containerMetricsLink base ps)"
    and content: "mp_content p = metrics_tab_content date t own (mp_tab p)"
    using p by (auto simp: container_metrics_page_def Let_def split: if_splits option.splits)
  have "link_path (containerMetricsLink base ps i) = base @ ''/container-metrics''" for i
    using assms(2) link_path_query(1) [of "base @ ''/container-metrics''"] link_path_query(1) [of "''/container-metrics''"]
    by (simp add: containerMetricsLink_def Let_def)
  moreover have "link_path (mp_back p) = back_base @ ''/containers''"
    using link_path_href(1) [OF assms(1), of "''containers''"] by (simp add: back_link)
  moreover have "link_path l \<in> {''/container-metrics'', ''/services'', ''/processes''}"
    if "m \<in> set (metrics_content_markup num tr (inner_page e st hv surface b) (metrics_tab_content date t own tab))"
      "l \<in> set (links m)" for m tab
    using that inner_page_links link_path_query(1) [of "''/container-metrics''"]
    by (fastforce simp: metrics_content_markup_def metrics_tab_content_def containerMetricsOverview_def links_overview
        container_tiles_def container_tile_of_def Let_def split: if_splits option.splits)
  ultimately show ?thesis
    using l hub switch by (auto simp: links_metrics_page content)
qed

text \<open>Every page of the table at once.\<close>

lemma base_of_eq:
  "base_of st call (Agent_Route a p) = (if is_hub (mv_meta (ap_page_meta st call)) \<and> a \<noteq> [] then hub_base a else [])"
  "base_of st call (Top_Route p) = []"
  by (auto simp: base_of_def useAgentBasePath_def hub_base_def given_def)

lemma base_of_cases: "base_of st call loc = [] \<or> (\<exists>a. a \<noteq> [] \<and> base_of st call loc = hub_base a)"
  by (cases loc) (auto simp: base_of_eq)

lemma base_of_no_query: "CHR ''?'' \<notin> set (base_of st call loc)"
  using base_of_cases [of st call loc] hub_base_no_query by auto

lemma page_links:
  assumes "l \<in> set (screen_links e st hv agent (render_page e st (Some hv) ctx loc p))"
  shows "case p of
      Dashboard \<Rightarrow> link_path l = base_of st Dashboard_Link loc @ ''/containers''
    | Processes \<Rightarrow> link_path l = ''/services''
    | Services \<Rightarrow> link_path l = ''/processes''
    | Containers \<Rightarrow> link_path l = base_of st Detail_Link loc @ ''/container-metrics'' \<or>
        cv_snapshot (ap_container st) \<noteq> None \<and> link_path l \<in> {''/services'', ''/processes''}
    | Container_Metrics \<Rightarrow> \<not> useIsHubAgentContext (base_of st Metrics_Hub loc) \<and> link_path l \<in>
        {base_of st Metrics_Back loc @ ''/containers'', base_of st Metrics_Links loc @ ''/container-metrics'',
         ''/container-metrics'', ''/services'', ''/processes''}
    | Hub_Overview \<Rightarrow> (\<exists>a\<in>set (ap_agents st). l = agent_link (agentId a))
    | _ \<Rightarrow> False"
proof (cases p)
  case Dashboard
  then show ?thesis
    using assms dashboard_links [OF base_of_no_query]
    by (auto simp: screen_links_def screen_markup_def render_page_def useHistoryView_def hub_agent_dashboard_def
        links_agent_parts Let_def split: if_splits)
next
  case Processes
  then show ?thesis
    using assms process_page_links
    by (fastforce simp: screen_links_def screen_markup_def render_page_def useHistoryView_def Let_def)
next
  case Services
  then show ?thesis
    using assms service_page_links
    by (fastforce simp: screen_links_def screen_markup_def render_page_def useHistoryView_def Let_def)
next
  case Containers
  then show ?thesis
    using assms containers_page_links [OF base_of_no_query]
    by (fastforce simp: screen_links_def screen_markup_def render_page_def useHistoryView_def Let_def)
next
  case Container_Metrics
  then show ?thesis
    using assms metrics_page_links [OF base_of_no_query base_of_no_query]
    by (fastforce simp: screen_links_def screen_markup_def render_page_def Let_def)
next
  case Hub_Overview
  then show ?thesis
    using assms
    by (auto simp: screen_links_def render_page_def hubPage_def hub_page_def hub_filter_def agent_card_of_def Let_def
        split: if_splits)
qed (use assms in \<open>auto simp: screen_links_def screen_markup_def render_page_def links_diagnostics Let_def\<close>)










section \<open>Properties\<close>


text \<open>C7: which links of the pages of an agent stay with the agent: no link of its pages of
  processes and services does, they lead to the pages of the host. On its other pages every
  link goes on below the path of the agent once each call of \<open>useAgentBasePath\<close> in the page
  has the answer that the server is a hub, except that a container with a snapshot links to
  its related items. As long as no call of the page has that answer, which is at the start
  and for ever when the requests fail, no link of any page stays with the agent.\<close>

theorem links_below_agent:
  assumes "served (Agent_Route a p)"
    and "shown_screen (app_screen e st path (Agent_Route a p)) = Some scr"
    and "l \<in> set (screen_links e st (ap_history st) (Some a) scr)"
  shows "let related = (link_path l = ''/services'' \<or> link_path l = ''/processes'');
      told_hub = (\<lambda>call. is_hub (mv_meta (ap_page_meta st call))) in
    (p \<in> {Processes, Services} \<longrightarrow> related) \<and>
    (p \<notin> {Processes, Services} \<and> (\<forall>call\<in>set (page_calls p). told_hub call) \<longrightarrow>
      (\<exists>rest. l = hub_base a @ ''/'' @ rest) \<or> (p = Containers \<and> cv_snapshot (ap_container st) \<noteq> None \<and> related)) \<and>
    (related \<or> (\<forall>call\<in>set (page_calls p). \<not> told_hub call) \<longrightarrow> \<not> useIsHubAgentContext l)"
proof -
  have a: "a \<noteq> []" using assms(2) by (auto simp: shown_screen_eq)
  obtain ctx where l: "l \<in> set (screen_links e st (ap_history st) (Some a)
      (render_page e st (Some (ap_history st)) ctx (Agent_Route a p) p))"
    using assms(2,3) by (auto simp: shown_screen_eq)
  note kinds = page_links [OF l, unfolded base_of_eq]
  have split: "l = link_path l @ dropWhile (\<lambda>c. c \<noteq> CHR ''?'') l" by (simp add: link_path_def)
  have hub: "useIsHubAgentContext (hub_base a)" by (simp add: useIsHubAgentContext_def hub_base_def)
  have pages: "p \<in> {Dashboard, Processes, Services, Containers, Container_Metrics}"
    using kinds assms(1) by (auto simp: served_def agent_routes_def split: page.splits)
  have outside: "\<not> useIsHubAgentContext l"
    if "link_path l \<in> {''/services'', ''/processes'', ''/containers'', ''/container-metrics''}"
  proof -
    have "\<not> useIsHubAgentContext (link_path l @ x)" for x using that by (auto simp: useIsHubAgentContext_def)
    then show ?thesis by (subst split)
  qed
  have below: "\<exists>rest. l = hub_base a @ ''/'' @ rest" if "link_path l = hub_base a @ ''/'' @ seg" for seg
  proof -
    have "link_path l @ dropWhile (\<lambda>c. c \<noteq> CHR ''?'') l = hub_base a @ ''/'' @ (seg @ dropWhile (\<lambda>c. c \<noteq> CHR ''?'') l)"
      by (simp add: that)
    then show ?thesis by (simp only: split [symmetric]) blast
  qed
  show ?thesis
    unfolding Let_def
    using pages kinds a hub outside below [of "''containers''"] below [of "''container-metrics''"]
    by (elim insertE) (auto simp: page_calls_def)
qed

text \<open>The hook of a container skips below an agent of the hub, and then has no snapshot.\<close>

lemma hub_container_skips:
  "\<not> given (detail_metrics_dep True c)" "\<not> given (page_metrics_dep True ps)"
  "cv_snapshot (on_skip useContainerMetrics v) = None"
  by (simp_all add: detail_metrics_dep_def page_metrics_dep_def useContainerMetrics_def given_def)

text \<open>A hub with one agent that runs one container, for the closed instances.\<close>

definition tile_state :: app_state where
  "tile_state = (demo_state history_view_init)
     \<lparr> ap_agents := [sample_agent ''a?'' ''live''],
       ap_agent_metrics := live_apply parse_iso ((snapshot_at ''x'')
         \<lparr> payload := idle_payload\<lparr> containers := [sample_container ''1'' ''db'' ''healthy''] \<rparr> \<rparr>) live_init \<rparr>"



theorem links_below_agent_witness:
  "\<exists>scr rest. shown_screen (app_screen demo_env tile_state ''/hub/agents/a%3F'' (Agent_Route ''a?'' Dashboard)) = Some scr \<and>
    screen_links demo_env tile_state (ap_history tile_state) (Some ''a?'') scr = [hub_base ''a?'' @ ''/'' @ rest]"
proof -
  let ?loc = "Agent_Route ''a?'' Dashboard"
  have "map_option (screen_links demo_env tile_state (ap_history tile_state) (Some ''a?''))
      (shown_screen (app_screen demo_env tile_state ''/hub/agents/a%3F'' ?loc)) = Some [''/hub/agents/a%3F/containers?id=1'']"
    by code_simp
  then obtain scr where scr: "shown_screen (app_screen demo_env tile_state ''/hub/agents/a%3F'' ?loc) = Some scr"
    and links: "screen_links demo_env tile_state (ap_history tile_state) (Some ''a?'') scr =
      [''/hub/agents/a%3F/containers?id=1'']" by auto
  have "served ?loc" "\<forall>call\<in>set (page_calls Dashboard). is_hub (mv_meta (ap_page_meta tile_state call))"
    by (simp_all add: served_def agent_routes_def page_calls_def tile_state_def demo_state_def is_hub_def hub_meta_def)
  with links_below_agent [OF this(1) scr, of "''/hub/agents/a%3F/containers?id=1''"]
  have "\<exists>rest. ''/hub/agents/a%3F/containers?id=1'' = hub_base ''a?'' @ ''/'' @ rest" by (simp add: links Let_def)
  then show ?thesis using scr links by simp
qed

text \<open>The same display before the page's own request for the mode is answered.\<close>

lemma unanswered_link_leaves:
  "map_option (screen_links demo_env (tile_state\<lparr> ap_page_meta := (\<lambda>call. meta_init) \<rparr>) (ap_history tile_state) (Some ''a?''))
     (shown_screen (app_screen demo_env (tile_state\<lparr> ap_page_meta := (\<lambda>call. meta_init) \<rparr>) ''/hub/agents/a%3F''
       (Agent_Route ''a?'' Dashboard))) = Some [''/containers?id=1'']"
  by code_simp

end
