(* ===== verification/TranslatedScreens.thy ===== *)
theory TranslatedScreens
  imports SiteMap
begin

text \<open>
  The translations that the application as displayed asks for: no screen, drawn with all of
  its headings, labels and messages, depends on a text that \<open>src/i18n/en.json\<close> lacks. The
  lemmas follow the definitions of \<open>Screens\<close>; keys that a view stores are looked up when it
  is drawn, so that the views that the pages return are considered, not arbitrary ones.
\<close>

section \<open>Lookups\<close>

lemma plain_at: "agree_plain t t' \<Longrightarrow> k \<in> set plain_keys \<Longrightarrow> t k = t' k"
  by (simp add: agree_plain_def list_all_iff)

lemma map_plain: "agree_plain t t' \<Longrightarrow> set ks \<subseteq> set plain_keys \<Longrightarrow> map (\<lambda>k. f (t k)) ks = map (\<lambda>k. f (t' k)) ks"
  by (intro map_cong refl arg_cong [where f = f] plain_at) auto

lemma counts_agree:
  assumes "agree t t'"
  shows "sample_count t n = sample_count t' n"
    "t ''containers.total'' [(''count'', x)] = t' ''containers.total'' [(''count'', x)]"
  unfolding sample_count_def by (rule agree_param [OF assms], (simp add: param_keys_def; fail), simp)+

section \<open>Parts\<close>

lemma parts_agree:
  assumes "agree_plain t t'"
  shows "copyButton_markup t label cb = copyButton_markup t' label cb"
    "timeRangePicker t r = timeRangePicker t' r"
    "tiles_markup t tiles = tiles_markup t' tiles" "disk_columns t = disk_columns t'" "network_columns t = network_columns t'"
    "serviceDetailPanel t narrow sd = serviceDetailPanel t' narrow sd"
    "container_row_markup t = container_row_markup t'" "peers_markup t cs = peers_markup t' cs"
    "dashboard_alert_markup t = dashboard_alert_markup t'" "switch_markup t = switch_markup t'"
    "diagnostic_card_markup t date ls = diagnostic_card_markup t' date ls" "chart_list t c = chart_list t' c"
proof -
  note keys = agree_plain_keys [OF assms]
  show "copyButton_markup t label cb = copyButton_markup t' label cb"
    by (simp add: copyButton_markup_def labels_agree(5) [OF assms] keys cong: option.case_cong)
  show "timeRangePicker t r = timeRangePicker t' r" by (simp add: timeRangePicker_def labels_agree(6) [OF assms])
  have "tile_markup t = tile_markup t'" by (simp add: tile_markup_def keys fun_eq_iff)
  then show "tiles_markup t tiles = tiles_markup t' tiles" by (simp add: tiles_markup_def keys)
  show "disk_columns t = disk_columns t'" "network_columns t = network_columns t'"
    by (simp_all add: disk_columns_def network_columns_def keys)
  show "serviceDetailPanel t narrow sd = serviceDetailPanel t' narrow sd"
    by (simp add: serviceDetailPanel_def keys)
  show "container_row_markup t = container_row_markup t'" "peers_markup t cs = peers_markup t' cs"
    "switch_markup t = switch_markup t'" "diagnostic_card_markup t date ls = diagnostic_card_markup t' date ls"
    by (simp_all add: container_row_markup_def agent_badge_def peers_markup_def switch_markup_def
        diagnostic_card_markup_def keys fun_eq_iff)
  have "t (if busy then ''alerts.acking'' else ''alerts.ack'') = t' (if busy then ''alerts.acking'' else ''alerts.ack'')" for busy
    by (simp add: keys)
  then show "dashboard_alert_markup t = dashboard_alert_markup t'"
    by (simp add: dashboard_alert_markup_def fun_eq_iff cong: option.case_cong)
  have "t ''card.cpu'' = t' ''card.cpu''" "t ''card.memory'' = t' ''card.memory''" "t ''section.disk'' = t' ''section.disk''"
    "t ''card.containers'' = t' ''card.containers''" by (simp_all add: keys)
  then show "chart_list t c = chart_list t' c" by (simp add: chart_list_def Let_def split: option.split)
qed

lemma time_bar_agree:
  assumes "agree t t'"
  shows "historyTimeBar_markup t b = historyTimeBar_markup t' b"
proof -
  have "t ''history.scrubber'' [] = t' ''history.scrubber'' []" by (simp add: agree_plain_keys [OF agree_plain [OF assms]])
  then show ?thesis
    by (simp add: historyTimeBar_markup_def parts_agree(2) [OF agree_plain [OF assms]] counts_agree(1) [OF assms])
qed

section \<open>Pages\<close>

lemma map_markup_cong: "(\<And>y. y \<in> set (slots m) \<Longrightarrow> f y = g y) \<Longrightarrow> map_markup f m = map_markup g m"
  by (induction m) auto

lemma message_keys: "set [''history.loading'', ''history.empty'', ''app.waiting'', ''history.error''] \<subseteq> set plain_keys"
  by (simp add: plain_keys_def)

lemma dashboard_screen_agree:
  assumes "agree t t'"
  shows "dashboard_markup num date ls t (dashboard_page t href hv h ctx) =
    dashboard_markup num date ls t' (dashboard_page t' href hv h ctx)"
proof -
  note plain = agree_plain [OF assms]
  note keys = agree_plain_keys [OF plain]
  have "set (hd_messages (dashboard_history r h)) \<subseteq> set plain_keys" for r
    using message_keys by (auto simp: dashboard_history_def Let_def)
  note messages = map_plain [OF plain this]
  have "dashboard_markup num date ls t v = dashboard_markup num date ls t' v"
    if "v = dashboard_page t' href hv h ctx" for v
    unfolding that
    by (simp add: dashboard_page_def dashboard_markup_def history_dashboard_markup_def live_dashboard_markup_def Let_def
        keys parts_agree(2-5) [OF plain] parts_agree(12) [OF plain] counts_agree(1) [OF assms] messages split: option.split)
  then show ?thesis by (simp add: dashboard_agree(1) [OF assms])
qed

lemma workbench_agree:
  assumes "agree t t'" and "\<And>c. f (content c) = f' (content c)"
  shows "workbench_markup t f (workbench_page surface title date hv h sel ctx content) =
    workbench_markup t' f' (workbench_page surface title date hv h sel ctx content)"
  by (simp add: workbench_markup_def workbench_page_def Let_def time_bar_agree [OF assms(1)] assms(2)
      map_plain [OF agree_plain [OF assms(1)] stored_keys(3) [of date hv h sel], where f = emptyState]
      agree_plain_keys [OF agree_plain [OF assms(1)]] split: option.split children.split)

lemma process_pane_agree:
  assumes "agree_plain t t'" and "pane \<in> set (slots (processSplitView collate t'' surface prefix ps ss pst))"
  shows "process_pane_markup t narrow pane = process_pane_markup t' narrow pane"
proof -
  note keys = agree_plain_keys [OF assms(1)]
  have detail: "processDetailPanel t narrow (process_detail_panel prefix p services) =
      processDetailPanel t' narrow (process_detail_panel prefix p services)" for p services
    by (simp add: processDetailPanel_def process_detail_panel_def keys)
  have columns: "map (\<lambda>(key, _). el ''th'' (fst (process_column_class key)) [Plain (t key)]) (process_columns b) =
      map (\<lambda>(key, _). el ''th'' (fst (process_column_class key)) [Plain (t' key)]) (process_columns b)" for b
    by (simp add: process_columns_def keys)
  from assms(2) consider inp rows where "pane = Process_Master inp (process_columns (surface = ContainerDetail_Surface)) rows"
    | p services where "pane = Process_Detail (process_detail_panel prefix p services)" | hint where "pane = Pick_Process hint"
    by (auto simp: processSplitView_def Let_def masterDetailLayout_panes split: option.splits)
  then show ?thesis by cases (simp_all only: process_pane_markup.simps detail columns)
qed

lemma processes_screen_agree:
  assumes "agree t t'"
  shows "workbench_markup t (panes_markup (process_pane_markup (\<lambda>k. t k []) narrow))
      (processesPage collate (\<lambda>k. t k []) surface b date hv h sel ctx pst) =
    workbench_markup t' (panes_markup (process_pane_markup (\<lambda>k. t' k []) narrow))
      (processesPage collate (\<lambda>k. t' k []) surface b date hv h sel ctx pst)"
proof -
  note plain = agree_plain [OF assms]
  have "panes_markup (process_pane_markup (\<lambda>k. t k []) narrow) (processesContent collate t'' surface c pst) =
      panes_markup (process_pane_markup (\<lambda>k. t' k []) narrow) (processesContent collate t'' surface c pst)" for c t''
    unfolding panes_markup_def processesContent_def
    by (auto split: option.split intro!: arg_cong [where f = fill] map_markup_cong process_pane_agree [OF plain])
  then have "workbench_markup t (panes_markup (process_pane_markup (\<lambda>k. t k []) narrow))
      (processesPage collate t'' surface b date hv h sel ctx pst) =
    workbench_markup t' (panes_markup (process_pane_markup (\<lambda>k. t' k []) narrow))
      (processesPage collate t'' surface b date hv h sel ctx pst)" for t''
    unfolding processesPage_def by (rule workbench_agree [OF assms])
  then show ?thesis by (simp only: split_views_agree(1) [OF plain])
qed

lemma service_pane_agree:
  assumes "agree_plain t t'"
  shows "service_pane_markup t narrow m = service_pane_markup t' narrow m"
proof
  show "service_pane_markup t narrow m pane = service_pane_markup t' narrow m pane" for pane
    by (cases pane) (simp_all add: service_pane_markup.simps parts_agree(6) [OF assms])
qed

lemma services_screen_agree:
  assumes "agree t t'"
  shows "workbench_markup t (panes_markup (service_pane_markup (\<lambda>k. t k []) narrow m))
      (servicesPage collate (\<lambda>k. t k []) surface b date hv h sel ctx sst) =
    workbench_markup t' (panes_markup (service_pane_markup (\<lambda>k. t' k []) narrow m))
      (servicesPage collate (\<lambda>k. t' k []) surface b date hv h sel ctx sst)"
proof -
  note plain = agree_plain [OF assms]
  have "workbench_markup t f (servicesPage collate t'' surface b date hv h sel ctx sst) =
    workbench_markup t' f (servicesPage collate t'' surface b date hv h sel ctx sst)" for f t''
    unfolding servicesPage_def by (rule workbench_agree [OF assms refl])
  then show ?thesis by (simp only: split_views_agree(2) [OF plain] service_pane_agree [OF plain])
qed

lemma inner_page_agree:
  assumes "agree t t'"
  shows "inner_page (e\<lparr> e_t := t \<rparr>) = inner_page (e\<lparr> e_t := t' \<rparr>)"
proof (intro ext)
  show "inner_page (e\<lparr> e_t := t \<rparr>) st hv surface b tab ctx = inner_page (e\<lparr> e_t := t' \<rparr>) st hv surface b tab ctx"
    for st hv surface b tab ctx
    by (cases "tab = Services_Tab")
       (simp_all add: inner_page_def Let_def processes_screen_agree [OF assms] services_screen_agree [OF assms])
qed

lemma detail_screen_agree:
  assumes "agree_plain t t'"
  shows "container_detail_markup num t cb cb' inner tab on_back (containerDetail date t'' test_base base host c own tab') =
    container_detail_markup num t' cb cb' inner tab on_back (containerDetail date t'' test_base base host c own tab')"
proof -
  note keys = agree_plain_keys [OF assms]
  have "overview_items t cb' (containerOverview t'' host c own target) = overview_items t' cb' (containerOverview t'' host c own target)" for target
    by (simp add: overview_items_def containerOverview_def Let_def keys parts_agree(1) [OF assms])
  then have "detail_content_markup num t cb' inner (container_detail_content date t'' host c own target tab') =
      detail_content_markup num t' cb' inner (container_detail_content date t'' host c own target tab')" for target
    by (simp add: detail_content_markup_def container_detail_content_def container_overview_markup_def keys
        parts_agree(8) [OF assms] split: option.split)
  then show ?thesis
    by (simp add: container_detail_markup_def containerDetail_def Let_def keys parts_agree(1) [OF assms]
        labels_agree(8) [OF assms])
qed

lemma containers_content_agree:
  assumes "agree t t'"
  shows "containers_content (e\<lparr> e_t := t \<rparr>) = containers_content (e\<lparr> e_t := t' \<rparr>)"
proof (intro ext)
  have "containersWorkbench (\<lambda>k. t k []) ctx cst = containersWorkbench (\<lambda>k. t' k []) ctx cst" for ctx cst
    by (simp add: containersWorkbench_def Let_def agree_plain_keys [OF agree_plain [OF assms]] cong: if_cong option.case_cong)
  then show "containers_content (e\<lparr> e_t := t \<rparr>) st test_base base ctx = containers_content (e\<lparr> e_t := t' \<rparr>) st test_base base ctx" for st test_base base ctx
    by (simp add: containers_content_def containers_agree(2) [OF assms] split: option.split prod.split)
qed

lemma container_pane_agree:
  assumes "agree t t'"
  shows "container_pane_markup t detail = container_pane_markup t' detail"
proof
  show "container_pane_markup t detail pane = container_pane_markup t' detail pane" for pane
    by (cases pane) (simp_all add: container_pane_markup.simps container_list_markup_def counts_agree(2) [OF assms]
        parts_agree(7) [OF agree_plain [OF assms]])
qed

lemma containers_screen_agree:
  assumes "agree t t'"
  shows "workbench_markup t (containers_content_markup (e\<lparr> e_t := t \<rparr>) st hv)
      (workbench_page Page_Surface (Some (t ''containers.pageTitle'' [])) date hv' h sel ctx (containers_content (e\<lparr> e_t := t \<rparr>) st test_base base)) =
    workbench_markup t' (containers_content_markup (e\<lparr> e_t := t' \<rparr>) st hv)
      (workbench_page Page_Surface (Some (t' ''containers.pageTitle'' [])) date hv' h sel ctx (containers_content (e\<lparr> e_t := t' \<rparr>) st test_base base))"
proof -
  note plain = agree_plain [OF assms]
  have "containers_content_markup (e\<lparr> e_t := t \<rparr>) st hv (containers_content e' st test_base base c) =
      containers_content_markup (e\<lparr> e_t := t' \<rparr>) st hv (containers_content e' st test_base base c)" for e' c
  proof (cases "snd (containers_content e' st test_base base c)")
    case None
    then show ?thesis
      by (simp add: containers_content_markup_def containers_screen_markup_def container_pane_agree [OF assms] split_beta
          split: option.split)
  next
    case (Some d)
    then obtain host y where "d = containerDetail (e_date e') (e_t e') test_base base host y (ap_container st) (ap_tab st)"
      by (auto simp: containers_content_def split: option.splits)
    then show ?thesis
      using Some by (simp add: containers_content_markup_def containers_screen_markup_def container_pane_agree [OF assms]
          detail_screen_agree [OF plain] inner_page_agree [OF assms] split_beta split: option.split)
  qed
  then have "workbench_markup t (containers_content_markup (e\<lparr> e_t := t \<rparr>) st hv)
      (workbench_page Page_Surface title date hv' h sel ctx (containers_content e' st test_base base)) =
    workbench_markup t' (containers_content_markup (e\<lparr> e_t := t' \<rparr>) st hv)
      (workbench_page Page_Surface title date hv' h sel ctx (containers_content e' st test_base base))" for title e'
    by (rule workbench_agree [OF assms])
  then show ?thesis by (simp add: containers_content_agree [OF assms] agree_plain_keys [OF plain])
qed

lemma metrics_screen_agree:
  assumes "agree t t'"
  shows "metrics_view_markup num (\<lambda>k. t k []) cb inner (container_metrics_page date t test_base back_base base ps host own) =
    metrics_view_markup num (\<lambda>k. t' k []) cb inner (container_metrics_page date t' test_base back_base base ps host own)"
proof -
  note plain = agree_plain [OF assms]
  note keys = agree_plain_keys [OF plain]
  have overview: "overview_markup num (\<lambda>k. t k []) v = overview_markup num (\<lambda>k. t' k []) v" for v
    by (simp add: overview_markup_def keys parts_agree(3-5) [OF plain])
  have "metrics_content_markup num (\<lambda>k. t k []) inner c = metrics_content_markup num (\<lambda>k. t' k []) inner c" for c
    by (simp add: metrics_content_markup_def keys overview split: metrics_content.split option.split)
  then have "metrics_page_markup num (\<lambda>k. t k []) cb inner p = metrics_page_markup num (\<lambda>k. t' k []) cb inner p" for p
    by (simp add: metrics_page_markup_def Let_def keys parts_agree(1) [OF plain] parts_agree(10) [OF plain]
        labels_agree(8) [OF plain])
  moreover have "t m [] = t' m []" if "container_metrics_page date t' test_base back_base base ps host own = Metrics_Message m" for m
    using plain_at [OF plain stored_keys(4) [OF that]] .
  ultimately show ?thesis
    by (simp add: metrics_view_markup_def containers_agree(3) [OF assms] split: metrics_page_view.split)
qed

lemma diagnostics_screen_agree:
  assumes "agree_plain t t'"
  shows "diagnostics_markup t date ls agent d = diagnostics_markup t' date ls agent d"
  by (simp add: diagnostics_markup_def diagnostic_panel_markup_def Let_def agree_plain_keys [OF assms]
      parts_agree(11) [OF assms] split: diagnostics_page.split option.split)

lemma render_page_agree:
  assumes "agree t t'"
  shows "render_page (e\<lparr> e_t := t \<rparr>) st v ctx loc p = render_page (e\<lparr> e_t := t' \<rparr>) st v ctx loc p"
proof -
  note plain = agree_plain [OF assms]
  have "diagnostic_panel num str collate t = diagnostic_panel num str collate t'" for num str collate
    by (intro ext insights_agree [OF assms])
  then show ?thesis
    by (cases p)
       (simp_all add: render_page_def Let_def dashboard_agree(1) [OF assms] hub_agent_dashboard_def alerts_agree [OF plain]
        split_views_agree [OF plain] agree_plain_keys [OF plain] containers_content_agree [OF assms]
        containers_agree(3) [OF assms] hub_agree [OF assms] split: sum.split location.split)
qed

lemma screen_markup_agree:
  assumes "agree t t'"
  shows "screen_markup (e\<lparr> e_t := t \<rparr>) st hv agent (render_page (e\<lparr> e_t := t \<rparr>) st (Some hv') ctx loc p) =
    screen_markup (e\<lparr> e_t := t' \<rparr>) st hv agent (render_page (e\<lparr> e_t := t' \<rparr>) st (Some hv') ctx loc p)"
proof -
  note plain = agree_plain [OF assms]
  have agent_dash: "agent_dashboard_markup (\<lambda>k. t k []) m rows = agent_dashboard_markup (\<lambda>k. t' k []) m rows" for m rows
    by (simp add: agent_dashboard_markup_def agree_plain_keys [OF plain] parts_agree(9) [OF plain])
  have "diagnostic_panel num str collate t = diagnostic_panel num str collate t'" for num str collate
    by (intro ext insights_agree [OF assms])
  then show ?thesis
    by (cases p)
       (simp_all add: render_page_def screen_markup_def useHistoryView_def Let_def dashboard_screen_agree [OF assms]
        hub_agent_dashboard_def alerts_agree(2) [OF plain] agent_dash processes_screen_agree [OF assms]
        services_screen_agree [OF assms] containers_screen_agree [OF assms] metrics_screen_agree [OF assms]
        inner_page_agree [OF assms] diagnostics_screen_agree [OF plain])
qed

section \<open>Properties\<close>

text \<open>C8: nothing that the application displays is a bare key or an unfilled placeholder:
  translations that differ only on calls with a key that is not in the table, or with a
  parameter missing that the text of the key has, give the same display at every location
  in every state, and the same elements when its page is drawn.\<close>

theorem no_untranslated_text:
  assumes "agree t t'"
  shows "app_screen (e\<lparr> e_t := t \<rparr>) st path loc = app_screen (e\<lparr> e_t := t' \<rparr>) st path loc \<and>
    (\<forall>scr. shown_screen (app_screen (e\<lparr> e_t := t \<rparr>) st path loc) = Some scr \<longrightarrow>
      screen_markup (e\<lparr> e_t := t \<rparr>) st (ap_history st) agent scr = screen_markup (e\<lparr> e_t := t' \<rparr>) st (ap_history st) agent scr)"
proof -
  note plain = agree_plain [OF assms]
  note keys = agree_plain_keys [OF plain]
  have outlet: "outlet_of (e\<lparr> e_t := t \<rparr>) st v loc = outlet_of (e\<lparr> e_t := t' \<rparr>) st v loc" for v
    by (simp add: outlet_of_def render_page_agree [OF assms] keys split: location.split agent_layout.split)
  have shell: "appShell (e\<lparr> e_t := t \<rparr>) st hv s path loc = appShell (e\<lparr> e_t := t' \<rparr>) st hv s path loc" for hv s
    by (simp add: appShell_def app_shell_def Let_def outlet frame_agree [OF plain] sidebar_agree [OF plain] keys agentNav_def)
  have same: "app_screen (e\<lparr> e_t := t \<rparr>) st path loc = app_screen (e\<lparr> e_t := t' \<rparr>) st path loc"
    by (simp add: app_screen_def labels_agree(12) [OF plain] keys shell split: app_view.split)
  moreover have "screen_markup (e\<lparr> e_t := t \<rparr>) st (ap_history st) agent scr = screen_markup (e\<lparr> e_t := t' \<rparr>) st (ap_history st) agent scr"
    if "shown_screen (app_screen (e\<lparr> e_t := t \<rparr>) st path loc) = Some scr" for scr
  proof -
    have "\<exists>ctx p. scr = render_page (e\<lparr> e_t := t \<rparr>) st (Some (ap_history st)) ctx loc p"
      using that unfolding shown_screen_eq by (cases loc) auto
    then obtain ctx p where scr: "scr = render_page (e\<lparr> e_t := t \<rparr>) st (Some (ap_history st)) ctx loc p"
      by blast
    show ?thesis using screen_markup_agree [OF assms] unfolding scr by (simp add: render_page_agree [OF assms])
  qed
  ultimately show ?thesis by blast
qed

theorem no_untranslated_text_witness:
  "let t' = (\<lambda>k opts. if k = ''hub.title.missing'' \<and> opts = [] then [] else k) in
    app_screen (demo_env\<lparr> e_t := \<lambda>k opts. k \<rparr>) tile_state ''/hub/agents/a%3F'' (Agent_Route ''a?'' Dashboard) =
    app_screen (demo_env\<lparr> e_t := t' \<rparr>) tile_state ''/hub/agents/a%3F'' (Agent_Route ''a?'' Dashboard)"
  unfolding Let_def by (rule no_untranslated_text [OF agree_but_for_missing, THEN conjunct1])

end
