(* ===== verification/Spec2Isabelle.thy ===== *)
theory Spec2Isabelle
  imports AgentStatus Application Alerts AlertConfig ContainerViews DashboardViews Diagnostics Format HistoryHook
    HistorySeries HistorySpec HistoryView HubScreens HubViews LiveHooks Navigation PageFrames ProcessViews
    ReplyOrder Requests ServerRoutes ServiceProcessLink ServiceTree SiteMap SplitViews TranslatedScreens Translations
begin

text \<open>
  A model of the frontend of the instance metric collector
  (\<open>src/go/web/frontend/src\<close>), the single-page application that an agent and a hub
  serve. An agent's frontend shows the metrics of its host; a hub's frontend lists the
  agents that report to it, and shows the metrics, history, alerts and insights of each.

  Parts. Hooks (\<open>api/\<close>) poll the server and keep what it answered; pure functions
  (\<open>lib/\<close>) label, format, sort, filter and match; contexts hold the view mode and the
  snapshot that the pages of a frame read; components and routes compute from these what
  is displayed. A page reads the live snapshot, or, in history mode, a sample of a
  history that another hook fetched for the chosen range.

  Theories.
  \<open>Prelude\<close>, \<open>JsString\<close>, \<open>JsNumber\<close>, \<open>JsSort\<close>, \<open>JsStore\<close>, \<open>JsUrl\<close>, \<open>JsQuery\<close>,
  \<open>JsDate\<close>, \<open>JsParse\<close>: what the code uses of the language; what is printed is read
  back (numbers, dates of the years 1970 to 9999, query strings). Interfaces are locales:
  \<open>comparator_on\<close> (a consistent comparator, under which \<open>sort\<close> sorts, is stable and
  is determined), \<open>keyed_store\<close> and \<open>ordered_store\<close> (maps, spread updates, query
  parameters, the fields of a configuration), each interpreted on the code's instances.
  \<open>ApiTypes\<close>, \<open>ApiClient\<close>: the wire types and \<open>apiGet\<close>, \<open>apiPut\<close>, \<open>apiPost\<close>.
  \<open>Polling\<close>: the scheduling that effects, intervals and promises give a hook, as a step
  relation over requests in flight; its locale \<open>view_invariant\<close> is interpreted on hooks
  in \<open>LiveHooks\<close> (\<open>useHubAgents\<close>, \<open>useHubAgentMetrics\<close>, \<open>useContainerMetrics\<close>,
  \<open>useMeta\<close>, \<open>useHubConfig\<close>, \<open>useMetrics\<close>).
  \<open>HistoryHook\<close>: \<open>useHistorySamples\<close>, whose effect cancels its earlier runs, with the
  invariant of its runs and flags; \<open>HistorySpec\<close>, the contract of that hook as a state
  machine without runs and flags, which the hook refines (locale \<open>simulation\<close>) and whose
  every step it can do; \<open>HistorySeries\<close> (\<open>lib/historySeries.ts\<close>) and
  \<open>HistoryView\<close> (contexts, slider, time bar, workbench).
  \<open>AgentStatus\<close>, \<open>Format\<close>, \<open>ServiceProcessLink\<close>: the files of \<open>lib/\<close> of these names.
  \<open>ServiceTree\<close>, \<open>ProcessViews\<close>: the pages of services and processes and their details.
  \<open>ContainerViews\<close>: the pages of containers. \<open>DashboardViews\<close>: dashboard, cards, charts.
  \<open>Diagnostics\<close>: the panel of insights. \<open>Alerts\<close>, \<open>AlertConfig\<close>: the alerts with
  their actions and the editor of thresholds, as state machines. \<open>Navigation\<close>: paths,
  routes, the switch between live and history, the frame of the application.
  \<open>HubViews\<close>: the pages of the hub, the sidebar, the frame of an agent.
  \<open>Layout\<close>, \<open>Controls\<close>: the components of \<open>components/layout/\<close> and the small displays
  as elements, the tabs, fields, indicators, the copy button with its timers, the locale.
  \<open>SplitViews\<close>: the two-pane views with their state and their pages in both modes.
  \<open>PageFrames\<close>: the screens of the containers page, the tab bar of a container, the
  fields of the thresholds editor, the header of the application. \<open>HubScreens\<close>: the table of
  alerts with what its buttons do, the page of the hub and the tree of its sidebar.
  \<open>Requests\<close>: all paths that the hooks request, that they are well formed, and their segments
  once the parser of URLs has removed those of dots. \<open>ServerRoutes\<close>: which identifier the
  handlers of \<open>src/go/internal/web/server.go\<close> read from these paths. \<open>ReplyOrder\<close>: what the
  hooks show when replies come in the order of the requests (locale \<open>settled\<close>, also on a hook
  that logs its replies), and where that is not enough. \<open>Translations\<close>: the keys and placeholders of \<open>i18n/en.json\<close>, and that the
  views of the pages ask for nothing else. \<open>Application\<close>: routes, contexts, shell and pages
  composed, and on which of the hooks the display at a location depends; the layout and every
  call of \<open>useAgentBasePath\<close> have the answer to a request for the mode of their own.
  \<open>Markup\<close>, \<open>Screens\<close>: the elements that the pages return, with their headings, labels and
  links, drawn from the views. \<open>SiteMap\<close>: where the links of the whole application lead.
  \<open>TranslatedScreens\<close>: the texts that the application as displayed asks for.

  What the lemmas show. Per hook: an invariant of its reachable states, that loading
  indicators end, and which replies can change the view (the history hook ignores those
  of earlier dependencies; the others do not, and runs are exhibited), what each kind of
  reply leads to, and that an unmounted hook stops. Per page: the
  rows are the matching items in the stated order, a selection is one of them, links
  lead where they should (what is written into a query is read back, no link is dead), the
  tree of services shows the list. Per editor: that no step leaves the stated invariant and what
  is sent and shown.

  Conventions. A string is a list of code units below 256. A measured quantity is an
  exact rational and a counter an integer: the rounding of double operations and the
  precision of integers above \<open>2 ^ 53\<close> are not modelled. A thrown error is \<open>Inl\<close>,
  \<open>null\<close> and \<open>undefined\<close> are \<open>None\<close>. A component is the record of what it displays; the
  elements around these values are in \<open>Screens\<close>, and for the hub, the alerts and the
  sidebar only their class names where the code computes them.
  Arguments stand for what is not the program's: the date parser (\<open>None\<close> for
  \<open>NaN\<close>; \<open>JsDate.parse_iso\<close> is an instance), \<open>localeCompare\<close> (\<open>collate\<close>), the
  translation function \<open>t\<close>, the number conversions \<open>num_str\<close> and \<open>str_num\<close>
  (\<open>JsParse.js_number\<close> is an instance), and the parameters that the router matched. The two copies of the detail of a container, for a
  narrow and for a wide window, are drawn from one state. Every function is total; loops are
  structural or have a measure (the unit loop of \<open>formatBytes\<close>, the rendering of the tree,
  decoding), so there is no fuel.

  Not modelled: style sheets and, except where a component computes them, class names;
  the router's matching; the lookup and interpolation of translations; the browser beyond its answers
  (\<open>fetch\<close>, clipboard, media query, animation frames); React's rendering beyond the
  order of effects; the mounting in \<open>main.tsx\<close>, the constants of \<open>design/tokens.ts\<close>,
  which nothing reads, the build and test configuration; and the server in Go, except for how it reads the identifier in a path.
\<close>

section \<open>The request for the history of an agent\<close>

lemma history_path_parts:
  assumes "uses_hub d"
  shows "history_path now d =
    (''/api/v1/agents/'' @ encode_uri_component (the (d_agent d)) @ ''/history'') @ ''?'' @
      params_to_string
        [(''from'', to_iso (fst (historyRangeBounds now (d_range d)))),
         (''to'', to_iso (snd (historyRangeBounds now (d_range d)))),
         (''resolution'', resolution_name (resolutionForRange (d_range d))), (''limit'', ''500'')]"
  using assms by (simp add: history_path_def split_beta Let_def)

lemma agent_of_history_path:
  assumes "uses_hub d"
  shows "takeWhile (\<lambda>c. c \<notin> set ''/?'') (drop 15 (history_path now d)) =
    encode_uri_component (the (d_agent d))"
proof -
  obtain rest where "history_path now d =
      ''/api/v1/agents/'' @ encode_uri_component (the (d_agent d)) @ ''/'' @ rest"
    using history_path_parts [OF assms] by simp
  then show ?thesis using takeWhile_encoded [of "''/'' @ rest" "the (d_agent d)"] by simp
qed

lemma hub_query:
  assumes "uses_hub d"
  shows "params_parse (link_query (history_path now d)) = Some
      [(''from'', to_iso (now - range_hours (d_range d) * 60 * 60 * 1000)), (''to'', to_iso now),
       (''resolution'', if d_range d = Range_7d then ''hourly'' else ''raw''), (''limit'', ''500'')]"
proof -
  have free: "CHR ''?'' \<notin> set (''/api/v1/agents/'' @ encode_uri_component (the (d_agent d)) @ ''/history'')"
    using encode_no_delimiter [of "the (d_agent d)"] by auto
  show ?thesis
    unfolding history_path_parts [OF assms] link_query_append [OF free] params_parse_to_string
    by (simp add: historyRangeBounds_def resolutionForRange_def)
qed

text \<open>C24: on the hub a history request asks for what the page shows: its query, read back,
  has the bounds of the chosen range and the resolution for it, and requests for
  different agents never have the same path, whatever their identifiers contain.\<close>

theorem hub_history_request:
  assumes "uses_hub d" and "uses_hub d'"
  shows "params_parse (link_query (history_path now d)) = Some
      [(''from'', to_iso (now - range_hours (d_range d) * 60 * 60 * 1000)), (''to'', to_iso now),
       (''resolution'', if d_range d = Range_7d then ''hourly'' else ''raw''), (''limit'', ''500'')] \<and>
    (history_path now d = history_path now' d' \<longrightarrow> d_agent d = d_agent d')"
proof
  show "params_parse (link_query (history_path now d)) = Some
      [(''from'', to_iso (now - range_hours (d_range d) * 60 * 60 * 1000)), (''to'', to_iso now),
       (''resolution'', if d_range d = Range_7d then ''hourly'' else ''raw''), (''limit'', ''500'')]"
    by (rule hub_query [OF assms(1)])
  show "history_path now d = history_path now' d' \<longrightarrow> d_agent d = d_agent d'"
  proof
    assume "history_path now d = history_path now' d'"
    then have "the (d_agent d) = the (d_agent d')"
      using agent_of_history_path assms by (metis encode_inject)
    then show "d_agent d = d_agent d'" using assms by (auto simp: uses_hub_def)
  qed
qed

theorem hub_history_request_witness:
  "params_get (the (params_parse (link_query (history_path 3600000
     \<lparr> d_enabled = True, d_range = Range_1h, d_hub = True, d_agent = Some ''a/b'' \<rparr>)))) ''resolution'' = Some ''raw''"
  using hub_history_request [of "\<lparr> d_enabled = True, d_range = Range_1h, d_hub = True, d_agent = Some ''a/b'' \<rparr>"
      "\<lparr> d_enabled = True, d_range = Range_1h, d_hub = True, d_agent = Some ''a/b'' \<rparr>" 3600000]
  by (simp add: uses_hub_def)

text \<open>C25: both modes show the same window of time: the instants that a request to the hub
  carries are read back exactly, and a sample is kept by the filter of the local mode
  exactly when its instant lies between them.\<close>

theorem hub_window_is_local_window:
  assumes "uses_hub d" and "range_hours (d_range d) * 3600000 \<le> now" and "now < 253402300800000"
  shows "\<exists>ps t0 t1. params_parse (link_query (history_path now d)) = Some ps \<and>
    Option.bind (params_get ps ''from'') parse_iso = Some t0 \<and>
    Option.bind (params_get ps ''to'') parse_iso = Some t1 \<and>
    (\<forall>s samples. s \<in> set (filterSamplesByRange parse_iso now samples (d_range d)) \<longleftrightarrow>
       s \<in> set samples \<and> (\<exists>t. parse_iso (collectedAt s) = Some t \<and> t0 \<le> t \<and> t \<le> t1))"
proof -
  let ?t0 = "now - range_hours (d_range d) * 60 * 60 * 1000"
  have "0 \<le> range_hours (d_range d)" by (cases "d_range d") simp_all
  then have "0 \<le> ?t0" "?t0 < 253402300800000" "0 \<le> now" using assms(2,3) by simp_all
  then have "parse_iso (to_iso ?t0) = Some ?t0" "parse_iso (to_iso now) = Some now"
    using assms(3) by (simp_all only: parse_to_iso)
  then show ?thesis
    unfolding hub_query [OF assms(1)]
    by (intro exI [of _ ?t0] exI [of _ now] exI conjI) (auto simp: filter_range_iff)
qed

theorem hub_window_is_local_window_witness:
  "\<exists>ps t0. params_parse (link_query (history_path 86400000
     \<lparr> d_enabled = True, d_range = Range_1h, d_hub = True, d_agent = Some ''a/b'' \<rparr>)) = Some ps \<and>
     Option.bind (params_get ps ''from'') parse_iso = Some t0"
  using hub_window_is_local_window [of "\<lparr> d_enabled = True, d_range = Range_1h, d_hub = True, d_agent = Some ''a/b'' \<rparr>" 86400000]
  by (auto simp: uses_hub_def)

end
